(* ===== verification/Prelude.thy ===== *)
theory Prelude
  imports Complex_Main "HOL-Library.Word" "HOL-Library.Sublist"
begin

text \<open>
  Shared ground of the development: the collections of rewrite rules that the component
  theories fill, the widths of the C integer types, and the facts on lists (bounded
  copies, suffixes, rings of slots) that more than one component needs.
\<close>

section \<open>Collections\<close>

named_theorems c_simps \<open>rewrite rules for the models of the C library functions\<close>
named_theorems bounds \<open>sizes of the fixed C buffers\<close>
named_theorems step_simps \<open>one-step unfoldings of operations on component states\<close>

section \<open>Machine integers\<close>

text \<open>
  An \<open>int32_t\<close> is an \<open>int\<close>; the places where the code narrows to 32 bits go through
  \<open>to_i32\<close>, the two's complement wrap-around of the conversion. The atomic 64-bit
  counters are words, whose addition wraps as C11 prescribes for atomic types.
\<close>

type_synonym counter64 = "64 word"

text \<open>A \<open>struct timespec\<close>: seconds and nanoseconds.\<close>

type_synonym timespec = "int \<times> int"

definition INT32_MAX :: int where
  "INT32_MAX = 2147483647"

definition INT32_MIN :: int where
  "INT32_MIN = - 2147483648"

definition to_i32 :: "int \<Rightarrow> int" where
  "to_i32 x = sint (word_of_int x :: 32 word)"

definition in_i32 :: "int \<Rightarrow> bool" where
  "in_i32 x \<longleftrightarrow> INT32_MIN \<le> x \<and> x \<le> INT32_MAX"

lemma to_i32_in_range [bounds]: "in_i32 (to_i32 x)"
proof -
  have "- (2 ^ 31) \<le> sint (word_of_int x :: 32 word)"
    using sint_greater_eq [of "word_of_int x :: 32 word"] by simp
  moreover have "sint (word_of_int x :: 32 word) < 2 ^ 31"
    using sint_less [of "word_of_int x :: 32 word"] by simp
  ultimately show ?thesis
    by (simp add: to_i32_def in_i32_def INT32_MIN_def INT32_MAX_def)
qed

lemma to_i32_id [c_simps]: "in_i32 x \<Longrightarrow> to_i32 x = x"
  unfolding to_i32_def in_i32_def INT32_MIN_def INT32_MAX_def
  by (simp add: sint_sbintrunc' signed_take_bit_int_eq_self)

section \<open>Lists\<close>

text \<open>The last \<open>k\<close> elements of a list: what a rolling window of size \<open>k\<close> keeps.\<close>

definition last_n :: "nat \<Rightarrow> 'a list \<Rightarrow> 'a list" where
  "last_n k xs = drop (length xs - k) xs"

lemma length_last_n [simp]: "length (last_n k xs) = min k (length xs)"
  by (simp add: last_n_def)

lemma last_n_Nil [simp]: "last_n k [] = []"
  by (simp add: last_n_def)

lemma last_n_all [simp]: "length xs \<le> k \<Longrightarrow> last_n k xs = xs"
  by (simp add: last_n_def)

lemma last_n_append: "last_n k (xs @ ys) = last_n (k - length ys) xs @ last_n k ys"
proof (cases "k \<le> length ys")
  case True
  then show ?thesis by (simp add: last_n_def)
next
  case False
  then have "length xs + length ys - k = length xs - (k - length ys)" by arith
  with False show ?thesis by (simp add: last_n_def)
qed

lemma last_n_last_n: "last_n j (last_n k xs) = last_n (min j k) xs"
proof (cases "k \<le> length xs")
  case True
  then have "min j k = j \<and> k - j + (length xs - k) = length xs - j \<or> min j k = k \<and> k - j = 0"
    by arith
  with True show ?thesis by (auto simp: last_n_def)
next
  case False
  then have "length xs - min j k = length xs - j" by arith
  with False show ?thesis by (simp add: last_n_def)
qed

lemma suffix_last_n: "suffix (last_n k xs) xs"
  by (simp add: last_n_def suffix_drop)

lemma suffix_iff_last_n: "suffix s t \<longleftrightarrow> length s \<le> length t \<and> last_n (length s) t = s"
proof
  assume "suffix s t"
  then obtain u where "t = u @ s" by (auto simp: suffix_def)
  then show "length s \<le> length t \<and> last_n (length s) t = s"
    by (simp add: last_n_def)
next
  assume "length s \<le> length t \<and> last_n (length s) t = s"
  then show "suffix s t" using suffix_last_n [of "length s" t] by simp
qed

lemma suffix_window:
  assumes "length s \<le> k"
  shows "suffix s (last_n k t) \<longleftrightarrow> suffix s t"
proof -
  have "last_n (length s) (last_n k t) = last_n (length s) t"
    using assms by (simp add: last_n_last_n min_absorb1)
  then show ?thesis using assms by (auto simp: suffix_iff_last_n)
qed

lemma mod_once: "(x::nat) < 2 * n \<Longrightarrow> x mod n = (if x < n then x else x - n)"
  by (simp add: mod_if)

lemma take_take_le: "m \<le> n \<Longrightarrow> take n (take m xs) = take m xs"
  by simp

lemma option_bind_Some_iff: "(Option.bind x f = Some y) \<longleftrightarrow> (\<exists>z. x = Some z \<and> f z = Some y)"
  by (cases x) simp_all

end
