(* ===== verification/Clib.thy ===== *)
theory Clib
  imports Prelude
begin

text \<open>
  The parts of the C library the program computes with, as functions on byte strings: the
  bounded copy \<open>snprintf(dst, n, "%s", src)\<close>, \<open>strtol\<close>, \<open>strtof\<close>, \<open>strtok_r\<close>, \<open>fgets\<close>,
  \<open>strstr\<close>, decimal and hexadecimal printing, and IEEE binary32 and binary64 values with
  round-to-nearest-even. A C string is the list of its bytes before the terminating NUL.
  Zero has no sign here: the program never looks at the sign of a zero.
\<close>

section \<open>Strings\<close>

definition NUL :: char where
  "NUL = CHR 0x00"

definition NL :: char where
  "NL = CHR 0x0A"

text \<open>The C string in a buffer of bytes: everything before the first NUL.\<close>

definition cstr :: "string \<Rightarrow> string" where
  "cstr bs = takeWhile (\<lambda>c. c \<noteq> NUL) bs"

definition is_cstr :: "string \<Rightarrow> bool" where
  "is_cstr s \<longleftrightarrow> NUL \<notin> set s"

text \<open>\<open>snprintf(dst, n, "%s", s)\<close> keeps at most \<open>n - 1\<close> bytes.\<close>

definition snprintf_s :: "nat \<Rightarrow> string \<Rightarrow> string" where
  "snprintf_s n s = take (n - 1) s"

lemma length_snprintf_s [bounds]: "length (snprintf_s n s) \<le> n - 1"
  by (simp add: snprintf_s_def)

lemma snprintf_s_id [c_simps]: "length s < n \<Longrightarrow> snprintf_s n s = s"
  by (simp add: snprintf_s_def)

lemma snprintf_s_Nil [simp]: "snprintf_s n [] = []"
  by (simp add: snprintf_s_def)

lemma snprintf_s_twice [c_simps]: "m \<le> n \<Longrightarrow> snprintf_s n (snprintf_s m s) = snprintf_s m s"
  by (simp add: snprintf_s_def min_absorb2 diff_le_mono)

lemma cstr_id [c_simps]: "is_cstr s \<Longrightarrow> cstr s = s"
  unfolding cstr_def is_cstr_def takeWhile_eq_all_conv by auto

lemma is_cstr_cstr [simp]: "is_cstr (cstr bs)"
  unfolding cstr_def is_cstr_def by (auto dest: set_takeWhileD)

lemma is_cstr_take [simp]: "is_cstr s \<Longrightarrow> is_cstr (take n s)"
  unfolding is_cstr_def by (meson in_set_takeD)

lemma is_cstr_snprintf_s [simp]: "is_cstr s \<Longrightarrow> is_cstr (snprintf_s n s)"
  by (simp add: snprintf_s_def)

lemma is_cstr_append [simp]: "is_cstr (s @ t) \<longleftrightarrow> is_cstr s \<and> is_cstr t"
  by (simp add: is_cstr_def)

lemma length_cstr [bounds]: "length (cstr bs) \<le> length bs"
  unfolding cstr_def by (rule length_takeWhile_le)

text \<open>\<open>strncmp(s, p, n) == 0\<close> on C strings.\<close>

definition strncmp_eq :: "nat \<Rightarrow> string \<Rightarrow> string \<Rightarrow> bool" where
  "strncmp_eq n s p \<longleftrightarrow> take n s = take n p"

fun strstr :: "string \<Rightarrow> string \<Rightarrow> bool" where
  "strstr [] pat = (pat = [])"
| "strstr (c # cs) pat = (take (length pat) (c # cs) = pat \<or> strstr cs pat)"

lemma strstr_iff: "strstr s pat \<longleftrightarrow> sublist pat s"
proof (induction s)
  case Nil
  show ?case by simp
next
  case (Cons c cs)
  have "take (length pat) (c # cs) = pat \<longleftrightarrow> prefix pat (c # cs)"
    by (metis append_eq_conv_conj prefix_def)
  then show ?case by (simp add: Cons.IH sublist_Cons_right)
qed

definition isspace :: "char \<Rightarrow> bool" where
  "isspace c \<longleftrightarrow> c \<in> {CHR '' '', CHR 0x09, CHR 0x0A, CHR 0x0B, CHR 0x0C, CHR 0x0D}"

definition isdigit :: "char \<Rightarrow> bool" where
  "isdigit c \<longleftrightarrow> (48::nat) \<le> of_char c \<and> of_char c \<le> (57::nat)"

definition digit_val :: "char \<Rightarrow> int" where
  "digit_val c = of_char c - 48"

definition tolower :: "char \<Rightarrow> char" where
  "tolower c = (let n = (of_char c :: nat) in
     if 65 \<le> n \<and> n \<le> 90 then char_of (n + 32) else c)"

definition hex_val :: "char \<Rightarrow> nat option" where
  "hex_val c = (let n = (of_char (tolower c) :: nat) in
     if 48 \<le> n \<and> n \<le> 57 then Some (n - 48)
     else if 97 \<le> n \<and> n \<le> 102 then Some (n - 87)
     else None)"

text \<open>One call of \<open>strtok_r\<close> with a single delimiter: skip delimiters, take a token.\<close>

definition strtok :: "char \<Rightarrow> string \<Rightarrow> (string \<times> string) option" where
  "strtok d s = (let r = dropWhile (\<lambda>c. c = d) s in
     if r = [] then None
     else Some (takeWhile (\<lambda>c. c \<noteq> d) r, drop 1 (dropWhile (\<lambda>c. c \<noteq> d) r)))"

lemma strtok_shorter: "strtok d s = Some (tok, rest) \<Longrightarrow> length rest < length s"
proof -
  assume "strtok d s = Some (tok, rest)"
  then have ne: "dropWhile (\<lambda>c. c = d) s \<noteq> []"
    and rest: "rest = drop 1 (dropWhile (\<lambda>c. c \<noteq> d) (dropWhile (\<lambda>c. c = d) s))"
    by (auto simp: strtok_def Let_def split: if_splits)
  have "hd (dropWhile (\<lambda>c. c = d) s) \<noteq> d" using ne hd_dropWhile by blast
  then have "length rest < length (dropWhile (\<lambda>c. c = d) s)"
    using ne rest length_dropWhile_le [of "\<lambda>c. c \<noteq> d" "tl (dropWhile (\<lambda>c. c = d) s)"]
    by (cases "dropWhile (\<lambda>c. c = d) s") (auto simp: less_Suc_eq_le)
  also have "\<dots> \<le> length s" by (rule length_dropWhile_le)
  finally show ?thesis .
qed

lemma strtok_Some:
  assumes "strtok d s = Some (tok, rest)"
  shows "d \<notin> set tok \<and> (dropWhile (\<lambda>c. c = d) s = tok @ d # rest \<or>
    dropWhile (\<lambda>c. c = d) s = tok \<and> rest = [])"
proof -
  define r where "r = dropWhile (\<lambda>c. c = d) s"
  from assms have tok: "tok = takeWhile (\<lambda>c. c \<noteq> d) r"
    and rest: "rest = drop 1 (dropWhile (\<lambda>c. c \<noteq> d) r)"
    by (auto simp: strtok_def Let_def r_def split: if_splits)
  have r: "r = tok @ dropWhile (\<lambda>c. c \<noteq> d) r" using tok by simp
  have "d \<notin> set tok" using tok by (auto dest: set_takeWhileD)
  moreover have "r = tok @ d # rest \<or> r = tok \<and> rest = []"
  proof (cases "dropWhile (\<lambda>c. c \<noteq> d) r")
    case Nil
    have "r = tok" using r unfolding Nil by simp
    moreover have "rest = []" using rest unfolding Nil by simp
    ultimately show ?thesis by simp
  next
    case (Cons c cs)
    then have "c = d" using hd_dropWhile [of "\<lambda>c. c \<noteq> d" r] by simp
    then show ?thesis using r rest Cons by simp
  qed
  ultimately show ?thesis by (simp add: r_def)
qed

text \<open>
  \<open>fgets(buf, n, fp)\<close> in a loop until end of file: each chunk is at most \<open>n - 1\<close> bytes and
  ends with its newline when it has one. The chunks are the byte buffers; the C string in
  each is \<open>cstr\<close> of it.
\<close>

definition fgets_len :: "nat \<Rightarrow> string \<Rightarrow> nat" where
  "fgets_len n s = min (n - 1) (Suc (length (takeWhile (\<lambda>c. c \<noteq> NL) s)))"

function fgets_all :: "nat \<Rightarrow> string \<Rightarrow> string list" where
  "fgets_all n s = (if s = [] \<or> n \<le> 1 then []
     else take (fgets_len n s) s # fgets_all n (drop (fgets_len n s) s))"
  by pat_completeness auto
termination
  by (relation "measure (\<lambda>(n, s). length s)") (auto simp: fgets_len_def)

declare fgets_all.simps [simp del]

lemma concat_fgets_all: "1 < n \<Longrightarrow> concat (fgets_all n s) = s"
proof (induction n s rule: fgets_all.induct)
  case (1 n s)
  then show ?case by (subst fgets_all.simps) auto
qed

lemma fgets_all_bound: "\<forall>l \<in> set (fgets_all n s). length l \<le> n - 1"
proof (induction n s rule: fgets_all.induct)
  case (1 n s)
  then show ?case by (subst fgets_all.simps) (auto simp: fgets_len_def)
qed

section \<open>Integers from and to text\<close>

definition LONG_MAX :: int where
  "LONG_MAX = 9223372036854775807"

fun digits_val :: "int \<Rightarrow> string \<Rightarrow> int" where
  "digits_val acc [] = acc"
| "digits_val acc (c # cs) = digits_val (10 * acc + digit_val c) cs"

definition split_sign :: "string \<Rightarrow> bool \<times> string" where
  "split_sign s = (case s of
     c # cs \<Rightarrow> if c = CHR ''-'' then (True, cs) else if c = CHR ''+'' then (False, cs) else (False, s)
   | [] \<Rightarrow> (False, []))"

text \<open>\<open>strtol(s, NULL, 10)\<close>: 0 when there are no digits, clamped to the range of \<open>long\<close>.\<close>

definition strtol :: "string \<Rightarrow> int" where
  "strtol s = (let (neg, r) = split_sign (dropWhile isspace s);
       v = digits_val 0 (takeWhile isdigit r)
     in max (- LONG_MAX - 1) (min LONG_MAX (if neg then - v else v)))"

text \<open>\<open>(int32_t)strtol(s, NULL, 10)\<close>, as the configuration parsers write it.\<close>

definition strtol_i32 :: "string \<Rightarrow> int" where
  "strtol_i32 s = to_i32 (strtol s)"

lemma strtol_i32_range [bounds]: "in_i32 (strtol_i32 s)"
  by (simp add: strtol_i32_def bounds)

text \<open>Decimal digits of a number, and \<open>%d\<close> / \<open>%lld\<close>.\<close>

function dec_pos :: "int \<Rightarrow> string" where
  "dec_pos x = (if x < 10 then [char_of (48 + nat x)]
     else dec_pos (x div 10) @ [char_of (48 + nat (x mod 10))])"
  by pat_completeness auto
termination
  by (relation "measure nat") auto

declare dec_pos.simps [simp del]

definition dec_int :: "int \<Rightarrow> string" where
  "dec_int x = (if x < 0 then CHR ''-'' # dec_pos (- x) else dec_pos x)"

lemma digit_char:
  assumes "0 \<le> k" "k < 10"
  shows "isdigit (char_of (48 + nat k))" "digit_val (char_of (48 + nat k)) = k"
proof -
  have *: "of_char (char_of (48 + nat k) :: char) = (48 + nat k :: nat)"
    using assms by (simp add: of_char_of)
  from * show "isdigit (char_of (48 + nat k))" by (simp add: isdigit_def) (use assms in auto)
  have "(of_char (char_of (48 + nat k) :: char) :: int) = of_nat (of_char (char_of (48 + nat k) :: char))"
    by (simp only: of_nat_of_char)
  with * show "digit_val (char_of (48 + nat k)) = k"
    using assms by (simp add: digit_val_def)
qed

lemma digits_val_append: "digits_val a (s @ t) = digits_val (digits_val a s) t"
  by (induction a s rule: digits_val.induct) simp_all

lemma dec_pos_digits: "0 \<le> n \<Longrightarrow> list_all isdigit (dec_pos n) \<and> dec_pos n \<noteq> [] \<and> digits_val 0 (dec_pos n) = n"
proof (induction n rule: dec_pos.induct)
  case (1 x)
  show ?case
  proof (cases "x < 10")
    case True
    with 1 show ?thesis by (simp add: dec_pos.simps [of x] digit_char)
  next
    case False
    with 1 have "list_all isdigit (dec_pos (x div 10)) \<and> digits_val 0 (dec_pos (x div 10)) = x div 10" by simp
    with False 1(2) show ?thesis
      by (simp add: dec_pos.simps [of x] digit_char digits_val_append)
  qed
qed

lemma strtol_dec_int:
  assumes "0 \<le> n" and "n \<le> LONG_MAX" and "t = [] \<or> \<not> isdigit (hd t)"
  shows "strtol (dec_int n @ t) = n"
proof -
  obtain c cs where d: "dec_pos n = c # cs" "isdigit c" "list_all isdigit (dec_pos n)"
    using dec_pos_digits [OF assms(1)] by (cases "dec_pos n") auto
  have c: "\<not> isspace c" "c \<noteq> CHR ''-''" "c \<noteq> CHR ''+''" using d(2) by (auto simp: isdigit_def isspace_def)
  have "takeWhile isdigit (dec_pos n @ t) = dec_pos n"
    using d(3) assms(3) by (cases t) (auto simp: list_all_iff takeWhile_append2)
  moreover have "split_sign (dropWhile isspace (dec_pos n @ t)) = (False, dec_pos n @ t)"
    using d(1) c by (simp add: split_sign_def)
  ultimately show ?thesis
    using assms dec_pos_digits [OF assms(1)] by (simp add: strtol_def dec_int_def LONG_MAX_def)
qed
lemma length_dec_pos: "0 \<le> n \<Longrightarrow> n < 10 ^ Suc k \<Longrightarrow> length (dec_pos n) \<le> Suc k"
proof (induction k arbitrary: n)
  case 0
  then show ?case by (simp add: dec_pos.simps [of n])
next
  case (Suc k)
  then have "length (dec_pos (n div 10)) \<le> Suc k" by (intro Suc.IH) (simp_all add: div_less_iff_less_mult)
  then show ?case by (simp add: dec_pos.simps [of n])
qed

lemma isdigit_is_cstr: "list_all isdigit s \<Longrightarrow> is_cstr s"
  by (auto simp: is_cstr_def list_all_iff isdigit_def NUL_def)

lemma dec_int_samples: "dec_int 0 = ''0''" "dec_int (- 40) = ''-40''" "dec_int 131072 = ''131072''"
  by code_simp+

lemma strtol_samples:
  "strtol ''4096  # comment'' = 4096" "strtol ''-1'' = - 1" "strtol ''x'' = 0"
  "strtol_i32 ''4294967297'' = 1" "strtol ''99999999999999999999'' = LONG_MAX"
  by code_simp+

text \<open>\<open>%0wd\<close> of a number that is not negative, \<open>%-ws\<close> and \<open>%ws\<close> of a string.\<close>

definition zpad :: "nat \<Rightarrow> int \<Rightarrow> string" where
  "zpad w n = (let s = dec_int n in replicate (w - length s) (CHR ''0'') @ s)"

definition rpad :: "nat \<Rightarrow> string \<Rightarrow> string" where
  "rpad w s = s @ replicate (w - length s) (CHR '' '')"

definition lpad :: "nat \<Rightarrow> string \<Rightarrow> string" where
  "lpad w s = replicate (w - length s) (CHR '' '') @ s"

definition hex_digit :: "nat \<Rightarrow> char" where
  "hex_digit n = (if n < 10 then char_of (48 + n) else char_of (87 + n))"

text \<open>\<open>%02x\<close> of one byte.\<close>

definition hex2 :: "8 word \<Rightarrow> string" where
  "hex2 b = [hex_digit (unat b div 16), hex_digit (unat b mod 16)]"

end
