(* ===== verification/Ring.thy ===== *)
theory Ring
  imports Clib
begin

text \<open>
  The token ring of src/src/worker.h and worker.c (\<open>token_ring_t\<close>, \<open>ring_init\<close>,
  \<open>ring_is_full\<close>, \<open>ring_is_empty\<close>, \<open>ring_write\<close>, \<open>ring_read\<close>) and the batch drain of
  src/src/server.c (\<open>drain_stream_ring\<close>). The interface of a bounded queue is the locale
  \<open>bounded_fifo\<close>; the ring is an instance of it with 255 places.
\<close>

section \<open>The interface: a bounded first-in first-out queue\<close>

datatype 'a fifo_op = Put 'a | Get

text \<open>
  A run of operations on a queue: the values accepted, the values taken out, and the
  queue that is left. A \<open>Put\<close> on a full queue and a \<open>Get\<close> on an empty one change
  nothing.
\<close>

fun fifo_run :: "('a \<Rightarrow> 'q \<Rightarrow> 'q option) \<Rightarrow> ('q \<Rightarrow> ('a \<times> 'q) option) \<Rightarrow>
    'a fifo_op list \<Rightarrow> 'q \<Rightarrow> 'a list \<times> 'a list \<times> 'q" where
  "fifo_run enq deq [] q = ([], [], q)"
| "fifo_run enq deq (Put x # ops) q = (case enq x q of
     None \<Rightarrow> fifo_run enq deq ops q
   | Some q' \<Rightarrow> let (ins, outs, r) = fifo_run enq deq ops q' in (x # ins, outs, r))"
| "fifo_run enq deq (Get # ops) q = (case deq q of
     None \<Rightarrow> fifo_run enq deq ops q
   | Some (x, q') \<Rightarrow> let (ins, outs, r) = fifo_run enq deq ops q' in (ins, x # outs, r))"

text \<open>The specification: a list of at most \<open>cap\<close> values, each stored in a normal form.\<close>

definition list_enq :: "nat \<Rightarrow> ('a \<Rightarrow> 'a) \<Rightarrow> 'a \<Rightarrow> 'a list \<Rightarrow> 'a list option" where
  "list_enq cap nf x xs = (if length xs < cap then Some (xs @ [nf x]) else None)"

fun list_deq :: "'a list \<Rightarrow> ('a \<times> 'a list) option" where
  "list_deq [] = None"
| "list_deq (x # xs) = Some (x, xs)"

lemma list_fifo_in_order:
  "fifo_run (list_enq cap nf) list_deq ops xs = (ins, outs, ys) \<Longrightarrow> xs @ map nf ins = outs @ ys"
proof (induction ops arbitrary: xs ins outs)
  case (Cons op ops)
  show ?case
  proof (cases op)
    case (Put x)
    then show ?thesis
      using Cons.prems Cons.IH [of xs] Cons.IH [of "xs @ [nf x]"]
      by (auto simp: list_enq_def split: if_splits prod.splits)
  next
    case Get
    then show ?thesis
      using Cons.prems Cons.IH [of xs] Cons.IH [of "tl xs"]
      by (cases xs) (auto split: prod.splits)
  qed
qed simp

locale bounded_fifo =
  fixes enq :: "'a \<Rightarrow> 'q \<Rightarrow> 'q option"
    and deq :: "'q \<Rightarrow> ('a \<times> 'q) option"
    and lst :: "'q \<Rightarrow> 'a list"
    and ok :: "'q \<Rightarrow> bool"
    and cap :: nat
    and nf :: "'a \<Rightarrow> 'a"
  assumes enq_none: "ok q \<Longrightarrow> enq x q = None \<Longrightarrow> cap \<le> length (lst q)"
    and enq_some: "ok q \<Longrightarrow> enq x q = Some q' \<Longrightarrow>
      length (lst q) < cap \<and> lst q' = lst q @ [nf x] \<and> ok q'"
    and deq_none: "ok q \<Longrightarrow> deq q = None \<Longrightarrow> lst q = []"
    and deq_some: "ok q \<Longrightarrow> deq q = Some (x, q') \<Longrightarrow> lst q = x # lst q' \<and> ok q'"
begin

lemma refines_list:
  assumes "ok q" and "fifo_run enq deq ops q = (ins, outs, r)"
  shows "ok r \<and> fifo_run (list_enq cap nf) list_deq ops (lst q) = (ins, outs, lst r)"
  using assms
proof (induction ops arbitrary: q ins outs)
  case Nil
  then show ?case by simp
next
  case (Cons op ops)
  show ?case
  proof (cases op)
    case (Put x)
    show ?thesis
    proof (cases "enq x q")
      case None
      then show ?thesis
        using Cons.IH [OF Cons.prems(1)] Cons.prems Put enq_none [OF Cons.prems(1) None]
        by (simp add: list_enq_def)
    next
      case (Some q')
      then show ?thesis
        using Cons.IH [of q'] Cons.prems Put enq_some [OF Cons.prems(1) Some]
        by (auto simp: list_enq_def split: prod.splits)
    qed
  next
    case Get
    show ?thesis
    proof (cases "deq q")
      case None
      then show ?thesis
        using Cons.IH [OF Cons.prems(1)] Cons.prems Get deq_none [OF Cons.prems(1) None] by simp
    next
      case (Some y)
      obtain x q' where y: "y = (x, q')" by (cases y)
      then show ?thesis
        using Cons.IH [of q'] Cons.prems Get Some deq_some [of q x q']
        by (auto split: prod.splits)
    qed
  qed
qed

lemma in_order:
  assumes "ok q" and "fifo_run enq deq ops q = (ins, outs, r)"
  shows "lst q @ map nf ins = outs @ lst r"
  using refines_list [OF assms] by (blast intro: list_fifo_in_order)

lemma within_capacity:
  assumes "ok q" and "length (lst q) \<le> cap" and "fifo_run enq deq ops q = (ins, outs, r)"
  shows "length (lst r) \<le> cap"
  using assms
proof (induction ops arbitrary: q ins outs)
  case (Cons op ops)
  show ?case
  proof (cases op)
    case (Put x)
    with Cons show ?thesis
      by (cases "enq x q") (fastforce dest: enq_some split: prod.splits)+
  next
    case Get
    with Cons show ?thesis
      by (cases "deq q") (fastforce dest: deq_some split: prod.splits)+
  qed
qed simp

end

section \<open>The ring\<close>

abbreviation TOKEN_RING_SIZE :: nat where
  "TOKEN_RING_SIZE \<equiv> 256"

abbreviation TOKEN_TEXT_MAX :: nat where
  "TOKEN_TEXT_MAX \<equiv> 128"

record token_ring =
  r_text :: "string list"
  r_head :: nat
  r_tail :: nat
  r_done :: bool

definition ring_init :: token_ring where
  "ring_init = \<lparr>r_text = replicate TOKEN_RING_SIZE [], r_head = 0, r_tail = 0, r_done = False\<rparr>"

definition ring_is_full :: "token_ring \<Rightarrow> bool" where
  "ring_is_full r \<longleftrightarrow> (r_head r + 1) mod TOKEN_RING_SIZE = r_tail r"

definition ring_is_empty :: "token_ring \<Rightarrow> bool" where
  "ring_is_empty r \<longleftrightarrow> r_head r = r_tail r"

text \<open>The store of \<open>ring_write\<close>: copy at most 127 bytes into the head slot, advance.\<close>

definition ring_put :: "string \<Rightarrow> token_ring \<Rightarrow> token_ring" where
  "ring_put text r =
     (let len = (if TOKEN_TEXT_MAX \<le> length text then TOKEN_TEXT_MAX - 1 else length text)
      in r\<lparr>r_text := (r_text r)[r_head r := take len text],
           r_head := (r_head r + 1) mod TOKEN_RING_SIZE\<rparr>)"

definition ring_enq :: "string \<Rightarrow> token_ring \<Rightarrow> token_ring option" where
  "ring_enq text r = (if ring_is_full r then None else Some (ring_put text r))"

definition ring_get :: "token_ring \<Rightarrow> (string \<times> token_ring) option" where
  "ring_get r = (if ring_is_empty r then None
     else Some (r_text r ! r_tail r, r\<lparr>r_tail := (r_tail r + 1) mod TOKEN_RING_SIZE\<rparr>))"

text \<open>\<open>ring_read\<close>: 1 and the token (cut to the caller's buffer), or 0 on an empty ring.\<close>

definition ring_read :: "token_ring \<Rightarrow> nat \<Rightarrow> int \<times> string \<times> token_ring" where
  "ring_read r out_len = (case ring_get r of
     None \<Rightarrow> (0, [], r)
   | Some (t, r') \<Rightarrow> (1, snprintf_s out_len t, r'))"

text \<open>
  One batch of \<open>drain_stream_ring\<close>: under a single lock, up to \<open>k\<close> tokens (the code
  takes 32) are copied out.
\<close>

fun drain_batch :: "nat \<Rightarrow> token_ring \<Rightarrow> string list \<times> token_ring" where
  "drain_batch 0 r = ([], r)"
| "drain_batch (Suc k) r = (case ring_get r of
     None \<Rightarrow> ([], r)
   | Some (t, r') \<Rightarrow> let (ts, r'') = drain_batch k r'
                      in (take (TOKEN_TEXT_MAX - 1) t # ts, r''))"

text \<open>
  The \<open>do ... while (batch_count == 32)\<close> loop. Nothing in its guard bounds the number of
  rounds, so the loop is a partial function; \<open>drain_ring_total\<close> shows that it returns.
\<close>

partial_function (option) drain_ring :: "token_ring \<Rightarrow> (string list \<times> token_ring) option" where
  "drain_ring r = (case drain_batch 32 r of (ts, r') \<Rightarrow>
     if length ts = 32
     then Option.bind (drain_ring r') (\<lambda>(us, r''). Some (ts @ us, r''))
     else Some (ts, r'))"

text \<open>
  The waiting loop of \<open>ring_write\<close>. Each time the writer wakes from \<open>pthread_cond_timedwait\<close>
  it sees what the other thread did meanwhile: how many tokens it took, and the values of
  the cancel and shutdown flags. The list holds these observations; \<open>None\<close> says that the
  writer still waits when they are used up.
\<close>

record wait_obs =
  wo_taken :: nat
  wo_cancel :: bool
  wo_shutdown :: bool

text \<open>The result is the return code, the tokens taken meanwhile, and the ring.\<close>

fun ring_write :: "wait_obs list \<Rightarrow> token_ring \<Rightarrow> string \<Rightarrow> bool \<Rightarrow> bool \<Rightarrow>
    (int \<times> string list \<times> token_ring) option" where
  "ring_write [] r text cancel shut =
     (if ring_is_full r \<and> \<not> cancel \<and> \<not> shut then None
      else if cancel \<or> shut then Some (- 1, [], r) else Some (0, [], ring_put text r))"
| "ring_write (w # ws) r text cancel shut =
     (if ring_is_full r \<and> \<not> cancel \<and> \<not> shut
      then let (ts, r1) = drain_batch (wo_taken w) r in
        map_option (\<lambda>(rc, us, r2). (rc, ts @ us, r2))
          (ring_write ws r1 text (wo_cancel w) (wo_shutdown w))
      else if cancel \<or> shut then Some (- 1, [], r) else Some (0, [], ring_put text r))"

section \<open>Invariant and abstraction\<close>

definition ring_inv :: "token_ring \<Rightarrow> bool" where
  "ring_inv r \<longleftrightarrow> length (r_text r) = TOKEN_RING_SIZE \<and> r_head r < TOKEN_RING_SIZE \<and>
     r_tail r < TOKEN_RING_SIZE \<and> (\<forall>t \<in> set (r_text r). length t < TOKEN_TEXT_MAX)"

definition ring_count :: "token_ring \<Rightarrow> nat" where
  "ring_count r = (r_head r + TOKEN_RING_SIZE - r_tail r) mod TOKEN_RING_SIZE"

definition ring_list :: "token_ring \<Rightarrow> string list" where
  "ring_list r = map (\<lambda>i. r_text r ! ((r_tail r + i) mod TOKEN_RING_SIZE)) [0..<ring_count r]"

lemma length_ring_list [simp]: "length (ring_list r) = ring_count r"
  by (simp add: ring_list_def)


lemma ring_count_eq:
  "ring_inv r \<Longrightarrow> ring_count r =
     (if r_tail r \<le> r_head r then r_head r - r_tail r else r_head r + 256 - r_tail r)"
  using mod_once [of "r_head r + 256 - r_tail r" 256]
  by (auto simp: ring_inv_def ring_count_def)

lemma ring_count_zero: "ring_inv r \<Longrightarrow> ring_count r = 0 \<longleftrightarrow> ring_is_empty r"
proof -
  assume "ring_inv r"
  then have "r_head r < 256" "r_tail r < 256" by (simp_all add: ring_inv_def)
  then show ?thesis
    by (cases "r_tail r \<le> r_head r") (auto simp: ring_count_def ring_is_empty_def mod_if)
qed

lemma ring_count_full: "ring_inv r \<Longrightarrow> ring_count r = 255 \<longleftrightarrow> ring_is_full r"
proof -
  assume "ring_inv r"
  then have "r_head r < 256" "r_tail r < 256" by (simp_all add: ring_inv_def)
  then show ?thesis
    by (cases "r_tail r \<le> r_head r") (auto simp: ring_count_def ring_is_full_def mod_if)
qed

lemma ring_count_bound: "ring_count r < 256"
  by (simp add: ring_count_def)

lemma ring_count_put:
  assumes "ring_inv r" and "\<not> ring_is_full r"
  shows "ring_count (ring_put t r) = Suc (ring_count r)"
proof -
  from assms(1) have "r_head r < 256" "r_tail r < 256" by (simp_all add: ring_inv_def)
  with assms(2) show ?thesis
    by (cases "r_tail r \<le> r_head r")
       (auto simp: ring_count_def ring_is_full_def ring_put_def Let_def mod_if)
qed

lemma ring_inv_init: "ring_inv ring_init"
  by (simp add: ring_inv_def ring_init_def)

lemma ring_list_init: "ring_list ring_init = []"
  by (simp add: ring_list_def ring_count_def ring_init_def)

lemma ring_init_not_full: "\<not> ring_is_full ring_init"
  by (simp add: ring_is_full_def ring_init_def)

lemma ring_inv_put: "ring_inv r \<Longrightarrow> ring_inv (ring_put t r)"
  by (auto simp: ring_inv_def ring_put_def Let_def dest!: set_update_subset_insert [THEN subsetD])

lemma ring_inv_done [simp]: "ring_inv (r\<lparr>r_done := b\<rparr>) = ring_inv r"
  by (simp add: ring_inv_def)

lemma ring_list_done [simp]: "ring_list (r\<lparr>r_done := b\<rparr>) = ring_list r"
  by (simp add: ring_list_def ring_count_def)

text \<open>The slots between tail and head are not the head slot, so a store leaves them alone.\<close>

lemma ring_list_put:
  assumes inv: "ring_inv r" and nf: "\<not> ring_is_full r"
  shows "ring_list (ring_put t r) = ring_list r @ [take (TOKEN_TEXT_MAX - 1) t]"
proof -
  from inv have b: "r_head r < 256" "r_tail r < 256" "length (r_text r) = 256"
    by (simp_all add: ring_inv_def)
  have fields: "r_text (ring_put t r) = (r_text r)[r_head r := take 127 t]"
      "r_tail (ring_put t r) = r_tail r"
    by (simp_all add: ring_put_def Let_def)
  have old: "r_head r \<noteq> (r_tail r + i) mod 256" if "i < ring_count r" for i
    using that b mod_once [of "r_tail r + i" 256] ring_count_eq [OF inv]
    by (auto split: if_splits)
  have new: "(r_tail r + ring_count r) mod 256 = r_head r"
    using b ring_count_eq [OF inv] mod_once [of "r_tail r + ring_count r" 256]
    by (auto split: if_splits)
  show ?thesis
    using old new b
    by (simp add: ring_list_def fields ring_count_put [OF inv nf])
qed

lemma ring_get_None: "ring_inv r \<Longrightarrow> ring_get r = None \<longleftrightarrow> ring_list r = []"
  using ring_count_zero [of r] by (auto simp: ring_get_def ring_list_def)

lemma ring_get_Some:
  assumes inv: "ring_inv r" and get: "ring_get r = Some (t, r')"
  shows "ring_list r = t # ring_list r' \<and> ring_inv r' \<and> r_done r' = r_done r"
proof -
  from get have ne: "\<not> ring_is_empty r" and t: "t = r_text r ! r_tail r"
    and r': "r' = r\<lparr>r_tail := (r_tail r + 1) mod 256\<rparr>"
    by (auto simp: ring_get_def split: if_splits)
  from inv have b: "r_head r < 256" "r_tail r < 256" by (simp_all add: ring_inv_def)
  have cnt: "ring_count r = Suc (ring_count r')"
    using ne b r' by (cases "r_tail r \<le> r_head r") (auto simp: ring_count_def ring_is_empty_def mod_if)
  have "[0..<ring_count r] = 0 # map Suc [0..<ring_count r']"
    unfolding cnt by (simp add: upt_conv_Cons map_Suc_upt del: upt_Suc)
  then have "ring_list r = r_text r ! (r_tail r mod 256) #
      map (\<lambda>i. r_text r ! ((r_tail r + Suc i) mod 256)) [0..<ring_count r']"
    by (simp add: ring_list_def)
  also have "map (\<lambda>i. r_text r ! ((r_tail r + Suc i) mod 256)) [0..<ring_count r'] = ring_list r'"
    by (simp add: ring_list_def r' mod_simps)
  finally show ?thesis using inv b t r' by (simp add: ring_inv_def)
qed

interpretation tok: bounded_fifo ring_enq ring_get ring_list ring_inv 255 "take (TOKEN_TEXT_MAX - 1)"
proof unfold_locales
  fix q x assume "ring_inv q" and "ring_enq x q = None"
  then show "255 \<le> length (ring_list q)"
    using ring_count_full [of q] by (simp add: ring_enq_def split: if_splits)
next
  fix q x q' assume inv: "ring_inv q" and "ring_enq x q = Some q'"
  then have nf: "\<not> ring_is_full q" and q': "q' = ring_put x q"
    by (auto simp: ring_enq_def split: if_splits)
  then have "ring_count q \<noteq> 255" using ring_count_full [OF inv] by simp
  then show "length (ring_list q) < 255 \<and>
      ring_list q' = ring_list q @ [take (TOKEN_TEXT_MAX - 1) x] \<and> ring_inv q'"
    using ring_count_bound [of q] ring_list_put [OF inv nf] ring_inv_put [OF inv] q' by simp
qed (auto dest: ring_get_Some simp: ring_get_None)

section \<open>Draining and writing\<close>

lemma ring_list_short: "ring_inv r \<Longrightarrow> t \<in> set (ring_list r) \<Longrightarrow> length t < TOKEN_TEXT_MAX"
  by (auto simp: ring_list_def ring_inv_def)

lemma drain_batch_spec:
  "ring_inv r \<Longrightarrow> drain_batch k r = (ts, r') \<Longrightarrow>
   ts = take k (ring_list r) \<and> ring_list r' = drop k (ring_list r) \<and> ring_inv r' \<and>
   r_done r' = r_done r"
proof (induction k arbitrary: r ts)
  case 0
  then show ?case by simp
next
  case (Suc k)
  show ?case
  proof (cases "ring_get r")
    case None
    with Suc.prems show ?thesis by (simp add: ring_get_None)
  next
    case (Some y)
    obtain t r1 where y: "y = (t, r1)" by (cases y)
    have g: "ring_list r = t # ring_list r1 \<and> ring_inv r1 \<and> r_done r1 = r_done r"
      using ring_get_Some [OF Suc.prems(1)] Some y by simp
    then have "length t < TOKEN_TEXT_MAX" using ring_list_short [OF Suc.prems(1)] by simp
    with g show ?thesis
      using Suc.prems Suc.IH [of r1] Some y by (auto split: prod.splits)
  qed
qed

lemma drain_ring_total:
  "ring_inv r \<Longrightarrow> \<exists>r'. drain_ring r = Some (ring_list r, r') \<and> ring_list r' = [] \<and>
     ring_inv r' \<and> r_done r' = r_done r"
proof (induction "ring_count r" arbitrary: r rule: less_induct)
  case less
  obtain ts r1 where b: "drain_batch 32 r = (ts, r1)" by fastforce
  note s = drain_batch_spec [OF less.prems b]
  show ?case
  proof (cases "length ts = 32")
    case True
    with s have "ring_count r1 < ring_count r"
      by (metis length_drop length_ring_list diff_less length_take min.absorb_iff1
          min.cobounded1 not_gr_zero zero_less_numeral less_le_trans)
    then obtain r' where "drain_ring r1 = Some (ring_list r1, r')" "ring_list r' = []" "ring_inv r'"
        "r_done r' = r_done r1"
      using less.hyps [of r1] s by blast
    with b s True show ?thesis by (subst drain_ring.simps) auto
  next
    case False
    with s have "length (ring_list r) < 32" by (simp add: min_def split: if_splits)
    with b s False show ?thesis by (subst drain_ring.simps) auto
  qed
qed

lemma ring_write_not_full:
  "\<not> ring_is_full r \<Longrightarrow> ring_write ws r t c s =
     (if c \<or> s then Some (- 1, [], r) else Some (0, [], ring_put t r))"
  by (cases ws) simp_all

lemma ring_write_flagged: "c \<or> s \<Longrightarrow> ring_write ws r t c s = Some (- 1, [], r)"
  by (cases ws) auto

lemma ring_write_order:
  "ring_inv r \<Longrightarrow> ring_write ws r t c s = Some (rc, ts, r') \<Longrightarrow>
   ring_inv r' \<and> (rc = 0 \<and> ts @ ring_list r' = ring_list r @ [take (TOKEN_TEXT_MAX - 1) t] \<or>
                 rc = - 1 \<and> ts @ ring_list r' = ring_list r)"
proof (induction ws r t c s arbitrary: ts rule: ring_write.induct)
  case (1 r t c s)
  then show ?case by (auto simp: ring_inv_put ring_list_put split: if_splits)
next
  case (2 w ws r t c s)
  show ?case
  proof (cases "ring_is_full r \<and> \<not> c \<and> \<not> s")
    case True
    obtain us r1 where b: "drain_batch (wo_taken w) r = (us, r1)" by fastforce
    note d = drain_batch_spec [OF "2.prems"(1) b]
    obtain vs where w: "ring_write ws r1 t (wo_cancel w) (wo_shutdown w) = Some (rc, vs, r')"
      and ts: "ts = us @ vs"
      using "2.prems"(2) True b by auto
    have "ring_inv r1" using d by simp
    from "2.IH" [OF True b [symmetric] refl this w] d ts show ?thesis
      by (metis append.assoc append_take_drop_id)
  next
    case False
    with "2.prems" show ?thesis
      by (auto simp: ring_inv_put ring_list_put split: if_splits)
  qed
qed

text \<open>
  C27. Writing a token never loses, duplicates or reorders tokens. The tokens the reader took
  while the writer waited, followed by the ring afterwards, are the ring before, followed
  by the new token (cut to 127 bytes) when \<open>ring_write\<close> returns 0; when it returns -1 the
  token was not stored.
\<close>

theorem ring_write_preserves_order:
  "ring_inv r \<Longrightarrow> ring_write ws r t c s = Some (rc, ts, r') \<Longrightarrow>
   ring_inv r' \<and> (rc = 0 \<and> ts @ ring_list r' = ring_list r @ [take (TOKEN_TEXT_MAX - 1) t] \<or>
                 rc = - 1 \<and> ts @ ring_list r' = ring_list r)"
  by (rule ring_write_order)

theorem ring_write_preserves_order_witness:
  "\<exists>r'. ring_write [] ring_init ''Hello'' False False = Some (0, [], r') \<and> ring_list r' = [''Hello'']"
proof -
  have "ring_write [] ring_init ''Hello'' False False = Some (0, [], ring_put ''Hello'' ring_init)"
    by (simp add: ring_init_not_full)
  with ring_write_preserves_order [OF ring_inv_init this] show ?thesis
    by (auto simp: ring_list_init)
qed

text \<open>
  C28. The wait in \<open>ring_write\<close> ends: as soon as one wake-up finds that the reader took a
  token, or that the job was cancelled or the daemon is shutting down, the call returns.
\<close>

theorem ring_write_returns:
  "ring_inv r \<Longrightarrow> w \<in> set ws \<Longrightarrow> 0 < wo_taken w \<or> wo_cancel w \<or> wo_shutdown w \<Longrightarrow>
   ring_write ws r t c s \<noteq> None"
proof (induction ws r t c s rule: ring_write.induct)
  case (2 v ws r t c s)
  show ?case
  proof (cases "ring_is_full r \<and> \<not> c \<and> \<not> s")
    case True
    obtain ts r1 where b: "drain_batch (wo_taken v) r = (ts, r1)" by fastforce
    note d = drain_batch_spec [OF "2.prems"(1) b]
    show ?thesis
    proof (cases "v = w")
      case False
      with "2.IH" [OF True b [symmetric] refl] "2.prems" d True b show ?thesis by simp
    next
      case vw: True
      show ?thesis
      proof (cases "wo_cancel w \<or> wo_shutdown w")
        case True
        with vw b show ?thesis by (auto simp: ring_write_flagged)
      next
        case False
        then have "0 < wo_taken w" using "2.prems" by simp
        moreover have "ring_count r = 255"
          using True ring_count_full [OF "2.prems"(1)] by simp
        moreover have "ring_count r1 = ring_count r - wo_taken w"
          using d vw by (metis length_drop length_ring_list)
        ultimately have "ring_count r1 \<noteq> 255" by arith
        then have "\<not> ring_is_full r1"
          using ring_count_full [of r1] d by blast
        with True b False vw show ?thesis by (auto simp: ring_write_not_full)
      qed
    qed
  qed auto
qed simp

theorem ring_write_returns_witness:
  "ring_write [\<lparr>wo_taken = 1, wo_cancel = False, wo_shutdown = False\<rparr>]
     (ring_init\<lparr>r_head := 255\<rparr>) ''x'' False False \<noteq> None"
  by (rule ring_write_returns [where w = "\<lparr>wo_taken = 1, wo_cancel = False, wo_shutdown = False\<rparr>"])
     (simp_all add: ring_inv_def ring_init_def)

text \<open>
  C3. The ring refines a bounded first-in first-out queue of 255 tokens: for every
  interleaving of stores by the worker and reads by the event loop, the values accepted
  and returned and the contents left are those of the list specification, nothing is
  lost or duplicated, and never more than 255 tokens are held.
\<close>

theorem ring_refines_fifo:
  "ring_inv r \<Longrightarrow> fifo_run ring_enq ring_get ops r = (ins, outs, r') \<Longrightarrow>
   fifo_run (list_enq 255 (take (TOKEN_TEXT_MAX - 1))) list_deq ops (ring_list r) =
     (ins, outs, ring_list r') \<and>
   ring_list r @ map (take (TOKEN_TEXT_MAX - 1)) ins = outs @ ring_list r' \<and>
   length (ring_list r') \<le> 255"
  using tok.refines_list [of r ops ins outs r'] tok.in_order [of r ops ins outs r']
    tok.within_capacity [of r ops ins outs r'] ring_count_bound [of r]
  by simp

theorem ring_refines_fifo_witness:
  "\<exists>r'. fifo_run ring_enq ring_get [Put ''a'', Put ''b'', Get, Get, Get] ring_init =
     ([''a'', ''b''], [''a'', ''b''], r') \<and> ring_list r' = []"
proof -
  obtain ins outs r' where run:
    "fifo_run ring_enq ring_get [Put ''a'', Put ''b'', Get, Get, Get] ring_init = (ins, outs, r')"
    by (metis prod_cases3)
  from ring_refines_fifo [OF ring_inv_init run] have "ins = [''a'', ''b'']" "outs = [''a'', ''b'']"
      "ring_list r' = []"
    by (auto simp: list_enq_def ring_list_init)
  with run show ?thesis by blast
qed



end
