(* ===== verification/Cfloat.thy ===== *)
theory Cfloat
  imports Clib
begin

text \<open>
  IEEE floating point as the program uses it: values are rationals with two infinities and
  NaN; every arithmetic result and every conversion is rounded to nearest, ties to even, in
  binary32 (\<open>float\<close>) or binary64 (\<open>double\<close>). Also \<open>strtof\<close>, the narrowing of a
  double to \<open>int32_t\<close> (undefined out of range, hence an option) and \<open>%.<k>f\<close>.
\<close>

section \<open>Values and comparisons\<close>

datatype fl = FNaN | FInf bool | Fin rat  \<comment> \<open>\<open>FInf True\<close> is minus infinity\<close>

definition isnan :: "fl \<Rightarrow> bool" where
  "isnan x \<longleftrightarrow> x = FNaN"

definition isinf :: "fl \<Rightarrow> bool" where
  "isinf x \<longleftrightarrow> x = FInf True \<or> x = FInf False"

fun fl_lt :: "fl \<Rightarrow> fl \<Rightarrow> bool" where
  "fl_lt FNaN _ = False"
| "fl_lt _ FNaN = False"
| "fl_lt (Fin a) (Fin b) = (a < b)"
| "fl_lt (FInf n) (Fin _) = n"
| "fl_lt (Fin _) (FInf n) = (\<not> n)"
| "fl_lt (FInf n) (FInf m) = (n \<and> \<not> m)"

definition fl_le :: "fl \<Rightarrow> fl \<Rightarrow> bool" where
  "fl_le x y \<longleftrightarrow> fl_lt x y \<or> (x = y \<and> x \<noteq> FNaN)"

lemma fl_le_Fin [c_simps]: "fl_le (Fin a) (Fin b) = (a \<le> b)"
  by (auto simp: fl_le_def)

lemma isnan_simps [c_simps]: "isnan FNaN" "\<not> isnan (Fin a)" "\<not> isnan (FInf n)"
  by (simp_all add: isnan_def)

lemma isinf_simps [c_simps]: "\<not> isinf FNaN" "\<not> isinf (Fin a)" "isinf (FInf n)"
  by (cases n) (simp_all add: isinf_def)

section \<open>Rounding\<close>

function ilog2 :: "int \<Rightarrow> int" where
  "ilog2 n = (if n \<le> 1 then 0 else 1 + ilog2 (n div 2))"
  by pat_completeness auto
termination
  by (relation "measure nat") auto

declare ilog2.simps [simp del]

text \<open>The floor of the binary logarithm of a positive rational.\<close>

definition flog2 :: "rat \<Rightarrow> int" where
  "flog2 x = (let (a, b) = quotient_of x in
     if b \<le> a then ilog2 (a div b)
     else - (1 + ilog2 ((b - 1) div a)))"

definition pow2 :: "int \<Rightarrow> rat" where
  "pow2 e = (if 0 \<le> e then 2 ^ nat e else 1 / 2 ^ nat (- e))"

definition rnd_half_even :: "rat \<Rightarrow> int" where
  "rnd_half_even q = (let n = \<lfloor>q\<rfloor>; f = q - of_int n in
     if f < 1 / 2 then n else if 1 / 2 < f then n + 1 else if even n then n else n + 1)"

definition fl_round :: "int \<Rightarrow> int \<Rightarrow> int \<Rightarrow> rat \<Rightarrow> fl" where
  "fl_round p emin emax x =
     (if x = 0 then Fin 0
      else let ulp = pow2 (max (flog2 \<bar>x\<bar>) emin - (p - 1));
               r = of_int (rnd_half_even (\<bar>x\<bar> / ulp)) * ulp
           in if pow2 (emax + 1) \<le> r then FInf (x < 0) else Fin (if x < 0 then - r else r))"

definition f32 :: "rat \<Rightarrow> fl" where
  "f32 = fl_round 24 (- 126) 127"

definition f64 :: "rat \<Rightarrow> fl" where
  "f64 = fl_round 53 (- 1022) 1023"

text \<open>The conversion \<open>(float)d\<close>.\<close>

fun narrow :: "fl \<Rightarrow> fl" where
  "narrow (Fin x) = f32 x"
| "narrow x = x"

text \<open>
  The conversion \<open>(int32_t)d\<close> truncates towards zero; it is undefined behaviour when the
  truncated value does not fit or the operand is not finite.
\<close>

definition trunc_rat :: "rat \<Rightarrow> int" where
  "trunc_rat x = (if x < 0 then - \<lfloor>- x\<rfloor> else \<lfloor>x\<rfloor>)"

fun d2i32 :: "fl \<Rightarrow> int option" where
  "d2i32 (Fin x) = (if in_i32 (trunc_rat x) then Some (trunc_rat x) else None)"
| "d2i32 _ = None"

lemma d2i32_range [bounds]: "d2i32 x = Some v \<Longrightarrow> in_i32 v"
  by (cases x) (auto split: if_splits)

lemma rnd_half_even_nonneg: "0 \<le> q \<Longrightarrow> 0 \<le> rnd_half_even q"
  by (simp add: rnd_half_even_def Let_def)

lemma rnd_half_even_of_int [c_simps]: "rnd_half_even (of_int n) = n"
  by (simp add: rnd_half_even_def Let_def)

lemma rnd_half_even_mono:
  assumes "q \<le> r"
  shows "rnd_half_even q \<le> rnd_half_even r"
proof (cases "\<lfloor>q\<rfloor> = \<lfloor>r\<rfloor>")
  case True
  then show ?thesis using assms by (auto simp: rnd_half_even_def Let_def)
next
  case False
  then have "\<lfloor>q\<rfloor> + 1 \<le> \<lfloor>r\<rfloor>" using floor_mono [OF assms] by linarith
  then show ?thesis by (auto simp: rnd_half_even_def Let_def)
qed

lemma pow2_pos [simp]: "0 < pow2 e"
  by (simp add: pow2_def)

lemma fl_round_zero [c_simps]: "fl_round p emin emax 0 = Fin 0"
  by (simp add: fl_round_def)

lemma fl_round_not_nan [c_simps]: "fl_round p emin emax x \<noteq> FNaN"
  by (simp add: fl_round_def Let_def)

lemma fl_round_nonneg:
  "0 \<le> x \<Longrightarrow> fl_round p emin emax x = FInf False \<or> (\<exists>r\<ge>0. fl_round p emin emax x = Fin r)"
  by (auto simp: fl_round_def Let_def less_imp_le intro!: mult_nonneg_nonneg rnd_half_even_nonneg
      divide_nonneg_nonneg)

section \<open>Rounding is monotonic, and exact on small integers\<close>

lemma pow2_0 [simp]: "pow2 0 = 1"
  by (simp add: pow2_def)

lemma pow2_Suc: "pow2 (e + 1) = 2 * pow2 e"
proof (cases "0 \<le> e")
  case True
  then show ?thesis by (simp add: pow2_def nat_add_distrib)
next
  case False
  then have "nat (- e) = Suc (nat (- (e + 1)))" by simp
  then show ?thesis using False by (cases "e + 1 = 0") (auto simp: pow2_def)
qed

lemma pow2_add_nat: "pow2 (e + int n) = 2 ^ n * pow2 e"
proof (induction n)
  case (Suc n)
  have "pow2 (e + int (Suc n)) = pow2 (e + int n + 1)" by (simp add: algebra_simps)
  then show ?case using Suc by (simp add: pow2_Suc)
qed simp

lemma pow2_mono: "d \<le> e \<Longrightarrow> pow2 d \<le> pow2 e"
  using pow2_add_nat [of d "nat (e - d)"] mult_right_mono [of 1 "2 ^ nat (e - d)" "pow2 d"]
  by (simp add: less_imp_le)

lemma pow2_minus: "pow2 (- e) * pow2 e = 1"
  by (cases "0 \<le> e") (simp_all add: pow2_def)

lemma ilog2_spec: "1 \<le> n \<Longrightarrow> 0 \<le> ilog2 n \<and> pow2 (ilog2 n) \<le> of_int n \<and> of_int (n + 1) \<le> pow2 (ilog2 n + 1)"
proof (induction n rule: ilog2.induct)
  case (1 n)
  show ?case
  proof (cases "n = 1")
    case True
    then show ?thesis by (simp add: ilog2.simps pow2_Suc [of 0, simplified])
  next
    case False
    with 1 have i: "0 \<le> ilog2 (n div 2)" "pow2 (ilog2 (n div 2)) \<le> of_int (n div 2)"
      "of_int (n div 2 + 1) \<le> pow2 (ilog2 (n div 2) + 1)" by simp_all
    have e: "ilog2 n = ilog2 (n div 2) + 1" using False 1(2) by (simp add: ilog2.simps [of n])
    have "2 * (n div 2) \<le> n" "n + 1 \<le> 2 * (n div 2 + 1)" by presburger+
    then have "of_int (2 * (n div 2)) \<le> (of_int n :: rat)" "of_int (n + 1) \<le> (of_int (2 * (n div 2 + 1)) :: rat)"
      by (simp_all only: of_int_le_iff)
    with i show ?thesis
      unfolding e pow2_Suc by simp
  qed
qed

lemma ceil_div:
  assumes "0 < a" and "0 < (b::int)"
  shows "of_int ((b - 1) div a) < (of_int b :: rat) / of_int a \<and> (of_int b :: rat) / of_int a \<le> of_int ((b - 1) div a + 1)"
proof -
  have "(b - 1) div a * a < b" "b \<le> ((b - 1) div a + 1) * a"
    using div_mult_mod_eq [of "b - 1" a] pos_mod_bound [OF assms(1), of "b - 1"] pos_mod_sign [OF assms(1), of "b - 1"]
    by (simp_all only: distrib_right)
  then have "(of_int ((b - 1) div a * a) :: rat) < of_int b" "(of_int b :: rat) \<le> of_int (((b - 1) div a + 1) * a)"
    by (simp_all only: of_int_less_iff of_int_le_iff)
  then show ?thesis using assms(1) by (simp add: less_divide_eq divide_le_eq)
qed

lemma flog2_spec:
  assumes "0 < x"
  shows "pow2 (flog2 x) \<le> x \<and> x < pow2 (flog2 x + 1)"
proof -
  obtain a b where q: "quotient_of x = (a, b)" by fastforce
  from quotient_of_div [OF q] quotient_of_denom_pos [OF q] have x: "x = of_int a / of_int b" and b: "0 < b" .
  from assms x b have a: "0 < a" by (simp add: zero_less_divide_iff)
  show ?thesis
  proof (cases "b \<le> a")
    case True
    have f: "flog2 x = ilog2 (a div b)" using True q by (simp add: flog2_def)
    have "1 \<le> a div b" using True b by (simp add: int_one_le_iff_zero_less pos_imp_zdiv_pos_iff)
    note i = ilog2_spec [OF this]
    have "\<lfloor>x\<rfloor> = a div b" unfolding x by (rule floor_divide_of_int_eq)
    then have "of_int (a div b) \<le> x" "x < of_int (a div b + 1)" by linarith+
    with i show ?thesis unfolding f by linarith
  next
    case False
    let ?m = "(b - 1) div a"
    have f: "flog2 x = - (ilog2 ?m + 1)" using False q by (simp add: flog2_def)
    have "1 \<le> ?m" using False a by (simp add: int_one_le_iff_zero_less pos_imp_zdiv_pos_iff)
    note i = ilog2_spec [OF this]
    have r: "of_int b / of_int a = 1 / x" unfolding x by simp
    from ceil_div [OF a b] have c: "of_int ?m < 1 / x" "1 / x \<le> of_int (?m + 1)" unfolding r by simp_all
    have "pow2 (ilog2 ?m) < 1 / x" "1 / x \<le> pow2 (ilog2 ?m + 1)" using i c by linarith+
    then have u: "x * pow2 (ilog2 ?m) < 1" and l: "1 \<le> x * pow2 (ilog2 ?m + 1)"
      using assms by (simp_all add: less_divide_eq divide_le_eq mult.commute)
    have "pow2 (- (ilog2 ?m + 1)) * 1 \<le> pow2 (- (ilog2 ?m + 1)) * (x * pow2 (ilog2 ?m + 1))"
      using l by (intro mult_left_mono) (simp_all add: less_imp_le)
    also have "\<dots> = x" using pow2_minus [of "ilog2 ?m + 1"] by (simp add: mult.left_commute)
    finally have "pow2 (flog2 x) \<le> x" unfolding f by simp
    have "pow2 (- ilog2 ?m) * (x * pow2 (ilog2 ?m)) < pow2 (- ilog2 ?m) * 1"
      using u by (intro mult_strict_left_mono) simp_all
    moreover have "pow2 (- ilog2 ?m) * (x * pow2 (ilog2 ?m)) = x"
      using pow2_minus [of "ilog2 ?m"] by (simp add: mult.left_commute)
    ultimately have "x < pow2 (flog2 x + 1)" unfolding f by simp
    with \<open>pow2 (flog2 x) \<le> x\<close> show ?thesis by simp
  qed
qed

lemma flog2_mono:
  assumes "0 < x" and "x \<le> y"
  shows "flog2 x \<le> flog2 y"
proof (rule ccontr)
  assume "\<not> flog2 x \<le> flog2 y"
  then have "pow2 (flog2 y + 1) \<le> pow2 (flog2 x)" by (intro pow2_mono) simp
  with flog2_spec [OF assms(1)] flog2_spec [of y] assms show False by simp
qed

text \<open>The significand of a positive number, before rounding, and the rounded number.\<close>

definition ulp_exp :: "int \<Rightarrow> int \<Rightarrow> rat \<Rightarrow> int" where
  "ulp_exp p emin x = max (flog2 x) emin - (p - 1)"

definition rnd_at :: "int \<Rightarrow> rat \<Rightarrow> rat" where
  "rnd_at e x = of_int (rnd_half_even (x / pow2 e)) * pow2 e"

lemma fl_round_pos: "0 < x \<Longrightarrow> fl_round p emin emax x =
   (if pow2 (emax + 1) \<le> rnd_at (ulp_exp p emin x) x then FInf False else Fin (rnd_at (ulp_exp p emin x) x))"
  by (simp add: fl_round_def rnd_at_def ulp_exp_def Let_def)

lemma rnd_at_mono: "x \<le> y \<Longrightarrow> rnd_at e x \<le> rnd_at e y"
  by (simp add: rnd_at_def rnd_half_even_mono divide_right_mono less_imp_le mult_right_mono)

lemma rnd_at_multiple: "rnd_at e (of_int n * pow2 e) = of_int n * pow2 e"
  using pow2_pos [of e] by (simp add: rnd_at_def rnd_half_even_of_int)

lemma rnd_at_pow2: "0 \<le> k \<Longrightarrow> rnd_at e (pow2 (e + k)) = pow2 (e + k)"
  using rnd_at_multiple [of e "2 ^ nat k"] pow2_add_nat [of e "nat k"] by simp

lemma round_pos_mono:
  assumes "0 < x" and "x \<le> y" and "1 \<le> p"
  shows "rnd_at (ulp_exp p emin x) x \<le> rnd_at (ulp_exp p emin y) y"
proof (cases "ulp_exp p emin x = ulp_exp p emin y")
  case True
  then show ?thesis by (simp add: rnd_at_mono assms(2))
next
  case False
  let ?e = "ulp_exp p emin x" and ?d = "ulp_exp p emin y"
  have le: "flog2 x \<le> flog2 y" by (rule flog2_mono [OF assms(1,2)])
  with False have lt: "max (flog2 x) emin + 1 \<le> flog2 y" "max (flog2 y) emin = flog2 y"
    by (auto simp: ulp_exp_def max_def split: if_splits)
  have "x \<le> pow2 (max (flog2 x) emin + 1)"
    using flog2_spec [OF assms(1)] pow2_mono [of "flog2 x + 1" "max (flog2 x) emin + 1"] by simp
  from rnd_at_mono [OF this, of ?e] have "rnd_at ?e x \<le> pow2 (max (flog2 x) emin + 1)"
    using rnd_at_pow2 [of p ?e] assms(3) by (simp add: ulp_exp_def)
  also have "\<dots> \<le> pow2 (flog2 y)" by (rule pow2_mono [OF lt(1)])
  also have "\<dots> \<le> rnd_at ?d y"
    using rnd_at_mono [of "pow2 (flog2 y)" y ?d] flog2_spec [of y] rnd_at_pow2 [of "p - 1" ?d] assms lt(2)
    by (simp add: ulp_exp_def)
  finally show ?thesis .
qed

lemma fl_round_mono:
  assumes "0 \<le> x" and "x \<le> y" and "1 \<le> p"
  shows "fl_le (fl_round p emin emax x) (fl_round p emin emax y)"
proof (cases "x = 0")
  case True
  then show ?thesis using fl_round_nonneg [of y p emin emax] assms by (auto simp: fl_round_zero fl_le_Fin fl_le_def)
next
  case False
  with assms have "0 < x" "0 < y" by simp_all
  with round_pos_mono [OF \<open>0 < x\<close> assms(2,3), of emin] show ?thesis
    by (auto simp: fl_round_pos fl_le_Fin fl_le_def)
qed

text \<open>Integers with at most \<open>p\<close> bits are exact.\<close>

lemma fl_round_int:
  assumes "0 < n" and "of_int n < pow2 p" and "emin \<le> p - 1" and "p \<le> emax + 1"
  shows "fl_round p emin emax (of_int n) = Fin (of_int n)"
proof -
  let ?e = "ulp_exp p emin (of_int n)"
  have x: "(0::rat) < of_int n" using assms(1) by simp
  have "flog2 (of_int n) < p"
    using flog2_spec [OF x] assms(2) pow2_mono [of p "flog2 (of_int n)"] by (meson le_less_trans not_le)
  then have "?e \<le> 0" using assms(3) by (simp add: ulp_exp_def)
  then have "of_int n = of_int (n * 2 ^ nat (- ?e)) * pow2 ?e"
    using pow2_add_nat [of ?e "nat (- ?e)"] by (simp add: algebra_simps)
  then have "rnd_at ?e (of_int n) = of_int n" using rnd_at_multiple by metis
  moreover have "of_int n < pow2 (emax + 1)" using assms(2) pow2_mono [OF assms(4)] by simp
  ultimately show ?thesis using x by (simp add: fl_round_pos)
qed

lemma f64_int: "0 \<le> n \<Longrightarrow> n < 2 ^ 53 \<Longrightarrow> f64 (of_int n) = Fin (of_int n)"
  using fl_round_int [of n 53 "- 1022" 1023]
  by (cases "n = 0") (simp_all add: f64_def fl_round_zero pow2_def)

lemma f64_mono: "0 \<le> x \<Longrightarrow> x \<le> y \<Longrightarrow> fl_le (f64 x) (f64 y)"
  by (simp add: f64_def fl_round_mono)

lemma flog2_eqI:
  assumes "pow2 e \<le> x" and "x < pow2 (e + 1)"
  shows "flog2 x = e"
proof -
  have "0 < x" using assms(1) pow2_pos [of e] by linarith
  from flog2_spec [OF this] assms have "pow2 (flog2 x) < pow2 (e + 1)" "pow2 e < pow2 (flog2 x + 1)" by linarith+
  then have "flog2 x < e + 1" "e < flog2 x + 1" using pow2_mono by (meson not_less)+
  then show ?thesis by simp
qed

section \<open>Arithmetic on doubles\<close>

text \<open>On finite operands; what the program computes is never infinite.\<close>

definition fl_div :: "fl \<Rightarrow> fl \<Rightarrow> fl" where
  "fl_div x y = (case (x, y) of
     (Fin a, Fin b) \<Rightarrow> if b = 0 then (if a = 0 then FNaN else FInf (a < 0)) else f64 (a / b)
   | _ \<Rightarrow> FNaN)"

definition fl_add :: "fl \<Rightarrow> fl \<Rightarrow> fl" where
  "fl_add x y = (case (x, y) of (Fin a, Fin b) \<Rightarrow> f64 (a + b) | _ \<Rightarrow> FNaN)"

definition fl_sub :: "fl \<Rightarrow> fl \<Rightarrow> fl" where
  "fl_sub x y = (case (x, y) of (Fin a, Fin b) \<Rightarrow> f64 (a - b) | _ \<Rightarrow> FNaN)"

definition fl_mul :: "fl \<Rightarrow> fl \<Rightarrow> fl" where
  "fl_mul x y = (case (x, y) of (Fin a, Fin b) \<Rightarrow> f64 (a * b) | _ \<Rightarrow> FNaN)"

definition dbl :: "int \<Rightarrow> fl" where
  "dbl n = f64 (of_int n)"

lemma f64_eval:
  assumes "pow2 e \<le> x" and "x < pow2 (e + 1)" and "- 1022 \<le> e" and "e \<le> 1000"
  shows "f64 x = (let r = rnd_at (e - 52) x in if pow2 1024 \<le> r then FInf False else Fin r)"
proof -
  have "0 < x" using assms(1) pow2_pos [of e] by linarith
  with assms show ?thesis
    by (simp add: f64_def fl_round_pos ulp_exp_def flog2_eqI [OF assms(1,2)] Let_def)
qed

lemma floor_085: "\<lfloor>38280596832649216 / 5 :: rat\<rfloor> = 7656119366529843"
  by (rule floor_unique) simp_all

lemma f64_085: "f64 (17 / 20) = Fin (7656119366529843 / 9007199254740992)"
  by (subst f64_eval [of "- 1"]) (simp_all add: pow2_def rnd_at_def rnd_half_even_def floor_085 Let_def)

lemma f64_halves: "f64 (5 / 8) = Fin (5 / 8)" "f64 (9 / 2) = Fin (9 / 2)" "f64 (19 / 4) = Fin (19 / 4)"
  "f64 (1 / 4) = Fin (1 / 4)"
  by (subst f64_eval [of "- 1"] f64_eval [of 2] f64_eval [of "- 2"]; simp add: pow2_def rnd_at_def rnd_half_even_def Let_def)+

lemma dbl_int: "0 \<le> n \<Longrightarrow> n < 2 ^ 53 \<Longrightarrow> dbl n = Fin (of_int n)"
  by (simp add: dbl_def f64_int)

lemma dbl_code [code]:
  "dbl n = (if 0 \<le> n \<and> n < 9007199254740992 then Fin (of_int n) else f64 (of_int n))"
  using dbl_int [of n] by (simp add: dbl_def)

lemma fl_mul_Fin: "fl_mul (Fin a) (Fin b) = f64 (a * b)"
  by (simp add: fl_mul_def)

lemma fl_le_trans: "fl_le x y \<Longrightarrow> fl_le y z \<Longrightarrow> fl_le x z"
  by (cases x; cases y; cases z) (auto simp: fl_le_def)

lemma fl_le_lt: "fl_le x y \<Longrightarrow> \<not> fl_lt y x"
  by (cases x; cases y) (auto simp: fl_le_def)

lemma f64_numeral: "f64 16 = Fin 16" "f64 33 = Fin 33" "f64 10 = Fin 10"
  using f64_int [of 16] f64_int [of 33] f64_int [of 10] by simp_all

lemma fl_between: "fl_le (Fin a) x \<Longrightarrow> fl_le x (Fin b) \<Longrightarrow> \<exists>c. x = Fin c \<and> a \<le> c \<and> c \<le> b"
  by (cases x) (auto simp: fl_le_def)

lemma f64_between:
  assumes "0 \<le> a" and "a \<le> q" and "q \<le> b" and "f64 a = Fin a" and "f64 b = Fin b"
  shows "\<exists>c. f64 q = Fin c \<and> a \<le> c \<and> c \<le> b"
  using f64_mono [of a q] f64_mono [of q b] assms by (auto intro!: fl_between)

lemma f64_negative: "x < 0 \<Longrightarrow> fl_lt (f64 x) (Fin (1 / 2))"
proof -
  assume x: "x < 0"
  have "0 \<le> of_int (rnd_half_even (\<bar>x\<bar> / u)) * u" if "0 < u" for u :: rat
    using that by (simp add: rnd_half_even_nonneg less_imp_le)
  from this [OF pow2_pos] x show ?thesis
    by (auto simp: f64_def fl_round_def Let_def intro: less_le_trans [of _ 0])
qed

section \<open>Parsing and printing\<close>

definition ci_prefix :: "string \<Rightarrow> string \<Rightarrow> bool" where
  "ci_prefix p s \<longleftrightarrow> length p \<le> length s \<and> map tolower (take (length p) s) = p"

definition is_hex :: "char \<Rightarrow> bool" where
  "is_hex c \<longleftrightarrow> hex_val c \<noteq> None"

fun hexdigits_val :: "int \<Rightarrow> string \<Rightarrow> int" where
  "hexdigits_val acc [] = acc"
| "hexdigits_val acc (c # cs) =
     hexdigits_val (case hex_val c of None \<Rightarrow> acc | Some v \<Rightarrow> 16 * acc + int v) cs"

text \<open>
  A mantissa is a run of digits, optionally followed by a point and more digits: the digits
  before and after the point, and what is left of the text.
\<close>

definition scan_mantissa :: "(char \<Rightarrow> bool) \<Rightarrow> string \<Rightarrow> string \<times> string \<times> string" where
  "scan_mantissa isd s = (let ip = takeWhile isd s; r = dropWhile isd s in
     case r of
       [] \<Rightarrow> (ip, [], [])
     | c # cs \<Rightarrow> if c = CHR ''.'' then (ip, takeWhile isd cs, dropWhile isd cs) else (ip, [], r))"

text \<open>An exponent counts only when the marker is followed by at least one digit.\<close>

definition scan_exp :: "char \<Rightarrow> string \<Rightarrow> int" where
  "scan_exp m s = (case s of
     [] \<Rightarrow> 0
   | c # cs \<Rightarrow> if tolower c \<noteq> m then 0
       else let (neg, r) = split_sign cs; v = digits_val 0 (takeWhile isdigit r)
            in if neg then - v else v)"

definition pow10 :: "int \<Rightarrow> rat" where
  "pow10 e = (if 0 \<le> e then 10 ^ nat e else 1 / 10 ^ nat (- e))"

definition strtof :: "string \<Rightarrow> fl" where
  "strtof s = (let (neg, b) = split_sign (dropWhile isspace s);
       sgn = (\<lambda>x. if neg then - x else x);
       (hi, hf, hr) = scan_mantissa is_hex (drop 2 b);
       (di, df, dr) = scan_mantissa isdigit b
     in if ci_prefix ''inf'' b then FInf neg
        else if ci_prefix ''nan'' b then FNaN
        else if ci_prefix ''0x'' b \<and> (hi \<noteq> [] \<or> hf \<noteq> []) then
          f32 (sgn (of_int (hexdigits_val 0 (hi @ hf)) *
                    pow2 (scan_exp (CHR ''p'') hr - 4 * int (length hf))))
        else if di = [] \<and> df = [] then Fin 0
        else f32 (sgn (of_int (digits_val 0 (di @ df)) *
                       pow10 (scan_exp (CHR ''e'') dr - int (length df)))))"

text \<open>\<open>%.<k>f\<close> of a double.\<close>

definition fmt_fixed :: "nat \<Rightarrow> fl \<Rightarrow> string" where
  "fmt_fixed k x = (case x of
     FNaN \<Rightarrow> ''nan''
   | FInf n \<Rightarrow> if n then ''-inf'' else ''inf''
   | Fin q \<Rightarrow>
       let n = rnd_half_even (\<bar>q\<bar> * 10 ^ k);
           ip = dec_pos (n div 10 ^ k);
           fr = dec_pos (n mod 10 ^ k)
       in (if q < 0 then ''-'' else []) @ ip @
          (if k = 0 then [] else ''.'' @ replicate (k - length fr) (CHR ''0'') @ fr))"

text \<open>Checks of the rounding against the well-known bit patterns of 0.7f, 0.9f and 1.1f.\<close>

lemma f32_samples:
  "f32 (7 / 10) = Fin (11744051 / 16777216)"
  "f32 (9 / 10) = Fin (15099494 / 16777216)"
  "f32 (11 / 10) = Fin (9227469 / 8388608)"
  by code_simp+

lemma strtof_samples:
  "strtof ''0.5x'' = Fin (1 / 2)"
  "strtof ''0x1p4'' = Fin 16"
  "strtof ''x'' = Fin 0"
  by code_simp+

lemma fmt_samples:
  "fmt_fixed 1 (Fin (85 / 2)) = ''42.5''"
  "fmt_fixed 0 (Fin (5 / 2)) = ''2''"
  by code_simp+

end
