(* ===== verification/Config.thy ===== *)
theory Config
  imports Cfloat
begin

text \<open>
  Configuration: src/src/config.h and src/src/config.c. The record is \<open>config_t\<close>, one
  definition per function: \<open>config_defaults\<close>, \<open>trim\<close>, \<open>set_config_field\<close> (INI keys),
  \<open>config_load_file\<close>, \<open>config_parse_cli\<close> and \<open>config_validate\<close>. The fixed array
  \<open>acl[PROF_ACL_MAX]\<close> with its \<open>acl_count\<close> is the list of the entries in use.
\<close>

abbreviation PROF_PATH_MAX :: nat where "PROF_PATH_MAX \<equiv> 512"
abbreviation PROF_ADDR_MAX :: nat where "PROF_ADDR_MAX \<equiv> 64"
abbreviation PROF_NAME_MAX :: nat where "PROF_NAME_MAX \<equiv> 128"
abbreviation PROF_KEY_MAX :: nat where "PROF_KEY_MAX \<equiv> 128"
abbreviation PROF_ACL_MAX :: nat where "PROF_ACL_MAX \<equiv> 16"

record config =
  cf_model_path :: string
  cf_model_alias :: string
  cf_n_ctx :: int
  cf_n_gpu_layers :: int
  cf_n_batch :: int
  cf_n_threads :: int
  cf_temperature :: fl
  cf_top_p :: fl
  cf_top_k :: int
  cf_repeat_penalty :: fl
  cf_max_tokens :: int
  cf_listen_addr :: string
  cf_api_key :: string
  cf_acl :: "string list"
  cf_max_inference_seconds :: int
  cf_stats_interval :: int
  cf_daemonize :: int
  cf_pid_file :: string
  cf_log_level :: int
  cf_log_file :: string
  cf_config_file :: string

section \<open>Operations\<close>

definition config_defaults :: config where
  "config_defaults = \<lparr>
     cf_model_path = [],
     cf_model_alias = ''local-model'',
     cf_n_ctx = 4096, cf_n_gpu_layers = 99, cf_n_batch = 2048, cf_n_threads = 0,
     cf_temperature = f32 (7 / 10), cf_top_p = f32 (9 / 10), cf_top_k = 40,
     cf_repeat_penalty = f32 (11 / 10), cf_max_tokens = 512,
     cf_listen_addr = ''127.0.0.1:8080'',
     cf_api_key = [], cf_acl = [],
     cf_max_inference_seconds = 300, cf_stats_interval = 60,
     cf_daemonize = 0, cf_pid_file = ''/run/professord/professord.pid'',
     cf_log_level = 2, cf_log_file = [], cf_config_file = []\<rparr>"

definition trim :: "string \<Rightarrow> string" where
  "trim s = rev (dropWhile isspace (rev (dropWhile isspace s)))"

definition set_string :: "nat \<Rightarrow> string \<Rightarrow> string" where
  "set_string n value = snprintf_s n value"

text \<open>The loop over \<open>strtok_r(buf, ",")\<close>, which stops when the table is full.\<close>

function acl_add :: "string \<Rightarrow> string list \<Rightarrow> string list" where
  "acl_add s acl = (case strtok (CHR '','') s of
     None \<Rightarrow> acl
   | Some (tok, rest) \<Rightarrow>
       if length acl < PROF_ACL_MAX
       then acl_add rest (let ip = trim tok in
              if ip = [] then acl else acl @ [snprintf_s PROF_ADDR_MAX ip])
       else acl)"
  by pat_completeness auto
termination
  by (relation "measure (\<lambda>(s, acl). length s)") (auto dest: strtok_shorter)

declare acl_add.simps [simp del]

definition parse_allow_ip :: "string \<Rightarrow> string list \<Rightarrow> string list" where
  "parse_allow_ip value acl = acl_add (snprintf_s 1024 value) acl"

definition set_config_field :: "config \<Rightarrow> string \<Rightarrow> string \<Rightarrow> config" where
  "set_config_field cfg key value =
    (if key = ''model_path'' then cfg\<lparr>cf_model_path := set_string PROF_PATH_MAX value\<rparr>
     else if key = ''model_alias'' then cfg\<lparr>cf_model_alias := set_string PROF_NAME_MAX value\<rparr>
     else if key = ''n_ctx'' then cfg\<lparr>cf_n_ctx := strtol_i32 value\<rparr>
     else if key = ''n_gpu_layers'' then cfg\<lparr>cf_n_gpu_layers := strtol_i32 value\<rparr>
     else if key = ''n_batch'' then cfg\<lparr>cf_n_batch := strtol_i32 value\<rparr>
     else if key = ''n_threads'' then cfg\<lparr>cf_n_threads := strtol_i32 value\<rparr>
     else if key = ''temperature'' then cfg\<lparr>cf_temperature := strtof value\<rparr>
     else if key = ''top_p'' then cfg\<lparr>cf_top_p := strtof value\<rparr>
     else if key = ''top_k'' then cfg\<lparr>cf_top_k := strtol_i32 value\<rparr>
     else if key = ''repeat_penalty'' then cfg\<lparr>cf_repeat_penalty := strtof value\<rparr>
     else if key = ''max_tokens'' then cfg\<lparr>cf_max_tokens := strtol_i32 value\<rparr>
     else if key = ''listen_addr'' then cfg\<lparr>cf_listen_addr := set_string PROF_ADDR_MAX value\<rparr>
     else if key = ''api_key'' then cfg\<lparr>cf_api_key := set_string PROF_KEY_MAX value\<rparr>
     else if key = ''max_inference_seconds'' then cfg\<lparr>cf_max_inference_seconds := strtol_i32 value\<rparr>
     else if key = ''stats_interval'' then cfg\<lparr>cf_stats_interval := strtol_i32 value\<rparr>
     else if key = ''daemonize'' then cfg\<lparr>cf_daemonize := strtol_i32 value\<rparr>
     else if key = ''pid_file'' then cfg\<lparr>cf_pid_file := set_string PROF_PATH_MAX value\<rparr>
     else if key = ''log_level'' then cfg\<lparr>cf_log_level := strtol_i32 value\<rparr>
     else if key = ''log_file'' then cfg\<lparr>cf_log_file := set_string PROF_PATH_MAX value\<rparr>
     else if key = ''allow_ip'' then cfg\<lparr>cf_acl := parse_allow_ip value (cf_acl cfg)\<rparr>
     else cfg)"

text \<open>One line buffer of \<open>config_load_file\<close>: \<open>buf\<close> holds the bytes that \<open>fgets\<close> stored.\<close>

definition config_line :: "config \<Rightarrow> string \<Rightarrow> config" where
  "config_line cfg buf = (let p = trim (cstr buf) in
     if p = [] \<or> hd p = CHR ''#'' \<or> hd p = CHR '';'' then cfg
     else if CHR ''='' \<notin> set p then cfg
     else let key = trim (takeWhile (\<lambda>c. c \<noteq> CHR ''='') p);
              value = trim (drop 1 (dropWhile (\<lambda>c. c \<noteq> CHR ''='') p))
          in set_config_field cfg key value)"

text \<open>The argument is what \<open>fopen\<close> and reading yield: the bytes of the file, if it opens.\<close>

definition config_load_file :: "config \<Rightarrow> string option \<Rightarrow> config option" where
  "config_load_file cfg file = (case file of
     None \<Rightarrow> None
   | Some bytes \<Rightarrow> Some (foldl config_line cfg (fgets_all 1024 bytes)))"

text \<open>The chain of options that take a value; \<open>None\<close> is an unknown option.\<close>

definition cli_option :: "config \<Rightarrow> string \<Rightarrow> string \<Rightarrow> config option" where
  "cli_option cfg arg val =
    (if arg = ''--config'' then Some (cfg\<lparr>cf_config_file := set_string PROF_PATH_MAX val\<rparr>)
     else if arg = ''--model'' then Some (cfg\<lparr>cf_model_path := set_string PROF_PATH_MAX val\<rparr>)
     else if arg = ''--model-alias'' then Some (cfg\<lparr>cf_model_alias := set_string PROF_NAME_MAX val\<rparr>)
     else if arg = ''--n-ctx'' \<or> arg = ''--fing-longer'' then Some (cfg\<lparr>cf_n_ctx := strtol_i32 val\<rparr>)
     else if arg = ''--n-gpu-layers'' then Some (cfg\<lparr>cf_n_gpu_layers := strtol_i32 val\<rparr>)
     else if arg = ''--n-batch'' then Some (cfg\<lparr>cf_n_batch := strtol_i32 val\<rparr>)
     else if arg = ''--n-threads'' then Some (cfg\<lparr>cf_n_threads := strtol_i32 val\<rparr>)
     else if arg = ''--temperature'' then Some (cfg\<lparr>cf_temperature := strtof val\<rparr>)
     else if arg = ''--top-p'' then Some (cfg\<lparr>cf_top_p := strtof val\<rparr>)
     else if arg = ''--top-k'' then Some (cfg\<lparr>cf_top_k := strtol_i32 val\<rparr>)
     else if arg = ''--repeat-penalty'' then Some (cfg\<lparr>cf_repeat_penalty := strtof val\<rparr>)
     else if arg = ''--max-tokens'' then Some (cfg\<lparr>cf_max_tokens := strtol_i32 val\<rparr>)
     else if arg = ''--listen-addr'' then Some (cfg\<lparr>cf_listen_addr := set_string PROF_ADDR_MAX val\<rparr>)
     else if arg = ''--api-key'' then Some (cfg\<lparr>cf_api_key := set_string PROF_KEY_MAX val\<rparr>)
     else if arg = ''--max-inference-seconds'' then Some (cfg\<lparr>cf_max_inference_seconds := strtol_i32 val\<rparr>)
     else if arg = ''--stats-interval'' then Some (cfg\<lparr>cf_stats_interval := strtol_i32 val\<rparr>)
     else if arg = ''--pid-file'' then Some (cfg\<lparr>cf_pid_file := set_string PROF_PATH_MAX val\<rparr>)
     else if arg = ''--log-level'' then Some (cfg\<lparr>cf_log_level := strtol_i32 val\<rparr>)
     else if arg = ''--log-file'' then Some (cfg\<lparr>cf_log_file := set_string PROF_PATH_MAX val\<rparr>)
     else if arg = ''--allow-ip'' then Some (cfg\<lparr>cf_acl := parse_allow_ip val (cf_acl cfg)\<rparr>)
     else None)"

datatype cli_result = CliOk config | CliHelp | CliMissing string | CliUnknown string

text \<open>
  \<open>config_parse_cli\<close> on the arguments after \<open>argv[0]\<close>. \<open>--help\<close> prints the usage and
  exits; \<open>CliMissing\<close> and \<open>CliUnknown\<close> are the two ways to return -1.
\<close>

fun config_parse_cli :: "config \<Rightarrow> string list \<Rightarrow> cli_result" where
  "config_parse_cli cfg [] = CliOk cfg"
| "config_parse_cli cfg [arg] =
    (if arg = ''--help'' \<or> arg = ''-h'' then CliHelp
     else if arg = ''--recommend'' \<or> arg = ''--gen-api-key'' then CliOk cfg
     else if arg = ''--daemonize'' then CliOk (cfg\<lparr>cf_daemonize := 1\<rparr>)
     else CliMissing arg)"
| "config_parse_cli cfg (arg # val # rest) =
    (if arg = ''--help'' \<or> arg = ''-h'' then CliHelp
     else if arg = ''--recommend'' \<or> arg = ''--gen-api-key'' then config_parse_cli cfg (val # rest)
     else if arg = ''--daemonize'' then config_parse_cli (cfg\<lparr>cf_daemonize := 1\<rparr>) (val # rest)
     else case cli_option cfg arg val of
            None \<Rightarrow> CliUnknown arg
          | Some cfg' \<Rightarrow> config_parse_cli cfg' rest)"

datatype config_error = ModelPathRequired | NCtxNotPositive | MaxTokensRange | ListenAddrColon
  | TimeoutNotPositive

definition config_validate :: "config \<Rightarrow> config_error option" where
  "config_validate cfg =
    (if cf_model_path cfg = [] then Some ModelPathRequired
     else if cf_n_ctx cfg \<le> 0 then Some NCtxNotPositive
     else if cf_max_tokens cfg \<le> 0 \<or> cf_max_tokens cfg > cf_n_ctx cfg then Some MaxTokensRange
     else if CHR '':'' \<notin> set (cf_listen_addr cfg) then Some ListenAddrColon
     else if cf_max_inference_seconds cfg \<le> 0 then Some TimeoutNotPositive
     else None)"

text \<open>The messages of \<open>config_validate\<close> and of \<open>config_parse_cli\<close> on the error stream.\<close>

fun config_error_text :: "config_error \<Rightarrow> string" where
  "config_error_text ModelPathRequired = ''Error: model_path is required (--model or config file)''"
| "config_error_text NCtxNotPositive = ''Error: n_ctx must be > 0''"
| "config_error_text MaxTokensRange = ''Error: max_tokens must be > 0 and <= n_ctx''"
| "config_error_text ListenAddrColon = ''Error: listen_addr must contain ':' (e.g., 127.0.0.1:8080)''"
| "config_error_text TimeoutNotPositive = ''Error: max_inference_seconds must be > 0''"

definition help_lines :: "string list" where
  "help_lines =
    [''  --config PATH              Path to INI config file'',
     ''  --model PATH               Path to GGUF model file (required)'',
     ''  --model-alias NAME         Model name in API responses [local-model]'',
     ''  --n-ctx N                  Context window size [4096]'',
     ''  --n-gpu-layers N           GPU layers to offload [99]'',
     ''  --n-batch N                Batch size [2048]'',
     ''  --n-threads N              CPU threads [0=auto]'',
     ''  --temperature F            Sampling temperature [0.7]'',
     ''  --top-p F                  Nucleus sampling threshold [0.9]'',
     ''  --top-k N                  Top-k sampling [40]'',
     ''  --repeat-penalty F         Repetition penalty [1.1]'',
     ''  --max-tokens N             Default max tokens [512]'',
     ''  --listen-addr ADDR         HTTP listen address [127.0.0.1:8080]'',
     ''  --api-key KEY              Bearer token for auth (empty=no auth)'',
     ''  --max-inference-seconds N  Generation timeout [300]'',
     ''  --daemonize                Run as background daemon'',
     ''  --pid-file PATH            PID file path [/run/professord/professord.pid]'',
     ''  --log-level N              0=TRACE..5=FATAL [2=INFO]'',
     ''  --log-file PATH            Log to file (in addition to stderr)'',
     ''  --allow-ip IP              Add IP to ACL (repeatable, empty=allow all)'',
     ''  --stats-interval N         Seconds between stats log [60] (0=off)'',
     ''  --gen-api-key              Generate a random API key and exit'',
     ''  --recommend                Detect hardware, recommend models'',
     ''  --version                  Show version and exit'',
     ''  --help                     Show this help'']"

definition config_print_help :: "string \<Rightarrow> string" where
  "config_print_help prog = ''Usage: '' @ prog @ '' [options]'' @ [NL, NL] @ ''Options:'' @ [NL] @
     concat (map (\<lambda>l. l @ [NL]) help_lines)"

text \<open>The help text is true: each option that it lists is known to the parser, and each default
  that it prints is the value of \<open>config_defaults\<close>.\<close>

definition help_option :: "string \<Rightarrow> string" where
  "help_option l = takeWhile (\<lambda>c. c \<noteq> CHR '' '') (drop 2 l)"

definition help_default :: "string \<Rightarrow> string" where
  "help_default l = takeWhile (\<lambda>c. c \<noteq> CHR '']'') (tl (dropWhile (\<lambda>c. c \<noteq> CHR ''['') l))"

lemma help_options_known:
  "\<forall>l \<in> set help_lines. \<not> Option.is_none (cli_option config_defaults (help_option l) ''1'') \<or>
     help_option l \<in> {''--daemonize'', ''--gen-api-key'', ''--recommend'', ''--version'', ''--help''}"
  by code_simp

lemma help_defaults_hold:
  "\<forall>l \<in> set help_lines. CHR ''['' \<in> set l \<longrightarrow>
     cli_option config_defaults (help_option l) (help_default l) = Some config_defaults"
  by code_simp

section \<open>Whitespace and the access list\<close>

definition trimmed :: "string \<Rightarrow> bool" where
  "trimmed s \<longleftrightarrow> s = [] \<or> \<not> isspace (hd s) \<and> \<not> isspace (last s)"

definition blank :: "string \<Rightarrow> bool" where
  "blank s \<longleftrightarrow> (\<forall>c \<in> set s. isspace c)"

lemma dropWhile_blank: "blank w \<Longrightarrow> dropWhile isspace (w @ s) = dropWhile isspace s"
  by (simp add: blank_def dropWhile_append2)

lemma trim_surround [c_simps]:
  assumes "trimmed s" and "blank u" and "blank w"
  shows "trim (u @ s @ w) = s"
proof (cases "s = []")
  case True
  have nil: "dropWhile isspace (u @ w) = []"
    unfolding dropWhile_eq_Nil_conv using assms(2,3) by (auto simp: blank_def)
  have "trim (u @ w) = []" unfolding trim_def nil by simp
  with True show ?thesis by simp
next
  case False
  have "blank (rev w)" using assms(3) by (simp add: blank_def)
  moreover have "dropWhile isspace (s @ w) = s @ w"
    using assms(1) False by (cases s) (auto simp: trimmed_def)
  moreover have "dropWhile isspace (rev s) = rev s"
    using assms(1) False by (cases s rule: rev_cases) (auto simp: trimmed_def)
  ultimately show ?thesis
    by (simp add: trim_def dropWhile_blank [OF assms(2)] dropWhile_blank)
qed

lemma trim_id: "trimmed s \<Longrightarrow> trim s = s"
  using trim_surround [of s "[]" "[]"] by (simp add: blank_def)

lemma trimmed_trim: "trimmed (trim s)"
proof (cases "trim s = []")
  case True
  then show ?thesis by (simp add: trimmed_def)
next
  case False
  let ?t = "dropWhile isspace s"
  have ne: "dropWhile isspace (rev ?t) \<noteq> []" using False by (simp add: trim_def)
  then have "\<not> isspace (last (trim s))"
    using hd_dropWhile [OF ne] by (simp add: trim_def last_rev)
  moreover have "\<not> isspace (hd (trim s))"
  proof -
    have "suffix (dropWhile isspace (rev ?t)) (rev ?t)" by (rule suffix_dropWhile)
    then have "prefix (trim s) ?t" by (simp add: trim_def suffix_to_prefix)
    then obtain z where "?t = trim s @ z" by (auto simp: prefix_def)
    then have "hd (trim s) = hd ?t" and "?t \<noteq> []" using False by (metis hd_append2, force)
    then show ?thesis using hd_dropWhile [of isspace s] by simp
  qed
  ultimately show ?thesis by (simp add: trimmed_def)
qed

text \<open>The reading of an access list without the loop: split, trim, drop blanks, cut, cap.\<close>

fun split_on :: "char \<Rightarrow> string \<Rightarrow> string list" where
  "split_on d [] = [[]]"
| "split_on d (c # cs) = (if c = d then [] # split_on d cs
     else (case split_on d cs of [] \<Rightarrow> [[c]] | x # xs \<Rightarrow> (c # x) # xs))"

definition acl_tokens :: "string \<Rightarrow> string list" where
  "acl_tokens s = filter (\<lambda>t. t \<noteq> []) (map trim (split_on (CHR '','') s))"

lemma split_on_not_Nil: "split_on d s \<noteq> []"
  by (cases s) (auto split: list.splits)

lemma split_on_no_delim: "d \<notin> set s \<Longrightarrow> split_on d s = [s]"
  by (induction s) auto

lemma split_on_token: "d \<notin> set t \<Longrightarrow> split_on d (t @ d # rest) = t # split_on d rest"
  by (induction t) auto

lemma trim_Nil [simp]: "trim [] = []"
  by (simp add: trim_def)

lemma acl_tokens_skip: "acl_tokens (dropWhile (\<lambda>c. c = CHR '','') s) = acl_tokens s"
  by (induction s) (auto simp: acl_tokens_def)

lemma acl_tokens_strtok:
  "acl_tokens s = (case strtok (CHR '','') s of
     None \<Rightarrow> []
   | Some (tok, rest) \<Rightarrow> (if trim tok = [] then [] else [trim tok]) @ acl_tokens rest)"
proof (cases "strtok (CHR '','') s")
  case None
  then have "dropWhile (\<lambda>c. c = CHR '','') s = []"
    by (simp add: strtok_def Let_def split: if_splits)
  then have "acl_tokens s = acl_tokens []" by (metis acl_tokens_skip)
  with None show ?thesis by (simp add: acl_tokens_def)
next
  case (Some p)
  obtain tok rest where p: "p = (tok, rest)" by (cases p)
  have nd: "CHR '','' \<notin> set tok"
    and r: "dropWhile (\<lambda>c. c = CHR '','') s = tok @ CHR '','' # rest \<or>
      dropWhile (\<lambda>c. c = CHR '','') s = tok \<and> rest = []"
    using strtok_Some [of "CHR '',''" s tok rest] Some p by simp_all
  from r have "acl_tokens s = acl_tokens (tok @ CHR '','' # rest) \<or>
      acl_tokens s = acl_tokens tok \<and> rest = []"
    by (metis acl_tokens_skip)
  then show ?thesis
    using Some p split_on_token [OF nd, of rest] split_on_no_delim [OF nd]
    by (auto simp: acl_tokens_def)
qed

lemma acl_add_spec:
  "length acl \<le> PROF_ACL_MAX \<Longrightarrow>
   acl_add s acl = take PROF_ACL_MAX (acl @ map (snprintf_s PROF_ADDR_MAX) (acl_tokens s))"
proof (induction s acl rule: acl_add.induct)
  case (1 s acl)
  show ?case
  proof (cases "strtok (CHR '','') s")
    case None
    then show ?thesis
      using "1.prems" acl_tokens_strtok [of s] by (simp add: acl_add.simps [of s acl])
  next
    case (Some p)
    obtain tok rest where p: "p = (tok, rest)" by (cases p)
    show ?thesis
    proof (cases "length acl < PROF_ACL_MAX")
      case True
      then show ?thesis
        using "1.IH" [OF Some p [symmetric] True] Some p acl_tokens_strtok [of s]
        by (simp add: acl_add.simps [of s acl] Let_def split: if_splits)
    next
      case False
      then show ?thesis using "1.prems" Some p by (simp add: acl_add.simps [of s acl])
    qed
  qed
qed

section \<open>Well-formed configurations\<close>

definition acl_ok :: "string list \<Rightarrow> bool" where
  "acl_ok acl \<longleftrightarrow> length acl \<le> PROF_ACL_MAX \<and>
     (\<forall>ip \<in> set acl. ip \<noteq> [] \<and> length ip < PROF_ADDR_MAX)"

text \<open>Every string fits its buffer with its NUL, every integer its 32 bits.\<close>

definition config_wf :: "config \<Rightarrow> bool" where
  "config_wf c \<longleftrightarrow>
     length (cf_model_path c) < PROF_PATH_MAX \<and> length (cf_model_alias c) < PROF_NAME_MAX \<and>
     length (cf_listen_addr c) < PROF_ADDR_MAX \<and> length (cf_api_key c) < PROF_KEY_MAX \<and>
     length (cf_pid_file c) < PROF_PATH_MAX \<and> length (cf_log_file c) < PROF_PATH_MAX \<and>
     length (cf_config_file c) < PROF_PATH_MAX \<and> acl_ok (cf_acl c) \<and>
     in_i32 (cf_n_ctx c) \<and> in_i32 (cf_n_gpu_layers c) \<and> in_i32 (cf_n_batch c) \<and>
     in_i32 (cf_n_threads c) \<and> in_i32 (cf_top_k c) \<and> in_i32 (cf_max_tokens c) \<and>
     in_i32 (cf_max_inference_seconds c) \<and> in_i32 (cf_stats_interval c) \<and>
     in_i32 (cf_daemonize c) \<and> in_i32 (cf_log_level c)"

lemma length_set_string [bounds]: "0 < n \<Longrightarrow> length (set_string n v) < n"
  by (simp add: set_string_def snprintf_s_def)

lemma acl_tokens_nonempty: "t \<in> set (acl_tokens s) \<Longrightarrow> t \<noteq> []"
  by (simp add: acl_tokens_def)

lemma acl_ok_add [bounds]:
  assumes "acl_ok acl"
  shows "acl_ok (acl_add s acl)"
proof -
  define L where "L = acl @ map (snprintf_s PROF_ADDR_MAX) (acl_tokens s)"
  have eq: "acl_add s acl = take PROF_ACL_MAX L"
    using assms by (simp add: acl_ok_def acl_add_spec L_def)
  have "ip \<noteq> [] \<and> length ip < PROF_ADDR_MAX" if "ip \<in> set L" for ip
  proof (cases "ip \<in> set acl")
    case True
    with assms show ?thesis by (simp add: acl_ok_def)
  next
    case False
    with that obtain t where "t \<noteq> []" "ip = take 63 t"
      by (auto simp: L_def snprintf_s_def dest: acl_tokens_nonempty)
    then show ?thesis by simp
  qed
  then show ?thesis by (auto simp: eq acl_ok_def dest: in_set_takeD)
qed

lemma acl_ok_parse [bounds]: "acl_ok acl \<Longrightarrow> acl_ok (parse_allow_ip v acl)"
  by (simp add: parse_allow_ip_def bounds)

lemma config_wf_upd [step_simps]:
  "config_wf c \<Longrightarrow> length s < PROF_PATH_MAX \<Longrightarrow> config_wf (c\<lparr>cf_model_path := s\<rparr>)"
  "config_wf c \<Longrightarrow> length s < PROF_NAME_MAX \<Longrightarrow> config_wf (c\<lparr>cf_model_alias := s\<rparr>)"
  "config_wf c \<Longrightarrow> length s < PROF_ADDR_MAX \<Longrightarrow> config_wf (c\<lparr>cf_listen_addr := s\<rparr>)"
  "config_wf c \<Longrightarrow> length s < PROF_KEY_MAX \<Longrightarrow> config_wf (c\<lparr>cf_api_key := s\<rparr>)"
  "config_wf c \<Longrightarrow> length s < PROF_PATH_MAX \<Longrightarrow> config_wf (c\<lparr>cf_pid_file := s\<rparr>)"
  "config_wf c \<Longrightarrow> length s < PROF_PATH_MAX \<Longrightarrow> config_wf (c\<lparr>cf_log_file := s\<rparr>)"
  "config_wf c \<Longrightarrow> length s < PROF_PATH_MAX \<Longrightarrow> config_wf (c\<lparr>cf_config_file := s\<rparr>)"
  "config_wf c \<Longrightarrow> config_wf (c\<lparr>cf_acl := parse_allow_ip s (cf_acl c)\<rparr>)"
  "config_wf c \<Longrightarrow> in_i32 n \<Longrightarrow> config_wf (c\<lparr>cf_n_ctx := n\<rparr>)"
  "config_wf c \<Longrightarrow> in_i32 n \<Longrightarrow> config_wf (c\<lparr>cf_n_gpu_layers := n\<rparr>)"
  "config_wf c \<Longrightarrow> in_i32 n \<Longrightarrow> config_wf (c\<lparr>cf_n_batch := n\<rparr>)"
  "config_wf c \<Longrightarrow> in_i32 n \<Longrightarrow> config_wf (c\<lparr>cf_n_threads := n\<rparr>)"
  "config_wf c \<Longrightarrow> in_i32 n \<Longrightarrow> config_wf (c\<lparr>cf_top_k := n\<rparr>)"
  "config_wf c \<Longrightarrow> in_i32 n \<Longrightarrow> config_wf (c\<lparr>cf_max_tokens := n\<rparr>)"
  "config_wf c \<Longrightarrow> in_i32 n \<Longrightarrow> config_wf (c\<lparr>cf_max_inference_seconds := n\<rparr>)"
  "config_wf c \<Longrightarrow> in_i32 n \<Longrightarrow> config_wf (c\<lparr>cf_stats_interval := n\<rparr>)"
  "config_wf c \<Longrightarrow> in_i32 n \<Longrightarrow> config_wf (c\<lparr>cf_daemonize := n\<rparr>)"
  "config_wf c \<Longrightarrow> in_i32 n \<Longrightarrow> config_wf (c\<lparr>cf_log_level := n\<rparr>)"
  "config_wf c \<Longrightarrow> config_wf (c\<lparr>cf_temperature := x\<rparr>)"
  "config_wf c \<Longrightarrow> config_wf (c\<lparr>cf_top_p := x\<rparr>)"
  "config_wf c \<Longrightarrow> config_wf (c\<lparr>cf_repeat_penalty := x\<rparr>)"
  by (simp_all add: config_wf_def acl_ok_parse)

lemmas config_wf_simps = config_wf_upd length_set_string strtol_i32_range

lemma config_wf_field: "config_wf c \<Longrightarrow> config_wf (set_config_field c k v)"
  by (simp add: set_config_field_def config_wf_simps)

lemma config_wf_line: "config_wf c \<Longrightarrow> config_wf (config_line c l)"
  by (simp add: config_line_def Let_def config_wf_field)

lemma config_wf_cli_option: "config_wf c \<Longrightarrow> cli_option c a v = Some c' \<Longrightarrow> config_wf c'"
proof -
  assume wf: "config_wf c" and opt: "cli_option c a v = Some c'"
  have "pred_option config_wf (cli_option c a v)"
    using wf by (simp add: cli_option_def config_wf_simps)
  with opt show ?thesis by simp
qed

lemma config_wf_daemonize: "config_wf c \<Longrightarrow> config_wf (c\<lparr>cf_daemonize := 1\<rparr>)"
  by (simp add: config_wf_upd in_i32_def INT32_MIN_def INT32_MAX_def)

lemma config_wf_defaults: "config_wf config_defaults"
  by (simp add: config_wf_def config_defaults_def acl_ok_def in_i32_def INT32_MIN_def INT32_MAX_def)

lemma config_wf_load: "config_wf c \<Longrightarrow> config_load_file c f = Some c' \<Longrightarrow> config_wf c'"
proof -
  assume wf: "config_wf c" and load: "config_load_file c f = Some c'"
  have "config_wf (foldl config_line c ls)" for ls
    using wf by (induction ls arbitrary: c) (simp_all add: config_wf_line)
  with load show ?thesis by (auto simp: config_load_file_def split: option.splits)
qed

lemma config_wf_cli: "config_wf c \<Longrightarrow> config_parse_cli c args = CliOk c' \<Longrightarrow> config_wf c'"
  by (induction c args rule: config_parse_cli.induct)
     (auto intro: config_wf_cli_option config_wf_daemonize split: if_splits option.splits)

section \<open>Command line\<close>

lemma config_parse_cli_append:
  "config_parse_cli c as = CliOk c' \<Longrightarrow> config_parse_cli c (as @ bs) = config_parse_cli c' bs"
proof (induction c as rule: config_parse_cli.induct)
  case (2 c arg)
  then show ?case by (cases bs) (auto split: if_splits)
qed (auto split: if_splits option.splits)

definition value_option :: "string \<Rightarrow> bool" where
  "value_option opt \<longleftrightarrow> opt \<notin> {''--help'', ''-h'', ''--recommend'', ''--gen-api-key'', ''--daemonize''}"

lemma config_parse_cli_option:
  "value_option opt \<Longrightarrow> cli_option c opt v = Some c' \<Longrightarrow> config_parse_cli c [opt, v] = CliOk c'"
  by (simp add: value_option_def)

definition cli_ini_keys :: "(string \<times> string) list" where
  "cli_ini_keys = [(''--model'', ''model_path''), (''--model-alias'', ''model_alias''),
     (''--n-ctx'', ''n_ctx''), (''--fing-longer'', ''n_ctx''), (''--n-gpu-layers'', ''n_gpu_layers''),
     (''--n-batch'', ''n_batch''), (''--n-threads'', ''n_threads''),
     (''--temperature'', ''temperature''), (''--top-p'', ''top_p''), (''--top-k'', ''top_k''),
     (''--repeat-penalty'', ''repeat_penalty''), (''--max-tokens'', ''max_tokens''),
     (''--listen-addr'', ''listen_addr''), (''--api-key'', ''api_key''),
     (''--max-inference-seconds'', ''max_inference_seconds''),
     (''--stats-interval'', ''stats_interval''), (''--pid-file'', ''pid_file''),
     (''--log-level'', ''log_level''), (''--log-file'', ''log_file''), (''--allow-ip'', ''allow_ip'')]"

lemma cli_option_is_field:
  "(opt, key) \<in> set cli_ini_keys \<Longrightarrow>
   value_option opt \<and> cli_option c opt v = Some (set_config_field c key v)"
proof -
  have "\<forall>p \<in> set cli_ini_keys.
      value_option (fst p) \<and> cli_option c (fst p) v = Some (set_config_field c (snd p) v)"
    by (simp add: cli_ini_keys_def value_option_def cli_option_def set_config_field_def)
  then show "(opt, key) \<in> set cli_ini_keys \<Longrightarrow> ?thesis" by auto
qed

section \<open>Reading back a written file\<close>

definition ini_line :: "string \<times> string \<Rightarrow> string" where
  "ini_line kv = fst kv @ '' = '' @ snd kv @ [NL]"

text \<open>What a key and a value must be to survive a round trip through a line.\<close>

definition ini_entry_ok :: "string \<times> string \<Rightarrow> bool" where
  "ini_entry_ok kv \<longleftrightarrow> (case kv of (k, v) \<Rightarrow>
     k \<noteq> [] \<and> trimmed k \<and> trimmed v \<and> hd k \<noteq> CHR ''#'' \<and> hd k \<noteq> CHR '';'' \<and>
     CHR ''='' \<notin> set k \<and> is_cstr (k @ v) \<and> NL \<notin> set (k @ v) \<and> length k + length v < 1020)"

lemma fgets_all_line:
  assumes "NL \<notin> set l" and "length l < n - 1"
  shows "fgets_all n (l @ NL # rest) = (l @ [NL]) # fgets_all n rest"
proof -
  have "takeWhile (\<lambda>c. c \<noteq> NL) (l @ NL # rest) = l"
    using assms(1) by (subst takeWhile_append2) auto
  then have "fgets_len n (l @ NL # rest) = Suc (length l)"
    using assms(2) by (simp add: fgets_len_def)
  then show ?thesis using assms(2) by (subst fgets_all.simps) simp
qed

lemma blank_simps [simp]: "blank [NL]" "blank '' ''" "blank [CHR '' '', NL]" "blank []"
  by (simp_all add: blank_def isspace_def NL_def)

lemma config_line_ini:
  assumes "ini_entry_ok (k, v)"
  shows "config_line c (ini_line (k, v)) = set_config_field c k v"
proof -
  note ok = assms [unfolded ini_entry_ok_def prod.case]
  have cs: "cstr (ini_line (k, v)) = ini_line (k, v)"
    using ok by (intro cstr_id) (auto simp: ini_line_def is_cstr_def NL_def NUL_def)
  have "trimmed (k @ '' ='' @ (if v = [] then [] else '' '' @ v))"
    using ok by (auto simp: trimmed_def isspace_def)
  then have p: "trim (ini_line (k, v)) = k @ '' ='' @ (if v = [] then [] else '' '' @ v)"
    using trim_surround [of "k @ '' ='' @ (if v = [] then [] else '' '' @ v)" "[]"
        "if v = [] then '' '' @ [NL] else [NL]"]
    by (cases "v = []") (simp_all add: ini_line_def)
  have nk: "CHR ''='' \<notin> set k" using ok by simp
  have key: "takeWhile (\<lambda>c. c \<noteq> CHR ''='') (k @ '' ='' @ w) = k @ '' ''"
    and rest: "dropWhile (\<lambda>c. c \<noteq> CHR ''='') (k @ '' ='' @ w) = ''='' @ w" for w
    using nk by (induction k) auto
  have "trim (k @ '' '') = k" using trim_surround [of k "[]" "'' ''"] ok by simp
  moreover have "trim ('' '' @ v) = v" using trim_surround [of v "'' ''" "[]"] ok by simp
  ultimately show ?thesis
    using ok unfolding config_line_def cs p Let_def key rest
    by (cases k) (auto simp: trim_id trimmed_def)
qed

text \<open>
  C24. Loading what was written: for any list of admissible key/value pairs, reading the file
  that holds one \<open>key = value\<close> line per pair sets exactly these fields, in order.
\<close>

theorem config_file_round_trip:
  "\<forall>kv \<in> set kvs. ini_entry_ok kv \<Longrightarrow>
   config_load_file c (Some (concat (map ini_line kvs))) =
     Some (foldl (\<lambda>c kv. set_config_field c (fst kv) (snd kv)) c kvs)"
proof (induction kvs arbitrary: c)
  case Nil
  then show ?case by (simp add: config_load_file_def fgets_all.simps)
next
  case (Cons kv kvs)
  obtain k v where kv: "kv = (k, v)" by (cases kv)
  with Cons.prems have ok: "ini_entry_ok (k, v)" by simp
  then have "NL \<notin> set (k @ '' = '' @ v)" "length (k @ '' = '' @ v) < 1023"
    by (auto simp: ini_entry_ok_def NL_def)
  then have "fgets_all 1024 (concat (map ini_line (kv # kvs))) =
      ini_line kv # fgets_all 1024 (concat (map ini_line kvs))"
    using fgets_all_line [of "k @ '' = '' @ v" 1024] by (simp add: kv ini_line_def)
  then show ?case
    using Cons.IH [of "set_config_field c k v"] Cons.prems config_line_ini [OF ok, of c]
    by (simp add: config_load_file_def kv)
qed

theorem config_file_round_trip_witness:
  "config_load_file config_defaults (Some (''n_ctx = 8192'' @ [NL] @ ''api_key = k'' @ [NL])) =
     Some (config_defaults\<lparr>cf_n_ctx := 8192, cf_api_key := ''k''\<rparr>)"
proof -
  have "strtol_i32 ''8192'' = 8192" by code_simp
  moreover have "\<forall>kv \<in> set [(''n_ctx'', ''8192''), (''api_key'', ''k'')]. ini_entry_ok kv"
    by (simp add: ini_entry_ok_def trimmed_def isspace_def is_cstr_def NUL_def NL_def)
  note config_file_round_trip [OF this, of config_defaults]
  ultimately show ?thesis
    by (simp add: ini_line_def set_config_field_def set_string_def snprintf_s_def)
qed



text \<open>
  C34. An access list is read as written: the text is split at commas, each part trimmed,
  blank parts dropped, each address cut to its 63 bytes, and the table keeps the first 16
  entries overall, those of earlier lists first.
\<close>

theorem allow_ip_reads_list:
  "length acl \<le> PROF_ACL_MAX \<Longrightarrow>
   parse_allow_ip v acl =
     take PROF_ACL_MAX (acl @ map (snprintf_s PROF_ADDR_MAX) (acl_tokens (snprintf_s 1024 v)))"
  by (simp add: parse_allow_ip_def acl_add_spec)

theorem allow_ip_reads_list_witness:
  "parse_allow_ip ''192.168.1.50, 127.0.0.1,'' [] = [''192.168.1.50'', ''127.0.0.1'']"
proof -
  have "acl_tokens ''192.168.1.50, 127.0.0.1,'' = [''192.168.1.50'', ''127.0.0.1'']"
    by (simp add: acl_tokens_def trim_def isspace_def)
  then show ?thesis
    using allow_ip_reads_list [of "[]" "''192.168.1.50, 127.0.0.1,''"]
    by (simp add: snprintf_s_def)
qed

text \<open>
  A comment line longer than the 1023 bytes that one \<open>fgets\<close> call stores is cut there,
  and its remainder is read as a line of its own: text inside a comment can set a field.
\<close>

theorem long_comment_sets_field:
  "config_load_file c (Some (CHR ''#'' # replicate 1022 (CHR ''-'') @ ''n_ctx=1'' @ [NL])) =
     Some (c\<lparr>cf_n_ctx := 1\<rparr>)"
proof -
  let ?l = "CHR ''#'' # replicate 1022 (CHR ''-'')"
  have "takeWhile (\<lambda>c. c \<noteq> NL) (?l @ ''n_ctx=1'' @ [NL]) = ?l @ ''n_ctx=1''"
    by (simp add: takeWhile_append NL_def)
  then have "fgets_len 1024 (?l @ ''n_ctx=1'' @ [NL]) = 1023" by (simp add: fgets_len_def)
  then have "fgets_all 1024 (?l @ ''n_ctx=1'' @ [NL]) = ?l # fgets_all 1024 (''n_ctx=1'' @ [NL])"
    by (subst fgets_all.simps) simp
  also have "fgets_all 1024 (''n_ctx=1'' @ [NL]) = [''n_ctx=1'' @ [NL]]"
    using fgets_all_line [of "''n_ctx=1''" 1024 "[]"] by (simp add: NL_def fgets_all.simps)
  finally have chunks: "fgets_all 1024 (?l @ ''n_ctx=1'' @ [NL]) = [?l, ''n_ctx=1'' @ [NL]]" .
  have "trimmed ?l" by (simp add: trimmed_def isspace_def)
  moreover have "cstr ?l = ?l" by (rule cstr_id) (simp add: is_cstr_def NUL_def)
  ultimately have "config_line c ?l = c" by (simp add: config_line_def trim_id)
  moreover have "config_line c (''n_ctx=1'' @ [NL]) = c\<lparr>cf_n_ctx := 1\<rparr>"
  proof -
    have "strtol_i32 ''1'' = 1" by code_simp
    then show ?thesis
      by (simp add: config_line_def cstr_def NUL_def NL_def trim_def isspace_def set_config_field_def)
  qed
  ultimately show ?thesis using chunks by (simp add: config_load_file_def)
qed

end
