(* ===== verification/Api_Types.thy ===== *)
theory Api_Types
  imports Cfloat
begin

text \<open>
  Request and response types: src/src/api_types.h and src/src/api_types.c. The JSON library
  cJSON is not part of the repository: its reading side is a record of functions over an
  abstract type of items (\<open>cjson\<close>), its printing side a function from the tree that the code
  builds with \<open>cJSON_Add*\<close> calls. The counts \<open>message_count\<close> and \<open>stop_count\<close> are the
  lengths of the lists \<open>cr_messages\<close> and \<open>cr_stop\<close>.
\<close>

abbreviation PROF_MODEL_MAX :: nat where "PROF_MODEL_MAX \<equiv> 128"
abbreviation PROF_ROLE_MAX :: nat where "PROF_ROLE_MAX \<equiv> 32"
abbreviation PROF_CONTENT_MAX :: nat where "PROF_CONTENT_MAX \<equiv> 65536"
abbreviation PROF_STOP_MAX :: nat where "PROF_STOP_MAX \<equiv> 4"
abbreviation PROF_STOP_LEN :: nat where "PROF_STOP_LEN \<equiv> 64"
abbreviation PROF_ID_MAX :: nat where "PROF_ID_MAX \<equiv> 64"
abbreviation PROF_MAX_BODY_BYTES :: nat where "PROF_MAX_BODY_BYTES \<equiv> 1048576"
abbreviation PROF_MAX_MESSAGES :: nat where "PROF_MAX_MESSAGES \<equiv> 64"
abbreviation PROF_MAX_PROMPT_BYTES :: int where "PROF_MAX_PROMPT_BYTES \<equiv> 262144"
abbreviation PROF_MAX_CONNECTIONS :: int where "PROF_MAX_CONNECTIONS \<equiv> 32"

section \<open>Types\<close>

record chat_message =
  msg_role :: string
  msg_content :: string

record chat_request =
  cr_model :: string
  cr_messages :: "chat_message list"
  cr_temperature :: fl
  cr_top_p :: fl
  cr_max_tokens :: int
  cr_frequency_penalty :: fl
  cr_presence_penalty :: fl
  cr_repeat_penalty :: fl
  cr_stop :: "string list"
  cr_stream :: bool

record completion_request =
  pr_model :: string
  pr_prompt :: string
  pr_temperature :: fl
  pr_top_p :: fl
  pr_max_tokens :: int
  pr_repeat_penalty :: fl
  pr_stop :: "string list"
  pr_stream :: bool

record usage =
  us_prompt_tokens :: int
  us_completion_tokens :: int
  us_total_tokens :: int

text \<open>The two response types differ only in the name of the text field.\<close>

record chat_response =
  rs_id :: string
  rs_model :: string
  rs_created :: int
  rs_content :: string
  rs_finish_reason :: string
  rs_usage :: usage

record completion_response =
  ps_id :: string
  ps_model :: string
  ps_created :: int
  ps_text :: string
  ps_finish_reason :: string
  ps_usage :: usage

record stream_chunk =
  ch_id :: string
  ch_model :: string
  ch_created :: int
  ch_delta_content :: string
  ch_finish_reason :: string
  ch_is_chat :: bool

section \<open>The JSON library\<close>

text \<open>
  \<open>cj_string\<close>, \<open>cj_array\<close>, \<open>cj_number\<close> and \<open>cj_bool\<close> are a type test together with the
  accessor that the code applies after it.
\<close>

record 'j cjson =
  cj_parse :: "string \<Rightarrow> 'j option"
  cj_item :: "'j \<Rightarrow> string \<Rightarrow> 'j option"
  cj_string :: "'j \<Rightarrow> string option"
  cj_array :: "'j \<Rightarrow> 'j list option"
  cj_number :: "'j \<Rightarrow> fl option"
  cj_bool :: "'j \<Rightarrow> bool option"

text \<open>The documented promise used here: a \<open>valuestring\<close> is a NUL-terminated string.\<close>

definition cjson_strings_ok :: "'j cjson \<Rightarrow> bool" where
  "cjson_strings_ok J \<longleftrightarrow> (\<forall>j s. cj_string J j = Some s \<longrightarrow> is_cstr s)"

definition get_string :: "'j cjson \<Rightarrow> 'j \<Rightarrow> string \<Rightarrow> string option" where
  "get_string J j key = Option.bind (cj_item J j key) (cj_string J)"

definition get_array :: "'j cjson \<Rightarrow> 'j \<Rightarrow> string \<Rightarrow> 'j list option" where
  "get_array J j key = Option.bind (cj_item J j key) (cj_array J)"

definition get_number :: "'j cjson \<Rightarrow> 'j \<Rightarrow> string \<Rightarrow> fl option" where
  "get_number J j key = Option.bind (cj_item J j key) (cj_number J)"

definition get_bool :: "'j cjson \<Rightarrow> 'j \<Rightarrow> string \<Rightarrow> bool option" where
  "get_bool J j key = Option.bind (cj_item J j key) (cj_bool J)"

section \<open>Parsing\<close>

text \<open>
  The outcome of a parser: a request, -1, or undefined behaviour, which the conversion
  \<open>(int32_t)jmax->valuedouble\<close> has for a number outside the range of \<open>int32_t\<close>.
\<close>

datatype 'r parse_result = ParseOk 'r | ParseFail | ParseUndef

definition valid_role :: "string \<Rightarrow> bool" where
  "valid_role role \<longleftrightarrow> role = ''system'' \<or> role = ''user'' \<or> role = ''assistant''"

definition float_field :: "fl option \<Rightarrow> fl" where
  "float_field v = (case v of None \<Rightarrow> FNaN | Some d \<Rightarrow> narrow d)"

definition max_tokens_field :: "fl option \<Rightarrow> int option" where
  "max_tokens_field v = (case v of None \<Rightarrow> Some (- 1) | Some d \<Rightarrow> d2i32 d)"

text \<open>The loop over the messages; \<open>None\<close> stands for its early returns of -1.\<close>

fun parse_messages :: "'j cjson \<Rightarrow> 'j list \<Rightarrow> chat_message list option" where
  "parse_messages J [] = Some []"
| "parse_messages J (m # ms) = (case get_string J m ''role'' of
     None \<Rightarrow> None
   | Some role \<Rightarrow>
       if \<not> valid_role role then None
       else case parse_messages J ms of
              None \<Rightarrow> None
            | Some rest \<Rightarrow> Some (\<lparr>msg_role = snprintf_s PROF_ROLE_MAX role,
                msg_content = (case get_string J m ''content'' of
                   None \<Rightarrow> []
                 | Some c \<Rightarrow> snprintf_s PROF_CONTENT_MAX c)\<rparr> # rest))"

text \<open>At most four stop sequences are kept; an entry that is no string stays empty.\<close>

definition parse_stop_array :: "'j cjson \<Rightarrow> 'j list \<Rightarrow> string list" where
  "parse_stop_array J js = map (\<lambda>j. case cj_string J j of
       None \<Rightarrow> [] | Some s \<Rightarrow> snprintf_s PROF_STOP_LEN s) (take PROF_STOP_MAX js)"

definition chat_stop :: "'j cjson \<Rightarrow> 'j \<Rightarrow> string list" where
  "chat_stop J doc = (case get_array J doc ''stop'' of
     Some js \<Rightarrow> parse_stop_array J js
   | None \<Rightarrow> (case get_string J doc ''stop'' of
       Some s \<Rightarrow> [snprintf_s PROF_STOP_LEN s]
     | None \<Rightarrow> []))"

definition model_field :: "'j cjson \<Rightarrow> 'j \<Rightarrow> string" where
  "model_field J doc = (case get_string J doc ''model'' of
     None \<Rightarrow> [] | Some s \<Rightarrow> snprintf_s PROF_MODEL_MAX s)"

definition stream_field :: "'j cjson \<Rightarrow> 'j \<Rightarrow> bool" where
  "stream_field J doc = (case get_bool J doc ''stream'' of None \<Rightarrow> False | Some b \<Rightarrow> b)"

text \<open>\<open>alloc\<close> says whether the \<open>calloc\<close> of the message array succeeds.\<close>

definition chat_request_parse :: "'j cjson \<Rightarrow> bool \<Rightarrow> string \<Rightarrow> chat_request parse_result" where
  "chat_request_parse J alloc body = (case cj_parse J body of
     None \<Rightarrow> ParseFail
   | Some doc \<Rightarrow> (case get_array J doc ''messages'' of
       None \<Rightarrow> ParseFail
     | Some js \<Rightarrow>
         if length js = 0 then ParseFail
         else if PROF_MAX_MESSAGES < length js then ParseFail
         else if \<not> alloc then ParseFail
         else case parse_messages J js of
                None \<Rightarrow> ParseFail
              | Some msgs \<Rightarrow> (case max_tokens_field (get_number J doc ''max_tokens'') of
                  None \<Rightarrow> ParseUndef
                | Some mt \<Rightarrow> ParseOk \<lparr>
                    cr_model = model_field J doc,
                    cr_messages = msgs,
                    cr_temperature = float_field (get_number J doc ''temperature''),
                    cr_top_p = float_field (get_number J doc ''top_p''),
                    cr_max_tokens = mt,
                    cr_frequency_penalty = float_field (get_number J doc ''frequency_penalty''),
                    cr_presence_penalty = float_field (get_number J doc ''presence_penalty''),
                    cr_repeat_penalty = float_field (get_number J doc ''repeat_penalty''),
                    cr_stop = chat_stop J doc,
                    cr_stream = stream_field J doc\<rparr>)))"

definition completion_request_parse :: "'j cjson \<Rightarrow> string \<Rightarrow> completion_request parse_result" where
  "completion_request_parse J body = (case cj_parse J body of
     None \<Rightarrow> ParseFail
   | Some doc \<Rightarrow> (case get_string J doc ''prompt'' of
       None \<Rightarrow> ParseFail
     | Some prompt \<Rightarrow> (case max_tokens_field (get_number J doc ''max_tokens'') of
         None \<Rightarrow> ParseUndef
       | Some mt \<Rightarrow> ParseOk \<lparr>
           pr_model = model_field J doc,
           pr_prompt = snprintf_s PROF_CONTENT_MAX prompt,
           pr_temperature = float_field (get_number J doc ''temperature''),
           pr_top_p = float_field (get_number J doc ''top_p''),
           pr_max_tokens = mt,
           pr_repeat_penalty = float_field (get_number J doc ''repeat_penalty''),
           pr_stop = (case get_array J doc ''stop'' of
              None \<Rightarrow> [] | Some js \<Rightarrow> parse_stop_array J js),
           pr_stream = stream_field J doc\<rparr>)))"

definition chat_request_free :: "chat_request \<Rightarrow> chat_request" where
  "chat_request_free req = req\<lparr>cr_messages := []\<rparr>"

section \<open>Serialization\<close>

text \<open>The tree built by the \<open>cJSON_Create*\<close> and \<open>cJSON_Add*\<close> calls.\<close>

datatype jv = JStr string | JNum fl | JNull | JArr "jv list" | JObj "(string \<times> jv) list"

definition jint :: "int \<Rightarrow> jv" where
  "jint n = JNum (f64 (of_int n))"

definition usage_json :: "usage \<Rightarrow> jv" where
  "usage_json u = JObj [(''prompt_tokens'', jint (us_prompt_tokens u)),
     (''completion_tokens'', jint (us_completion_tokens u)),
     (''total_tokens'', jint (us_total_tokens u))]"

definition chat_response_json :: "chat_response \<Rightarrow> jv" where
  "chat_response_json r = JObj [
     (''id'', JStr (rs_id r)), (''object'', JStr ''chat.completion''),
     (''created'', jint (rs_created r)), (''model'', JStr (rs_model r)),
     (''choices'', JArr [JObj [(''index'', jint 0),
        (''message'', JObj [(''role'', JStr ''assistant''), (''content'', JStr (rs_content r))]),
        (''finish_reason'', JStr (rs_finish_reason r))]]),
     (''usage'', usage_json (rs_usage r))]"

definition completion_response_json :: "completion_response \<Rightarrow> jv" where
  "completion_response_json r = JObj [
     (''id'', JStr (ps_id r)), (''object'', JStr ''text_completion''),
     (''created'', jint (ps_created r)), (''model'', JStr (ps_model r)),
     (''choices'', JArr [JObj [(''index'', jint 0), (''text'', JStr (ps_text r)),
        (''finish_reason'', JStr (ps_finish_reason r))]]),
     (''usage'', usage_json (ps_usage r))]"

definition stream_chunk_json :: "stream_chunk \<Rightarrow> jv" where
  "stream_chunk_json c = JObj [
     (''id'', JStr (ch_id c)),
     (''object'', JStr (if ch_is_chat c then ''chat.completion.chunk'' else ''text_completion.chunk'')),
     (''created'', jint (ch_created c)), (''model'', JStr (ch_model c)),
     (''choices'', JArr [JObj ([(''index'', jint 0)] @
        (if ch_is_chat c
         then [(''delta'', JObj (if ch_delta_content c \<noteq> []
                  then [(''content'', JStr (ch_delta_content c))] else []))]
         else [(''text'', JStr (ch_delta_content c))]) @
        [(''finish_reason'', if ch_finish_reason c \<noteq> [] then JStr (ch_finish_reason c) else JNull)])])]"

definition models_list_json :: "string \<Rightarrow> jv" where
  "models_list_json model_id = JObj [(''object'', JStr ''list''),
     (''data'', JArr [JObj [(''id'', JStr model_id), (''object'', JStr ''model''),
        (''created'', jint 0), (''owned_by'', JStr ''local'')]])]"

definition error_json :: "int \<Rightarrow> string \<Rightarrow> string \<Rightarrow> jv" where
  "error_json code message type = JObj [(''error'', JObj [(''message'', JStr message),
     (''type'', JStr type), (''code'', jint code)])]"

text \<open>
  Each \<open>*_to_json\<close> function returns NULL when its root object cannot be created, and else
  what \<open>cJSON_PrintUnformatted\<close> (the parameter \<open>pr\<close>) returns. The nested objects are not
  checked by the code, which relies on cJSON accepting NULL; their allocation is taken to
  succeed here.
\<close>

definition to_json :: "(jv \<Rightarrow> string option) \<Rightarrow> bool \<Rightarrow> jv \<Rightarrow> string option" where
  "to_json pr root_ok tree = (if root_ok then pr tree else None)"

section \<open>Request identifiers\<close>

text \<open>
  \<open>urandom\<close> is what reading 16 bytes from \<open>/dev/urandom\<close> gave (\<open>None\<close> if it cannot be
  opened), \<open>ts\<close> the 16 bytes of the \<open>struct timespec\<close> used as a fallback. A short read is
  replaced as a whole, because both are 16 bytes long.
\<close>

definition request_id_bytes :: "8 word list option \<Rightarrow> 8 word list \<Rightarrow> 8 word list" where
  "request_id_bytes urandom ts = (case urandom of
     Some bs \<Rightarrow> if length bs < 16 then ts else bs
   | None \<Rightarrow> ts)"

definition generate_request_id ::
    "nat \<Rightarrow> string \<Rightarrow> 8 word list option \<Rightarrow> 8 word list \<Rightarrow> string" where
  "generate_request_id len pfx urandom ts =
     snprintf_s len (pfx @ ''-'' @ concat (map hex2 (take 12 (request_id_bytes urandom ts))))"

section \<open>What a parsed request satisfies\<close>

definition message_ok :: "chat_message \<Rightarrow> bool" where
  "message_ok m \<longleftrightarrow> valid_role (msg_role m) \<and> length (msg_content m) < PROF_CONTENT_MAX \<and>
     is_cstr (msg_content m)"

definition stops_ok :: "string list \<Rightarrow> bool" where
  "stops_ok ss \<longleftrightarrow> length ss \<le> PROF_STOP_MAX \<and> (\<forall>s \<in> set ss. length s < PROF_STOP_LEN \<and> is_cstr s)"

definition chat_request_ok :: "chat_request \<Rightarrow> bool" where
  "chat_request_ok r \<longleftrightarrow> length (cr_model r) < PROF_MODEL_MAX \<and>
     1 \<le> length (cr_messages r) \<and> length (cr_messages r) \<le> PROF_MAX_MESSAGES \<and>
     (\<forall>m \<in> set (cr_messages r). message_ok m) \<and> in_i32 (cr_max_tokens r) \<and> stops_ok (cr_stop r)"

definition completion_request_ok :: "completion_request \<Rightarrow> bool" where
  "completion_request_ok r \<longleftrightarrow> length (pr_model r) < PROF_MODEL_MAX \<and>
     length (pr_prompt r) < PROF_CONTENT_MAX \<and> is_cstr (pr_prompt r) \<and>
     in_i32 (pr_max_tokens r) \<and> stops_ok (pr_stop r)"

lemma valid_role_cases: "valid_role r \<longleftrightarrow> r \<in> {''system'', ''user'', ''assistant''}"
  by (auto simp: valid_role_def)

lemma valid_role_kept [c_simps]: "valid_role r \<Longrightarrow> snprintf_s PROF_ROLE_MAX r = r"
  by (auto simp: valid_role_def snprintf_s_def)

lemma get_string_cstr: "cjson_strings_ok J \<Longrightarrow> get_string J j k = Some s \<Longrightarrow> is_cstr s"
  by (auto simp: cjson_strings_ok_def get_string_def option_bind_Some_iff)

lemma length_snprintf_less [bounds]: "0 < n \<Longrightarrow> length (snprintf_s n s) < n"
  by (simp add: snprintf_s_def)

lemma parse_messages_length: "parse_messages J js = Some ms \<Longrightarrow> length ms = length js"
  by (induction js arbitrary: ms) (auto split: option.splits if_splits)

lemma parse_messages_ok:
  "cjson_strings_ok J \<Longrightarrow> parse_messages J js = Some ms \<Longrightarrow> \<forall>m \<in> set ms. message_ok m"
proof (induction js arbitrary: ms)
  case (Cons j js)
  then obtain role rest where role: "get_string J j ''role'' = Some role" "valid_role role"
    and rest: "parse_messages J js = Some rest"
    and ms: "ms = \<lparr>msg_role = snprintf_s PROF_ROLE_MAX role, msg_content =
      (case get_string J j ''content'' of None \<Rightarrow> [] | Some c \<Rightarrow> snprintf_s PROF_CONTENT_MAX c)\<rparr> # rest"
    by (auto split: option.splits if_splits)
  have "message_ok (hd ms)"
    using role get_string_cstr [OF Cons.prems(1), of j "''content''"]
    by (auto simp: ms message_ok_def valid_role_kept length_snprintf_less is_cstr_def [of "[]"]
        split: option.split)
  with Cons.IH [OF Cons.prems(1) rest] ms show ?case by simp
qed simp

lemma parse_stop_array_ok: "cjson_strings_ok J \<Longrightarrow> stops_ok (parse_stop_array J js)"
  by (auto simp: stops_ok_def parse_stop_array_def cjson_strings_ok_def length_snprintf_less
      is_cstr_def [of "[]"] split: option.splits)

lemma stops_ok_Nil: "stops_ok []"
  by (simp add: stops_ok_def)

lemma stops_ok_single: "is_cstr s \<Longrightarrow> stops_ok [snprintf_s PROF_STOP_LEN s]"
  by (simp add: stops_ok_def length_snprintf_less)

lemma chat_stop_ok: "cjson_strings_ok J \<Longrightarrow> stops_ok (chat_stop J j)"
  using get_string_cstr [of J j "''stop''"]
  by (auto simp: chat_stop_def parse_stop_array_ok stops_ok_Nil stops_ok_single split: option.split)

lemma max_tokens_range: "max_tokens_field v = Some n \<Longrightarrow> in_i32 n"
  by (cases v) (auto simp: max_tokens_field_def in_i32_def [of "- 1"] INT32_MIN_def INT32_MAX_def
      dest: d2i32_range)

lemma model_field_length: "length (model_field J j) < PROF_MODEL_MAX"
  by (simp add: model_field_def length_snprintf_less split: option.split)

text \<open>When \<open>chat_request_parse\<close> returns -1: the early returns of the code, in its order.\<close>

definition bad_message :: "'j cjson \<Rightarrow> 'j \<Rightarrow> bool" where
  "bad_message J m \<longleftrightarrow>
     (\<forall>r \<in> {''system'', ''user'', ''assistant''}. get_string J m ''role'' \<noteq> Some r)"

definition chat_request_bad :: "'j cjson \<Rightarrow> bool \<Rightarrow> string \<Rightarrow> bool" where
  "chat_request_bad J alloc body \<longleftrightarrow> (case cj_parse J body of
     None \<Rightarrow> True
   | Some j \<Rightarrow> (case get_array J j ''messages'' of
       None \<Rightarrow> True
     | Some js \<Rightarrow> js = [] \<or> 64 < length js \<or> \<not> alloc \<or>
         (\<exists>m \<in> set js. bad_message J m)))"

lemma parse_messages_None:
  "parse_messages J js = None \<longleftrightarrow> (\<exists>m \<in> set js. bad_message J m)"
  by (induction js) (auto simp: bad_message_def valid_role_cases split: option.splits)

lemma parsed_chat_ok:
  "cjson_strings_ok J \<Longrightarrow> chat_request_parse J alloc body = ParseOk r \<Longrightarrow> chat_request_ok r"
  by (auto simp: chat_request_parse_def chat_request_ok_def chat_stop_ok model_field_length
      Suc_le_eq split: option.splits if_splits
      dest: parse_messages_length parse_messages_ok max_tokens_range)

text \<open>
  C30. Every chat request that parses respects the limits of the API: 1 to 64 messages with
  a known role and content that fits its buffer, at most four stop sequences of at most 63
  bytes, and a token limit that is an \<open>int32_t\<close>.
\<close>

theorem chat_request_parse_ok:
  "cjson_strings_ok J \<Longrightarrow> chat_request_parse J alloc body = ParseOk r \<Longrightarrow> chat_request_ok r"
  by (rule parsed_chat_ok)

text \<open>
  C31. A chat request is rejected with -1 exactly when the body is no JSON, \<open>messages\<close> is no
  array, is empty or holds more than 64 items, memory runs out, or some message has no role
  out of system, user and assistant. Nothing else makes the parser fail.
\<close>

theorem chat_request_parse_fails_iff:
  "chat_request_parse J alloc body = ParseFail \<longleftrightarrow> chat_request_bad J alloc body"
  by (auto simp: chat_request_parse_def chat_request_bad_def parse_messages_None [symmetric]
      split: option.splits)

section \<open>A concrete JSON document type\<close>

text \<open>Used to instantiate the JSON parameter: documents as trees, one document per body.\<close>

datatype doc = DNull | DBool bool | DNum fl | DStr string | DArr "doc list" | DObj "(string \<times> doc) list"

definition doc_json :: "(string \<Rightarrow> doc option) \<Rightarrow> doc cjson" where
  "doc_json parse = \<lparr>cj_parse = parse,
     cj_item = (\<lambda>d k. case d of DObj kvs \<Rightarrow> map_of kvs k | _ \<Rightarrow> None),
     cj_string = (\<lambda>d. case d of DStr s \<Rightarrow> Some (cstr s) | _ \<Rightarrow> None),
     cj_array = (\<lambda>d. case d of DArr ds \<Rightarrow> Some ds | _ \<Rightarrow> None),
     cj_number = (\<lambda>d. case d of DNum x \<Rightarrow> Some x | _ \<Rightarrow> None),
     cj_bool = (\<lambda>d. case d of DBool b \<Rightarrow> Some b | _ \<Rightarrow> None)\<rparr>"

lemma doc_json_strings_ok: "cjson_strings_ok (doc_json parse)"
  by (auto simp: cjson_strings_ok_def doc_json_def split: doc.splits)

lemmas doc_simps = doc_json_def get_string_def get_array_def get_number_def get_bool_def

definition hello_doc :: doc where
  "hello_doc = DObj [(''messages'', DArr [DObj [(''role'', DStr ''user''), (''content'', DStr ''Hi'')]]),
     (''stream'', DBool True), (''stop'', DStr ''END'')]"

lemma hello_parses:
  "chat_request_parse (doc_json (\<lambda>_. Some hello_doc)) True body = ParseOk \<lparr>
     cr_model = [], cr_messages = [\<lparr>msg_role = ''user'', msg_content = ''Hi''\<rparr>],
     cr_temperature = FNaN, cr_top_p = FNaN, cr_max_tokens = - 1, cr_frequency_penalty = FNaN,
     cr_presence_penalty = FNaN, cr_repeat_penalty = FNaN, cr_stop = [''END''], cr_stream = True\<rparr>"
  by (simp add: chat_request_parse_def doc_simps hello_doc_def valid_role_def snprintf_s_def cstr_def
      NUL_def model_field_def float_field_def max_tokens_field_def chat_stop_def stream_field_def)

theorem chat_request_parse_ok_witness:
  "\<exists>r. chat_request_parse (doc_json (\<lambda>_. Some hello_doc)) True ''{}'' = ParseOk r \<and> chat_request_ok r"
  using chat_request_parse_ok [OF doc_json_strings_ok hello_parses] hello_parses by blast

lemma parsed_completion_ok:
  "cjson_strings_ok J \<Longrightarrow> completion_request_parse J body = ParseOk r \<Longrightarrow> completion_request_ok r"
  using get_string_cstr [of J _ "''prompt''"]
  by (auto simp: completion_request_parse_def completion_request_ok_def parse_stop_array_ok
      model_field_length length_snprintf_less stops_ok_Nil split: option.splits
      dest: max_tokens_range)

text \<open>
  A parsed completion request respects the same limits: its prompt fits the buffer, at
  most four stop sequences of at most 63 bytes are kept and the token limit is an \<open>int32_t\<close>.
\<close>

theorem completion_request_parse_ok:
  "cjson_strings_ok J \<Longrightarrow> completion_request_parse J body = ParseOk r \<Longrightarrow> completion_request_ok r"
  by (rule parsed_completion_ok)

theorem completion_request_parse_ok_witness:
  "\<exists>r. completion_request_parse (doc_json (\<lambda>_. Some (DObj [(''prompt'', DStr ''Once'')]))) ''{}'' =
     ParseOk r \<and> completion_request_ok r"
proof -
  obtain r where "completion_request_parse (doc_json (\<lambda>_. Some (DObj [(''prompt'', DStr ''Once'')]))) ''{}'' =
      ParseOk r"
    by (simp add: completion_request_parse_def doc_simps max_tokens_field_def)
  with completion_request_parse_ok [OF doc_json_strings_ok this] show ?thesis by blast
qed

section \<open>Limits that are not errors\<close>

definition long_doc :: "string \<Rightarrow> doc" where
  "long_doc c = DObj [(''messages'', DArr [DObj [(''role'', DStr ''user''), (''content'', DStr c)]])]"

text \<open>
  A message longer than the 64 KiB limit is not rejected: the request parses and the
  message keeps its first 65535 bytes only, whatever JSON body carried it.
\<close>

theorem long_content_is_cut:
  "is_cstr c \<Longrightarrow>
   \<exists>r. chat_request_parse (doc_json (\<lambda>_. Some (long_doc c))) True body = ParseOk r \<and>
       cr_messages r = [\<lparr>msg_role = ''user'', msg_content = take 65535 c\<rparr>]"
  by (simp add: chat_request_parse_def doc_simps long_doc_def valid_role_def snprintf_s_def
      max_tokens_field_def cstr_id is_cstr_def NUL_def [symmetric]) (simp add: NUL_def cstr_def)

theorem long_content_is_cut_witness:
  "\<exists>r. chat_request_parse (doc_json (\<lambda>_. Some (long_doc (replicate 70000 (CHR ''a''))))) True [] = ParseOk r \<and>
     length (msg_content (hd (cr_messages r))) = 65535"
proof -
  have "is_cstr (replicate 70000 (CHR ''a''))" by (simp add: is_cstr_def NUL_def)
  from long_content_is_cut [OF this, of "[]"] show ?thesis by fastforce
qed

text \<open>
  A \<open>max_tokens\<close> whose integer part is no \<open>int32_t\<close>, or that is not finite, makes the
  parser execute an undefined conversion: the request is neither rejected nor clamped.
\<close>

theorem max_tokens_out_of_range_undefined:
  "\<not> in_i32 (trunc_rat q) \<Longrightarrow>
   chat_request_parse (doc_json (\<lambda>_. Some (DObj [(''max_tokens'', DNum (Fin q)),
     (''messages'', DArr [DObj [(''role'', DStr ''user'')]])]))) True body = ParseUndef"
  by (simp add: chat_request_parse_def doc_simps valid_role_def cstr_def NUL_def max_tokens_field_def)

theorem max_tokens_out_of_range_undefined_witness:
  "chat_request_parse (doc_json (\<lambda>_. Some (DObj [(''max_tokens'', DNum (Fin 3000000000)),
     (''messages'', DArr [DObj [(''role'', DStr ''user'')]])]))) True [] = ParseUndef"
  by (rule max_tokens_out_of_range_undefined)
     (simp add: trunc_rat_def in_i32_def INT32_MAX_def)

section \<open>Request identifiers are unique\<close>

lemma hex_digit_inj: "m < 16 \<Longrightarrow> n < 16 \<Longrightarrow> hex_digit m = hex_digit n \<Longrightarrow> m = n"
proof -
  assume m: "m < 16" and n: "n < 16" and eq: "hex_digit m = hex_digit n"
  have val: "of_char (hex_digit k) = (if k < 10 then 48 + k else 87 + k)" if "k < 16" for k :: nat
    using that by (simp add: hex_digit_def)
  from eq have "(of_char (hex_digit m) :: nat) = of_char (hex_digit n)" by simp
  then show ?thesis using m n by (simp add: val split: if_splits)
qed

lemma hex2_inj: "hex2 a = hex2 b \<Longrightarrow> a = b"
proof -
  assume "hex2 a = hex2 b"
  moreover have "unat x div 16 < 16" for x :: "8 word"
    using unsigned_less [of x, where ?'a = nat] by (simp add: div_less_iff_less_mult)
  ultimately have "unat a div 16 = unat b div 16" "unat a mod 16 = unat b mod 16"
    by (auto simp: hex2_def intro: hex_digit_inj)
  then have "unat a = unat b" by (metis div_mult_mod_eq)
  then show ?thesis by (simp add: word_unat_eq_iff)
qed

lemma length_hex2 [simp]: "length (hex2 b) = 2"
  by (simp add: hex2_def)

lemma concat_hex2_inj:
  "length as = length bs \<Longrightarrow> concat (map hex2 as) = concat (map hex2 bs) \<Longrightarrow> as = bs"
  by (induction as bs rule: list_induct2) (auto dest: hex2_inj)

lemma length_concat_hex2 [simp]: "length (concat (map hex2 bs)) = 2 * length bs"
  by (induction bs) simp_all

text \<open>
  Request identifiers are the prefix, a dash and 24 hexadecimal digits, never cut by the
  64-byte buffer, and two requests of one kind get the same identifier only if the first
  twelve random bytes agree.
\<close>

theorem request_id_unique:
  "length p \<le> 38 \<Longrightarrow> length bs = 16 \<Longrightarrow> length bs' = 16 \<Longrightarrow>
   length (generate_request_id PROF_ID_MAX p (Some bs) ts) = length p + 25 \<and>
   (generate_request_id PROF_ID_MAX p (Some bs) ts = generate_request_id PROF_ID_MAX p (Some bs') ts'
      \<longleftrightarrow> take 12 bs = take 12 bs')"
  by (auto simp: generate_request_id_def request_id_bytes_def snprintf_s_def intro: concat_hex2_inj)

theorem request_id_unique_witness:
  "generate_request_id PROF_ID_MAX ''chatcmpl'' (Some (replicate 16 0)) [] \<noteq>
   generate_request_id PROF_ID_MAX ''chatcmpl'' (Some (replicate 16 1)) []"
  using request_id_unique [of "''chatcmpl''" "replicate 16 0" "replicate 16 1" "[]" "[]"] by simp

end
