(* ===== verification/Inference.thy ===== *)
theory Inference
  imports Config Api_Types
begin

text \<open>
  src/src/inference.h and src/src/inference.c: sampling parameters and their resolution, the
  ChatML prompt builder, engine start-up, and generation (\<open>inference_complete\<close>,
  \<open>inference_chat\<close>) with its checks in the code's order. llama.cpp is a parameter, the
  record \<open>llama\<close>; its state (context, KV cache, sampler chain) is an abstract type. The
  flags that other threads write and the clock are given per iteration (\<open>gen_obs\<close>).
\<close>

section \<open>Parameters of a request\<close>

record sample_params =
  sp_temperature :: fl
  sp_top_p :: fl
  sp_top_k :: int
  sp_repeat_penalty :: fl
  sp_frequency_penalty :: fl
  sp_presence_penalty :: fl
  sp_max_tokens :: int
  sp_max_inference_seconds :: int
  sp_stop :: "string list"
  sp_n_stop :: nat

definition clamp_f :: "fl \<Rightarrow> fl \<Rightarrow> fl \<Rightarrow> fl" where
  "clamp_f v lo hi =
     (if isnan v \<or> isinf v then lo else if fl_lt v lo then lo else if fl_lt hi v then hi else v)"

definition clamp_i :: "int \<Rightarrow> int \<Rightarrow> int \<Rightarrow> int" where
  "clamp_i v lo hi = (if v < lo then lo else if hi < v then hi else v)"

definition copy_stops :: "string list \<Rightarrow> string list" where
  "copy_stops ss = map (snprintf_s PROF_STOP_LEN) (take PROF_STOP_MAX ss)"

definition inference_resolve_params :: "config \<Rightarrow> chat_request \<Rightarrow> sample_params" where
  "inference_resolve_params cfg req = \<lparr>
     sp_temperature = (if isnan (cr_temperature req) then cf_temperature cfg
                       else clamp_f (cr_temperature req) (Fin 0) (Fin 2)),
     sp_top_p = (if isnan (cr_top_p req) then cf_top_p cfg
                 else clamp_f (cr_top_p req) (f32 (1 / 100)) (Fin 1)),
     sp_top_k = cf_top_k cfg,
     sp_repeat_penalty = (if isnan (cr_repeat_penalty req) then cf_repeat_penalty cfg
                          else clamp_f (cr_repeat_penalty req) (Fin 1) (Fin 2)),
     sp_frequency_penalty = (if isnan (cr_frequency_penalty req) then Fin 0
                             else clamp_f (cr_frequency_penalty req) (Fin 0) (Fin 2)),
     sp_presence_penalty = (if isnan (cr_presence_penalty req) then Fin 0
                            else clamp_f (cr_presence_penalty req) (Fin 0) (Fin 2)),
     sp_max_tokens = (if cr_max_tokens req = - 1 then cf_max_tokens cfg
                      else clamp_i (cr_max_tokens req) 1 (cf_n_ctx cfg)),
     sp_max_inference_seconds = cf_max_inference_seconds cfg,
     sp_stop = copy_stops (cr_stop req),
     sp_n_stop = length (cr_stop req)\<rparr>"

definition inference_resolve_params_completion :: "config \<Rightarrow> completion_request \<Rightarrow> sample_params" where
  "inference_resolve_params_completion cfg req = \<lparr>
     sp_temperature = (if isnan (pr_temperature req) then cf_temperature cfg
                       else clamp_f (pr_temperature req) (Fin 0) (Fin 2)),
     sp_top_p = (if isnan (pr_top_p req) then cf_top_p cfg
                 else clamp_f (pr_top_p req) (f32 (1 / 100)) (Fin 1)),
     sp_top_k = cf_top_k cfg,
     sp_repeat_penalty = (if isnan (pr_repeat_penalty req) then cf_repeat_penalty cfg
                          else clamp_f (pr_repeat_penalty req) (Fin 1) (Fin 2)),
     sp_frequency_penalty = Fin 0,
     sp_presence_penalty = Fin 0,
     sp_max_tokens = (if pr_max_tokens req = - 1 then cf_max_tokens cfg
                      else clamp_i (pr_max_tokens req) 1 (cf_n_ctx cfg)),
     sp_max_inference_seconds = cf_max_inference_seconds cfg,
     sp_stop = copy_stops (pr_stop req),
     sp_n_stop = length (pr_stop req)\<rparr>"

section \<open>The ChatML prompt\<close>

definition im_start :: string where "im_start = ''<|im_start|>''"
definition im_end :: string where "im_end = ''<|im_end|>''"

text \<open>The text one message and the final header should contribute.\<close>

definition chatml_message :: "chat_message \<Rightarrow> string" where
  "chatml_message m = im_start @ msg_role m @ [NL] @ msg_content m @ im_end @ [NL]"

definition chatml_header :: string where
  "chatml_header = im_start @ ''assistant'' @ [NL]"

text \<open>The size computed in the first loop.\<close>

definition chatml_needed :: "chat_message list \<Rightarrow> nat" where
  "chatml_needed ms =
     sum_list (map (\<lambda>m. 13 + length (msg_role m) + 1 + length (msg_content m) + 12 + 1) ms) + 24"

text \<open>
  \<open>snprintf(buf + pos, cap - pos, ...)\<close>: stores what fits with its NUL and advances by
  the full length. A position past the buffer would make the size wrap around: \<open>None\<close>.
\<close>

definition chatml_put :: "nat \<Rightarrow> string \<times> nat \<Rightarrow> string \<Rightarrow> (string \<times> nat) option" where
  "chatml_put cap bp s = (if cap < snd bp then None
     else Some (fst bp @ take (cap - snd bp - 1) s, snd bp + length s))"

fun chatml_fill :: "nat \<Rightarrow> chat_message list \<Rightarrow> string \<times> nat \<Rightarrow> (string \<times> nat) option" where
  "chatml_fill cap [] bp = chatml_put cap bp chatml_header"
| "chatml_fill cap (m # ms) bp =
     Option.bind (chatml_put cap bp (chatml_message m)) (chatml_fill cap ms)"

text \<open>
  \<open>build_chatml_prompt\<close>: the text and \<open>*out_len\<close>; the outer option is the out-of-bounds
  case, the inner one the failed allocation.
\<close>

definition build_chatml_prompt :: "bool \<Rightarrow> chat_message list \<Rightarrow> (string \<times> int) option option" where
  "build_chatml_prompt alloc ms =
     (if \<not> alloc then Some None
      else map_option (\<lambda>(buf, pos). Some (buf, to_i32 (int pos)))
             (chatml_fill (chatml_needed ms + 1) ms ([], 0)))"

section \<open>The engine\<close>

datatype sampler = Greedy | Penalties int fl fl fl | TopK int | TopP fl int | Temp fl | Dist int

text \<open>
  The calls into llama.cpp. \<open>ll_count\<close> is \<open>llama_tokenize\<close> with no buffer, \<open>ll_tokenize\<close>
  with a buffer of the given size; \<open>ll_chain\<close> builds the sampler chain (\<open>None\<close> when
  \<open>llama_sampler_chain_init\<close> fails); \<open>ll_piece\<close> returns the length and the bytes written;
  \<open>ll_template_size\<close> and \<open>ll_template\<close> are the two calls of \<open>llama_chat_apply_template\<close>.
\<close>

record 's llama =
  ll_clear :: "'s \<Rightarrow> 's"
  ll_count :: "string \<Rightarrow> int"
  ll_tokenize :: "string \<Rightarrow> int \<Rightarrow> int \<times> int list"
  ll_decode :: "'s \<Rightarrow> int list \<Rightarrow> int \<times> 's"
  ll_chain :: "'s \<Rightarrow> sampler list \<Rightarrow> 's option"
  ll_sample :: "'s \<Rightarrow> int \<times> 's"
  ll_accept :: "'s \<Rightarrow> int \<Rightarrow> 's"
  ll_eos :: int
  ll_piece :: "int \<Rightarrow> int \<times> string"
  ll_template_size :: "string \<Rightarrow> chat_message list \<Rightarrow> int"
  ll_template :: "string \<Rightarrow> chat_message list \<Rightarrow> int \<Rightarrow> int \<times> string"

record engine =
  en_chat_template :: string
  en_use_chatml_fallback :: bool
  en_n_ctx :: int
  en_n_batch :: int

text \<open>0 threads in the configuration means half of the online processors.\<close>

definition resolve_threads :: "int \<Rightarrow> int \<Rightarrow> int" where
  "resolve_threads n_threads nproc =
     (if n_threads \<le> 0
      then let n = (if 0 < nproc then to_i32 (nproc div 2) else 4) in if n < 1 then 1 else n
      else n_threads)"

datatype init_error = ModelLoadFailed | ContextFailed

text \<open>
  \<open>inference_init\<close>: which of the model and the context could be created, the template the
  model carries and the processor count are given; the result is the engine and the thread
  count passed to llama.cpp.
\<close>

definition inference_init ::
    "config \<Rightarrow> bool \<Rightarrow> bool \<Rightarrow> string option \<Rightarrow> int \<Rightarrow> init_error + engine \<times> int" where
  "inference_init cfg model_ok ctx_ok tmpl nproc =
     (if \<not> model_ok then Inl ModelLoadFailed
      else if \<not> ctx_ok then Inl ContextFailed
      else Inr (\<lparr>en_chat_template = (case tmpl of None \<Rightarrow> [] | Some t \<Rightarrow> snprintf_s 4096 t),
                 en_use_chatml_fallback = (case tmpl of None \<Rightarrow> True | Some t \<Rightarrow> t = []),
                 en_n_ctx = cf_n_ctx cfg, en_n_batch = cf_n_batch cfg\<rparr>,
                resolve_threads (cf_n_threads cfg) nproc))"

text \<open>
  \<open>inference_destroy\<close> on the two pointers of the engine (whether each is set): the calls it
  makes and the pointers afterwards.
\<close>

datatype release = FreeContext | FreeModel | FreeBackend

definition inference_destroy :: "bool \<times> bool \<Rightarrow> release list \<times> bool \<times> bool" where
  "inference_destroy eng = (case eng of (ctx, model) \<Rightarrow>
     ((if ctx then [FreeContext] else []) @ (if model then [FreeModel] else []) @ [FreeBackend], False, False))"

section \<open>Stop sequences\<close>

text \<open>The rolling window of 64 bytes: the \<open>memcpy\<close>/\<open>memmove\<close> arithmetic on the buffer.\<close>

definition window_push :: "string \<Rightarrow> string \<Rightarrow> string" where
  "window_push w piece = (let plen = length piece; max_window = PROF_STOP_LEN in
     if max_window < plen then take max_window (drop (plen - max_window) piece)
     else let w' = (if max_window < length w + plen
                    then drop (length w + plen - max_window) w else w)
          in w' @ piece)"

definition stop_hit :: "string list \<Rightarrow> string \<Rightarrow> bool" where
  "stop_hit stops w = list_ex (\<lambda>s. 0 < length s \<and> length s \<le> length w \<and>
     drop (length w - length s) w = s) stops"

section \<open>Generation\<close>

text \<open>\<open>elapsed_seconds\<close>, with the two readings of the monotonic clock.\<close>

definition elapsed_seconds :: "timespec \<Rightarrow> timespec \<Rightarrow> fl" where
  "elapsed_seconds now start =
     fl_add (dbl (fst now - fst start)) (fl_div (dbl (snd now - snd start)) (dbl 1000000000))"

lemma elapsed_seconds_self: "elapsed_seconds t t = Fin 0"
  using dbl_int [of 0] dbl_int [of 1000000000] f64_int [of 0]
  by (simp add: elapsed_seconds_def fl_add_def fl_div_def)

lemma elapsed_seconds_code [code]:
  "elapsed_seconds now start = (if now = start then Fin 0 else
     fl_add (dbl (fst now - fst start)) (fl_div (dbl (snd now - snd start)) (dbl 1000000000)))"
  using elapsed_seconds_self [of start] by (simp add: elapsed_seconds_def)

record gen_obs =
  ob_shutdown :: bool
  ob_cancel :: bool
  ob_start_time :: timespec
  ob_now :: timespec

record ('s, 'c) gen =
  g_llama :: 's
  g_sink :: 'c
  g_window :: string
  g_count :: int
  g_finish :: string

text \<open>The bytes that \<open>llama_token_to_piece\<close> put into the 255-byte piece buffer.\<close>

definition piece_bytes :: "'s llama \<Rightarrow> int \<Rightarrow> string" where
  "piece_bytes L tok = (case ll_piece L tok of (len, bytes) \<Rightarrow>
     if len < 0 then [] else take (nat len) bytes)"

text \<open>
  One iteration of the loop: \<open>None\<close> when the callback does not return, else whether to go on
  and the new state. \<open>push\<close> and \<open>hit\<close> are the treatment of the stop window, so that the
  loop can be compared with one that keeps the whole text.
\<close>

definition gen_step_with ::
    "(string \<Rightarrow> string \<Rightarrow> string) \<Rightarrow> (string list \<Rightarrow> string \<Rightarrow> bool) \<Rightarrow> 's llama \<Rightarrow> sample_params \<Rightarrow>
     gen_obs \<Rightarrow> ('c \<Rightarrow> string \<Rightarrow> (int \<times> 'c) option) \<Rightarrow> nat \<Rightarrow> ('s, 'c) gen \<Rightarrow>
     (bool \<times> ('s, 'c) gen) option" where
  "gen_step_with push hit L p ob cb i g =
     (if ob_shutdown ob then Some (False, g\<lparr>g_finish := ''abort''\<rparr>)
      else if ob_cancel ob then Some (False, g\<lparr>g_finish := ''abort''\<rparr>)
      else if i mod 32 = 0 \<and> fl_lt (dbl (sp_max_inference_seconds p)) (elapsed_seconds (ob_now ob) (ob_start_time ob))
      then Some (False, g\<lparr>g_finish := ''time_limit''\<rparr>)
      else let (tok, s1) = ll_sample L (g_llama g); s2 = ll_accept L s1 tok in
        if tok = ll_eos L then Some (False, g\<lparr>g_llama := s2, g_finish := ''stop''\<rparr>)
        else let piece = piece_bytes L tok;
                 w = (if 0 < sp_n_stop p then push (g_window g) piece else g_window g);
                 g1 = g\<lparr>g_llama := s2, g_count := g_count g + 1, g_window := w\<rparr> in
          if 0 < sp_n_stop p \<and> hit (take (sp_n_stop p) (sp_stop p)) w
          then Some (False, g1\<lparr>g_finish := ''stop''\<rparr>)
          else (case cb (g_sink g) (cstr piece) of
              None \<Rightarrow> None
            | Some (rc, c') \<Rightarrow>
                if rc \<noteq> 0 then Some (False, g1\<lparr>g_sink := c', g_finish := ''abort''\<rparr>)
                else let (drc, s3) = ll_decode L s2 [tok] in
                  if drc \<noteq> 0
                  then Some (False, g1\<lparr>g_sink := c', g_llama := s3, g_finish := ''backend_error''\<rparr>)
                  else Some (True, g1\<lparr>g_sink := c', g_llama := s3\<rparr>)))"

fun gen_loop_with ::
    "(string \<Rightarrow> string \<Rightarrow> string) \<Rightarrow> (string list \<Rightarrow> string \<Rightarrow> bool) \<Rightarrow> 's llama \<Rightarrow> sample_params \<Rightarrow>
     (nat \<Rightarrow> gen_obs) \<Rightarrow> ('c \<Rightarrow> string \<Rightarrow> (int \<times> 'c) option) \<Rightarrow> nat \<Rightarrow> nat \<Rightarrow> ('s, 'c) gen \<Rightarrow>
     ('s, 'c) gen option" where
  "gen_loop_with push hit L p env cb 0 i g = Some g"
| "gen_loop_with push hit L p env cb (Suc n) i g =
     (case gen_step_with push hit L p (env i) cb i g of
        None \<Rightarrow> None
      | Some (go, g') \<Rightarrow> if go then gen_loop_with push hit L p env cb n (Suc i) g' else Some g')"

text \<open>The loop of the code, from \<open>i = 0\<close> with an empty window.\<close>

definition gen_loop ::
    "'s llama \<Rightarrow> sample_params \<Rightarrow> (nat \<Rightarrow> gen_obs) \<Rightarrow> ('c \<Rightarrow> string \<Rightarrow> (int \<times> 'c) option) \<Rightarrow>
     int \<Rightarrow> 's \<Rightarrow> 'c \<Rightarrow> ('s, 'c) gen option" where
  "gen_loop L p env cb max_gen s c = gen_loop_with window_push stop_hit L p env cb (nat max_gen) 0
     \<lparr>g_llama = s, g_sink = c, g_window = [], g_count = 0, g_finish = ''length''\<rparr>"

text \<open>
  The prompt goes to \<open>llama_decode\<close> in chunks of at most \<open>n_batch\<close> tokens. Nothing in the
  loop excludes a batch size of 0, so it is a partial function.
\<close>

partial_function (option) decode_prompt ::
    "('s \<Rightarrow> int list \<Rightarrow> int \<times> 's) \<Rightarrow> int \<Rightarrow> int list \<Rightarrow> 's \<Rightarrow> (int \<times> 's) option" where
  "decode_prompt dec n_batch toks s =
     (if toks = [] then Some (0, s)
      else let chunk = (if n_batch < int (length toks) then n_batch else int (length toks)) in
        case dec s (take (nat chunk) toks) of (rc, s') \<Rightarrow>
          if rc \<noteq> 0 then Some (rc, s')
          else decode_prompt dec n_batch (drop (nat chunk) toks) s')"

definition sampler_chain :: "sample_params \<Rightarrow> sampler list" where
  "sampler_chain p =
     (if fl_le (sp_temperature p) (Fin 0) then [Greedy]
      else (if fl_lt (Fin 1) (sp_repeat_penalty p) \<or> sp_frequency_penalty p \<noteq> Fin 0 \<or>
               sp_presence_penalty p \<noteq> Fin 0
            then [Penalties 256 (sp_repeat_penalty p) (sp_frequency_penalty p) (sp_presence_penalty p)]
            else []) @
           [TopK (sp_top_k p), TopP (sp_top_p p) 1, Temp (sp_temperature p), Dist 0])"

text \<open>
  The outcome of \<open>inference_complete\<close>: return code, finish reason, token counts, the library
  and callback state; or undefined behaviour, when \<open>n_prompt + max_gen\<close> overflows.
\<close>

record ('s, 'c) inf_out =
  io_rc :: int
  io_finish :: string
  io_prompt_tokens :: int
  io_completion_tokens :: int
  io_llama :: 's
  io_sink :: 'c

datatype ('s, 'c) inf_result = InfRet "('s, 'c) inf_out" | InfUndef

definition inf_fail :: "string \<Rightarrow> int \<Rightarrow> 's \<Rightarrow> 'c \<Rightarrow> ('s, 'c) inf_result option" where
  "inf_fail reason n_prompt s c = Some (InfRet \<lparr>io_rc = - 1, io_finish = reason,
     io_prompt_tokens = n_prompt, io_completion_tokens = 0, io_llama = s, io_sink = c\<rparr>)"

text \<open>The number of tokens to generate at most: what the context still has room for.\<close>

definition gen_limit :: "engine \<Rightarrow> sample_params \<Rightarrow> int \<Rightarrow> int" where
  "gen_limit eng p n_prompt = (if en_n_ctx eng < n_prompt + sp_max_tokens p
                               then en_n_ctx eng - n_prompt else sp_max_tokens p)"

text \<open>
  \<open>inference_complete\<close>, in the order of the code: tokenize, reject an empty or too long
  prompt, tokenize into the buffer, cap the generation length, decode the prompt, build the
  sampler chain, generate. \<open>alloc\<close> is the success of the \<open>malloc\<close> of the token buffer; an
  outer \<open>None\<close> means that the call does not return.
\<close>

definition inference_complete ::
    "'s llama \<Rightarrow> engine \<Rightarrow> bool \<Rightarrow> string \<Rightarrow> sample_params \<Rightarrow> (nat \<Rightarrow> gen_obs) \<Rightarrow>
     ('c \<Rightarrow> string \<Rightarrow> (int \<times> 'c) option) \<Rightarrow> 's \<Rightarrow> 'c \<Rightarrow> ('s, 'c) inf_result option" where
  "inference_complete L eng alloc prompt p env cb s0 c =
     (let s = ll_clear L s0; n_required = ll_count L prompt in
      if n_required = 0 then inf_fail ''backend_error'' 0 s c
      else let n_tokens = (if n_required < 0 then - n_required else n_required) in
      if en_n_ctx eng \<le> n_tokens then inf_fail ''context_overflow'' 0 s c
      else if \<not> alloc then inf_fail ''backend_error'' 0 s c
      else let (n_prompt, toks) = ll_tokenize L prompt n_tokens in
      if n_prompt < 0 then inf_fail ''backend_error'' 0 s c
      else if \<not> in_i32 (n_prompt + sp_max_tokens p) then Some InfUndef
      else let max_gen = gen_limit eng p n_prompt in
      if max_gen \<le> 0 then inf_fail ''context_overflow'' n_prompt s c
      else (case decode_prompt (ll_decode L) (en_n_batch eng) (take (nat n_prompt) toks) s of
          None \<Rightarrow> None
        | Some (rc, s1) \<Rightarrow>
            if rc \<noteq> 0 then inf_fail (if rc = 1 then ''context_overflow'' else ''backend_error'') n_prompt s1 c
            else (case ll_chain L s1 (sampler_chain p) of
                None \<Rightarrow> inf_fail ''backend_error'' n_prompt s1 c
              | Some s2 \<Rightarrow> map_option (\<lambda>g. InfRet \<lparr>io_rc = 0, io_finish = g_finish g,
                    io_prompt_tokens = n_prompt, io_completion_tokens = g_count g,
                    io_llama = g_llama g, io_sink = g_sink g\<rparr>)
                  (gen_loop L p env cb max_gen s2 c))))"

text \<open>
  \<open>inference_chat\<close>: render the prompt (ChatML fallback, the model's template, or ChatML when
  the template cannot be applied), then complete it. \<open>allocs\<close> are the outcomes of the up to
  three allocations made on the way. A prompt buffer out of bounds would be undefined.
\<close>

record chat_allocs =
  al_chatml :: bool
  al_msgs :: bool
  al_render :: bool
  al_tokens :: bool

definition render_chat ::
    "'s llama \<Rightarrow> engine \<Rightarrow> chat_allocs \<Rightarrow> chat_message list \<Rightarrow> (string + string) option" where
  "render_chat L eng al ms =
     (let chatml = build_chatml_prompt (al_chatml al) ms;
          via_chatml = (\<lambda>limit. case chatml of
              None \<Rightarrow> None
            | Some None \<Rightarrow> Some (Inl ''backend_error'')
            | Some (Some (text, flen)) \<Rightarrow>
                if flen = 0 then Some (Inl ''backend_error'')
                else if limit \<and> PROF_MAX_PROMPT_BYTES < flen then Some (Inl ''context_overflow'')
                else Some (Inr text))
      in if en_use_chatml_fallback eng then via_chatml True
         else if \<not> al_msgs al then Some (Inl ''backend_error'')
         else let needed = ll_template_size L (en_chat_template eng) ms in
           if needed \<le> 0 then via_chatml False
           else if PROF_MAX_PROMPT_BYTES < needed then Some (Inl ''context_overflow'')
           else if \<not> al_render al then Some (Inl ''backend_error'')
           else (case ll_template L (en_chat_template eng) ms (needed + 1) of
               (actual, bytes) \<Rightarrow>
                 if actual \<le> 0 \<or> needed < actual then Some (Inl ''backend_error'')
                 else Some (Inr (cstr (take (nat actual) bytes)))))"

definition inference_chat ::
    "'s llama \<Rightarrow> engine \<Rightarrow> chat_allocs \<Rightarrow> chat_message list \<Rightarrow> sample_params \<Rightarrow> (nat \<Rightarrow> gen_obs) \<Rightarrow>
     ('c \<Rightarrow> string \<Rightarrow> (int \<times> 'c) option) \<Rightarrow> 's \<Rightarrow> 'c \<Rightarrow> ('s, 'c) inf_result option" where
  "inference_chat L eng al ms p env cb s c =
     (case render_chat L eng al ms of
        None \<Rightarrow> Some InfUndef
      | Some (Inl reason) \<Rightarrow> inf_fail reason 0 s c
      | Some (Inr text) \<Rightarrow> inference_complete L eng (al_tokens al) text p env cb s c)"

section \<open>The ChatML prompt fits its buffer\<close>

definition chatml_text :: "chat_message list \<Rightarrow> string" where
  "chatml_text ms = concat (map chatml_message ms) @ chatml_header"

lemma length_chatml_message [simp]:
  "length (chatml_message m) = length (msg_role m) + length (msg_content m) + 24"
  by (simp add: chatml_message_def im_start_def im_end_def)

lemma length_chatml_header [simp]: "length chatml_header = 22"
  by (simp add: chatml_header_def im_start_def)

lemma chatml_put_fits:
  "length buf + length s < cap \<Longrightarrow>
   chatml_put cap (buf, length buf) s = Some (buf @ s, length (buf @ s))"
  by (simp add: chatml_put_def)

lemma chatml_fill_fits:
  "length buf + length (chatml_text ms) < cap \<Longrightarrow>
   chatml_fill cap ms (buf, length buf) = Some (buf @ chatml_text ms, length (buf @ chatml_text ms))"
proof (induction ms arbitrary: buf)
  case Nil
  then show ?case by (simp add: chatml_text_def chatml_put_fits)
next
  case (Cons m ms)
  have "chatml_put cap (buf, length buf) (chatml_message m) =
      Some (buf @ chatml_message m, length (buf @ chatml_message m))"
    using Cons.prems by (intro chatml_put_fits) (simp add: chatml_text_def)
  then show ?case
    using Cons.IH [of "buf @ chatml_message m"] Cons.prems by (simp add: chatml_text_def)
qed

lemma length_chatml_text_needed: "length (chatml_text ms) < chatml_needed ms"
  by (induction ms) (simp_all add: chatml_text_def chatml_needed_def)

lemma build_chatml_prompt_text:
  "build_chatml_prompt alloc ms =
     Some (if alloc then Some (chatml_text ms, to_i32 (int (length (chatml_text ms)))) else None)"
  using chatml_fill_fits [of "[]" ms "chatml_needed ms + 1"] length_chatml_text_needed [of ms]
  by (simp add: build_chatml_prompt_def)

text \<open>
  C26. The ChatML builder writes inside its buffer and never cuts the prompt: for every list
  of messages the result is the concatenation of all messages and the assistant header,
  and the reported length is that of the text (as an \<open>int32_t\<close>).
\<close>

theorem build_chatml_prompt_exact:
  "build_chatml_prompt alloc ms =
     Some (if alloc then Some (chatml_text ms, to_i32 (int (length (chatml_text ms)))) else None)"
  by (rule build_chatml_prompt_text)

section \<open>Resolved parameters are in range\<close>

definition fl_in :: "fl \<Rightarrow> fl \<Rightarrow> fl \<Rightarrow> bool" where
  "fl_in lo hi x \<longleftrightarrow> fl_le lo x \<and> fl_le x hi"

lemma clamp_f_range: "lo \<le> hi \<Longrightarrow> fl_in (Fin lo) (Fin hi) (clamp_f v (Fin lo) (Fin hi))"
  by (cases v) (auto simp: clamp_f_def fl_in_def fl_le_Fin isnan_simps isinf_simps)

lemma clamp_f_id: "fl_in (Fin lo) (Fin hi) v \<Longrightarrow> clamp_f v (Fin lo) (Fin hi) = v"
  by (cases v) (auto simp: clamp_f_def fl_in_def fl_le_def isnan_simps isinf_simps)

lemma clamp_i_range: "lo \<le> hi \<Longrightarrow> lo \<le> clamp_i v lo hi \<and> clamp_i v lo hi \<le> hi"
  by (simp add: clamp_i_def)

lemma f32_hundredth: "f32 (1 / 100) = Fin (10737418 / 1073741824)"
  by code_simp

lemma length_copy_stops: "length ss \<le> PROF_STOP_MAX \<Longrightarrow> length (copy_stops ss) = length ss"
  by (simp add: copy_stops_def)

lemma stops_ok_copy: "stops_ok ss \<Longrightarrow> copy_stops ss = ss"
  by (induction ss) (auto simp: stops_ok_def copy_stops_def snprintf_s_def)

text \<open>The ranges that the API document promises for the sampling parameters.\<close>

definition params_in_range :: "config \<Rightarrow> sample_params \<Rightarrow> bool" where
  "params_in_range cfg p \<longleftrightarrow>
     (sp_temperature p = cf_temperature cfg \<or> fl_in (Fin 0) (Fin 2) (sp_temperature p)) \<and>
     (sp_top_p p = cf_top_p cfg \<or> fl_in (f32 (1 / 100)) (Fin 1) (sp_top_p p)) \<and>
     (sp_repeat_penalty p = cf_repeat_penalty cfg \<or> fl_in (Fin 1) (Fin 2) (sp_repeat_penalty p)) \<and>
     fl_in (Fin 0) (Fin 2) (sp_frequency_penalty p) \<and>
     fl_in (Fin 0) (Fin 2) (sp_presence_penalty p) \<and>
     1 \<le> sp_max_tokens p \<and> sp_max_tokens p \<le> cf_n_ctx cfg \<and>
     sp_n_stop p = length (sp_stop p) \<and> stops_ok (sp_stop p)"

lemma resolved_chat_params:
  "config_validate cfg = None \<Longrightarrow> chat_request_ok r \<Longrightarrow>
   params_in_range cfg (inference_resolve_params cfg r) \<and>
   sp_stop (inference_resolve_params cfg r) = cr_stop r"
  using clamp_i_range [of 1 "cf_n_ctx cfg" "cr_max_tokens r"]
  by (auto simp: params_in_range_def inference_resolve_params_def chat_request_ok_def stops_ok_copy
      config_validate_def f32_hundredth clamp_f_range fl_in_def [of "Fin 0" "Fin 2" "Fin 0"] fl_le_Fin
      split: if_splits)



lemma resolved_completion_params:
  "config_validate cfg = None \<Longrightarrow> completion_request_ok r \<Longrightarrow>
   params_in_range cfg (inference_resolve_params_completion cfg r) \<and>
   sp_frequency_penalty (inference_resolve_params_completion cfg r) = Fin 0 \<and>
   sp_stop (inference_resolve_params_completion cfg r) = pr_stop r"
  using clamp_i_range [of 1 "cf_n_ctx cfg" "pr_max_tokens r"]
  by (auto simp: params_in_range_def inference_resolve_params_completion_def completion_request_ok_def
      stops_ok_copy config_validate_def f32_hundredth clamp_f_range
      fl_in_def [of "Fin 0" "Fin 2" "Fin 0"] fl_le_Fin split: if_splits)

text \<open>
  The same holds for completion requests, whose frequency and presence penalties are
  always off.
\<close>

theorem resolve_params_completion_in_range:
  "config_validate cfg = None \<Longrightarrow> completion_request_ok r \<Longrightarrow>
   params_in_range cfg (inference_resolve_params_completion cfg r) \<and>
   sp_frequency_penalty (inference_resolve_params_completion cfg r) = Fin 0 \<and>
   sp_stop (inference_resolve_params_completion cfg r) = pr_stop r"
  by (rule resolved_completion_params)

theorem resolve_params_completion_in_range_witness:
  "params_in_range (config_defaults\<lparr>cf_model_path := ''m''\<rparr>)
     (inference_resolve_params_completion (config_defaults\<lparr>cf_model_path := ''m''\<rparr>)
       \<lparr>pr_model = [], pr_prompt = ''Once'', pr_temperature = Fin (- 1), pr_top_p = FNaN,
        pr_max_tokens = 0, pr_repeat_penalty = FNaN, pr_stop = [], pr_stream = False\<rparr>)"
proof -
  have "config_validate (config_defaults\<lparr>cf_model_path := ''m''\<rparr>) = None"
    by (simp add: config_validate_def config_defaults_def)
  moreover have "completion_request_ok \<lparr>pr_model = [], pr_prompt = ''Once'', pr_temperature = Fin (- 1),
      pr_top_p = FNaN, pr_max_tokens = 0, pr_repeat_penalty = FNaN, pr_stop = [], pr_stream = False\<rparr>"
    by (simp add: completion_request_ok_def is_cstr_def NUL_def in_i32_def INT32_MIN_def INT32_MAX_def
        stops_ok_Nil)
  ultimately show ?thesis using resolve_params_completion_in_range by blast
qed

text \<open>
  An infinite sampling parameter (a JSON number beyond the range of a float) is replaced
  by the lower end of its interval, not by the configured default: an infinite temperature
  silently selects greedy decoding.
\<close>

theorem infinite_temperature_is_greedy:
  "sampler_chain (inference_resolve_params cfg (r\<lparr>cr_temperature := FInf n\<rparr>)) = [Greedy]"
  by (simp add: sampler_chain_def inference_resolve_params_def isnan_simps clamp_f_def isinf_simps
      fl_le_Fin)

section \<open>The stop window\<close>

definition text_hit :: "string list \<Rightarrow> string \<Rightarrow> bool" where
  "text_hit stops t \<longleftrightarrow> (\<exists>s \<in> set stops. s \<noteq> [] \<and> suffix s t)"

lemma window_shift:
  assumes "n \<le> 64"
  shows "(if 64 < length w + n then drop (length w + n - 64) w else w) = last_n (64 - n) w"
proof (cases "64 < length w + n")
  case True
  then have "length w + n - 64 = length w - (64 - n)" using assms by arith
  with True show ?thesis by (simp only: if_True last_n_def)
next
  case False
  then have "length w \<le> 64 - n" using assms by arith
  with False show ?thesis by (simp only: if_False last_n_all)
qed

lemma window_push_last_n: "window_push (last_n PROF_STOP_LEN t) piece = last_n PROF_STOP_LEN (t @ piece)"
proof (cases "64 < length piece")
  case True
  then have "window_push (last_n 64 t) piece = take 64 (last_n 64 piece)"
    by (simp add: window_push_def Let_def last_n_def)
  also have "\<dots> = last_n 64 (t @ piece)" using True by (simp add: last_n_append) (simp add: last_n_def)
  finally show ?thesis by simp
next
  case False
  then have pl: "length piece \<le> 64" by simp
  have "window_push (last_n 64 t) piece = last_n (64 - length piece) (last_n 64 t) @ piece"
    unfolding window_push_def Let_def using False
    by (simp only: window_shift [OF pl] if_False)
  also have "\<dots> = last_n 64 (t @ piece)"
    using pl by (simp only: last_n_append last_n_last_n last_n_all min_absorb1 diff_le_self)
  finally show ?thesis by simp
qed

lemma stop_hit_suffix: "stop_hit stops w \<longleftrightarrow> (\<exists>s \<in> set stops. s \<noteq> [] \<and> suffix s w)"
  by (auto simp: stop_hit_def list_ex_iff suffix_iff_last_n last_n_def)

lemma stop_hit_window:
  "\<forall>s \<in> set stops. length s \<le> PROF_STOP_LEN \<Longrightarrow>
   stop_hit stops (last_n PROF_STOP_LEN t) = text_hit stops t"
  by (auto simp: stop_hit_suffix text_hit_def suffix_window)

definition cut_window :: "('s, 'c) gen \<Rightarrow> ('s, 'c) gen" where
  "cut_window g = g\<lparr>g_window := last_n PROF_STOP_LEN (g_window g)\<rparr>"

lemma gen_step_window:
  assumes "\<forall>s \<in> set (sp_stop p). length s \<le> PROF_STOP_LEN"
  shows "gen_step_with window_push stop_hit L p ob cb i (cut_window g) =
    map_option (\<lambda>(go, g'). (go, cut_window g')) (gen_step_with (@) text_hit L p ob cb i g)"
proof -
  have hit: "stop_hit (take (sp_n_stop p) (sp_stop p)) (last_n PROF_STOP_LEN t) =
      text_hit (take (sp_n_stop p) (sp_stop p)) t" for t
    using assms by (intro stop_hit_window) (auto dest: in_set_takeD)
  show ?thesis
    by (simp add: gen_step_with_def cut_window_def Let_def window_push_last_n hit
        split: prod.split option.split)
qed

lemma gen_loop_window:
  assumes "\<forall>s \<in> set (sp_stop p). length s \<le> PROF_STOP_LEN"
  shows "gen_loop_with window_push stop_hit L p env cb n i (cut_window g) =
    map_option cut_window (gen_loop_with (@) text_hit L p env cb n i g)"
  by (induction n arbitrary: i g) (auto simp: gen_step_window [OF assms] split: option.split)

text \<open>
  C19. The rolling 64-byte window is as good as the whole text: the generation loop of the
  code behaves exactly like one that keeps everything generated so far and stops when a
  stop sequence is a suffix of it (same tokens, same callback calls, same finish reason).
\<close>

theorem stop_window_equivalent:
  "\<forall>s \<in> set (sp_stop p). length s \<le> PROF_STOP_LEN \<Longrightarrow>
   gen_loop L p env cb max_gen s c =
     map_option cut_window (gen_loop_with (@) text_hit L p env cb (nat max_gen) 0
       \<lparr>g_llama = s, g_sink = c, g_window = [], g_count = 0, g_finish = ''length''\<rparr>)"
  using gen_loop_window [of p L env cb "nat max_gen" 0
      "\<lparr>g_llama = s, g_sink = c, g_window = [], g_count = 0, g_finish = ''length''\<rparr>"]
  by (simp add: gen_loop_def cut_window_def)

section \<open>A sample backend\<close>

text \<open>
  A backend that treats every byte of the prompt as a token and then produces the tokens of
  a given script; token 0 is the end of sequence. It instantiates the parameter in the
  witnesses.
\<close>

definition script_llama :: "int list llama" where
  "script_llama = \<lparr>ll_clear = (\<lambda>s. s), ll_count = (\<lambda>t. - int (length t)),
     ll_tokenize = (\<lambda>t n. if n < int (length t) then (- int (length t), [])
                          else (int (length t), map (\<lambda>c. int (of_char c)) t)),
     ll_decode = (\<lambda>s toks. (0, s)), ll_chain = (\<lambda>s chain. Some s),
     ll_sample = (\<lambda>s. case s of [] \<Rightarrow> (0, []) | t # ts \<Rightarrow> (t, ts)),
     ll_accept = (\<lambda>s t. s), ll_eos = 0, ll_piece = (\<lambda>t. (2, [char_of (nat t), CHR ''!''])),
     ll_template_size = (\<lambda>tm ms. 0), ll_template = (\<lambda>tm ms n. (0, []))\<rparr>"

definition no_flags :: "nat \<Rightarrow> gen_obs" where
  "no_flags i = \<lparr>ob_shutdown = False, ob_cancel = False, ob_start_time = (0, 0), ob_now = (0, 0)\<rparr>"

definition sample_par :: sample_params where
  "sample_par = \<lparr>sp_temperature = Fin 0, sp_top_p = Fin 1, sp_top_k = 40, sp_repeat_penalty = Fin 1,
     sp_frequency_penalty = Fin 0, sp_presence_penalty = Fin 0, sp_max_tokens = 8,
     sp_max_inference_seconds = 60, sp_stop = [''!b''], sp_n_stop = 1\<rparr>"

definition keep_cb :: "string list \<Rightarrow> string \<Rightarrow> (int \<times> string list) option" where
  "keep_cb c s = Some (0, c @ [s])"

text \<open>A stop sequence that ends inside a piece is not seen; one that ends with a piece is.\<close>

lemma sample_loop_runs_on:
  "map_option (\<lambda>g. (g_sink g, g_count g, g_finish g))
     (gen_loop script_llama sample_par no_flags keep_cb 8 [97, 98, 99] []) =
   Some ([''a!'', ''b!'', ''c!''], 3, ''stop'')"
  by code_simp

lemma sample_loop_stops:
  "map_option (\<lambda>g. (g_sink g, g_count g, g_finish g))
     (gen_loop script_llama (sample_par\<lparr>sp_stop := [''!b!'']\<rparr>) no_flags keep_cb 8 [97, 98, 99] []) =
   Some ([''a!''], 2, ''stop'')"
  by code_simp

theorem stop_window_equivalent_witness:
  "\<exists>g. gen_loop_with (@) text_hit script_llama (sample_par\<lparr>sp_stop := [''!b!'']\<rparr>) no_flags keep_cb 8 0
     \<lparr>g_llama = [97, 98, 99], g_sink = [], g_window = [], g_count = 0, g_finish = ''length''\<rparr> = Some g \<and>
     g_sink g = [''a!''] \<and> g_finish g = ''stop''"
proof -
  have "\<forall>s \<in> set (sp_stop (sample_par\<lparr>sp_stop := [''!b!'']\<rparr>)). length s \<le> PROF_STOP_LEN" by simp
  from stop_window_equivalent [OF this, of script_llama no_flags keep_cb 8 "[97, 98, 99]" "[]"]
    sample_loop_stops
  show ?thesis by (auto simp: cut_window_def)
qed

end
