(* ===== verification/Generate.thy ===== *)
theory Generate
  imports Inference
begin

text \<open>
  What the generation loop of src/src/inference.c promises: bounds on the tokens, the finish
  reasons, termination, and the delivery of the text to the token callback. The callback's
  contract is the locale \<open>token_sink\<close>; the two callbacks of src/src/worker.c provide it.
\<close>

section \<open>One iteration and the loop\<close>

definition stopped_reasons :: "string list" where
  "stopped_reasons = [''abort'', ''time_limit'', ''stop'', ''backend_error'']"

lemma gen_step_go:
  "gen_step_with push hit L p ob cb i g = Some (True, g') \<Longrightarrow>
   g_count g' = g_count g + 1 \<and> g_finish g' = g_finish g \<and>
   (\<exists>tok. tok \<noteq> ll_eos L \<and> cb (g_sink g) (cstr (piece_bytes L tok)) = Some (0, g_sink g'))"
  by (auto simp: gen_step_with_def Let_def split: if_splits prod.splits option.splits)

lemma gen_step_end:
  "gen_step_with push hit L p ob cb i g = Some (False, g') \<Longrightarrow>
   g_finish g' \<in> set stopped_reasons \<and>
   (g_count g' = g_count g \<and> g_sink g' = g_sink g \<or>
    g_count g' = g_count g + 1 \<and> (g_sink g' = g_sink g \<or>
      (\<exists>tok rc. tok \<noteq> ll_eos L \<and> cb (g_sink g) (cstr (piece_bytes L tok)) = Some (rc, g_sink g'))))"
  by (auto simp: gen_step_with_def Let_def stopped_reasons_def split: if_splits prod.splits option.splits)

lemma gen_loop_count:
  "gen_loop_with push hit L p env cb n i g = Some g' \<Longrightarrow>
   g_count g \<le> g_count g' \<and> g_count g' \<le> g_count g + int n \<and>
   (g_finish g' = g_finish g \<and> g_count g' = g_count g + int n \<or> g_finish g' \<in> set stopped_reasons)"
proof (induction n arbitrary: i g)
  case (Suc n)
  from Suc.prems obtain go g1 where s: "gen_step_with push hit L p (env i) cb i g = Some (go, g1)"
    by (auto split: option.splits)
  show ?case
  proof (cases go)
    case True
    with Suc.prems Suc.IH [of "Suc i" g1] s gen_step_go [of push hit L p "env i" cb i g g1]
    show ?thesis by auto
  next
    case False
    with Suc.prems s gen_step_end [of push hit L p "env i" cb i g g1] show ?thesis by auto
  qed
qed simp

section \<open>The interface to the token callback\<close>

text \<open>
  \<open>out\<close> is what the callback has delivered so far and \<open>fmt\<close> what one piece of text adds to
  it. A callback that reports 0 has delivered the piece, any other value means that the
  piece was dropped.
\<close>

locale token_sink =
  fixes cb :: "'c \<Rightarrow> string \<Rightarrow> (int \<times> 'c) option"
    and out :: "'c \<Rightarrow> 'o list"
    and ok :: "'c \<Rightarrow> bool"
    and fmt :: "string \<Rightarrow> 'o list"
  assumes cb_accept: "ok c \<Longrightarrow> cb c s = Some (0, c') \<Longrightarrow> ok c' \<and> out c' = out c @ fmt s"
    and cb_reject: "ok c \<Longrightarrow> cb c s = Some (rc, c') \<Longrightarrow> rc \<noteq> 0 \<Longrightarrow> ok c' \<and> out c' = out c"

locale total_sink = token_sink +
  assumes cb_returns: "ok c \<Longrightarrow> cb c s \<noteq> None"

text \<open>What a sequence of sampled tokens adds to the output.\<close>

definition delivered :: "'s llama \<Rightarrow> (string \<Rightarrow> 'o list) \<Rightarrow> int list \<Rightarrow> 'o list" where
  "delivered L fmt toks = concat (map (\<lambda>t. fmt (cstr (piece_bytes L t))) toks)"

lemma delivered_simps [simp]:
  "delivered L fmt [] = []"
  "delivered L fmt (t # ts) = fmt (cstr (piece_bytes L t)) @ delivered L fmt ts"
  by (simp_all add: delivered_def)

text \<open>
  \<open>sent L fmt n0 n1 o0 o1\<close>: the output grew from \<open>o0\<close> to \<open>o1\<close> by the text of tokens other than
  the end of sequence, all of them counted; at most one counted token was not delivered.
\<close>

definition sent :: "'s llama \<Rightarrow> (string \<Rightarrow> 'o list) \<Rightarrow> int \<Rightarrow> int \<Rightarrow> 'o list \<Rightarrow> 'o list \<Rightarrow> bool" where
  "sent L fmt n0 n1 o0 o1 \<longleftrightarrow> (\<exists>toks. o1 = o0 @ delivered L fmt toks \<and> ll_eos L \<notin> set toks \<and>
     n0 + int (length toks) \<le> n1 \<and> n1 \<le> n0 + int (length toks) + 1)"

lemma sentI:
  "o1 = o0 @ delivered L fmt toks \<Longrightarrow> ll_eos L \<notin> set toks \<Longrightarrow> n0 + int (length toks) \<le> n1 \<Longrightarrow>
   n1 \<le> n0 + int (length toks) + 1 \<Longrightarrow> sent L fmt n0 n1 o0 o1"
  by (auto simp: sent_def)

lemma sent_refl: "sent L fmt n n xs xs"
  by (rule sentI [where toks = "[]"]) simp_all

lemma sent_none: "sent L fmt n (n + 1) xs xs"
  by (rule sentI [where toks = "[]"]) simp_all

lemma sent_one: "t \<noteq> ll_eos L \<Longrightarrow> sent L fmt n (n + 1) xs (xs @ fmt (cstr (piece_bytes L t)))"
  by (rule sentI [where toks = "[t]"]) simp_all

lemma sent_Cons:
  "t \<noteq> ll_eos L \<Longrightarrow> sent L fmt (n + 1) m (xs @ fmt (cstr (piece_bytes L t))) ys \<Longrightarrow> sent L fmt n m xs ys"
proof -
  assume t: "t \<noteq> ll_eos L" and "sent L fmt (n + 1) m (xs @ fmt (cstr (piece_bytes L t))) ys"
  then obtain toks where "ys = (xs @ fmt (cstr (piece_bytes L t))) @ delivered L fmt toks"
    "ll_eos L \<notin> set toks" "n + 1 + int (length toks) \<le> m" "m \<le> n + 1 + int (length toks) + 1"
    by (auto simp: sent_def)
  with t show ?thesis by (intro sentI [where toks = "t # toks"]) auto
qed

context token_sink
begin

lemma step_end_sent:
  assumes "ok (g_sink g)" and "gen_step_with push hit L p ob cb i g = Some (False, g')"
  shows "ok (g_sink g') \<and> sent L fmt (g_count g) (g_count g') (out (g_sink g)) (out (g_sink g'))"
proof -
  from gen_step_end [OF assms(2)] consider
      "g_count g' = g_count g" "g_sink g' = g_sink g"
    | "g_count g' = g_count g + 1" "g_sink g' = g_sink g"
    | tok rc where "g_count g' = g_count g + 1" "tok \<noteq> ll_eos L"
        "cb (g_sink g) (cstr (piece_bytes L tok)) = Some (rc, g_sink g')"
    by blast
  then show ?thesis
  proof cases
    case 3
    then show ?thesis
      using cb_accept [OF assms(1)] cb_reject [OF assms(1)]
      by (cases "rc = 0") (auto simp: sent_one sent_none)
  qed (use assms(1) in \<open>simp_all add: sent_refl sent_none\<close>)
qed

lemma loop_sent:
  "ok (g_sink g) \<Longrightarrow> gen_loop_with push hit L p env cb n i g = Some g' \<Longrightarrow>
   ok (g_sink g') \<and> sent L fmt (g_count g) (g_count g') (out (g_sink g)) (out (g_sink g'))"
proof (induction n arbitrary: i g)
  case 0
  then show ?case by (simp add: sent_refl)
next
  case (Suc n)
  from Suc.prems(2) obtain go g1 where
    s: "gen_step_with push hit L p (env i) cb i g = Some (go, g1)" by (auto split: option.splits)
  show ?case
  proof (cases go)
    case True
    with s have "gen_step_with push hit L p (env i) cb i g = Some (True, g1)" by simp
    from gen_step_go [OF this] obtain tok where c: "g_count g1 = g_count g + 1" "tok \<noteq> ll_eos L"
      "cb (g_sink g) (cstr (piece_bytes L tok)) = Some (0, g_sink g1)" by blast
    note a = cb_accept [OF Suc.prems(1) c(3)]
    with Suc.IH [of g1 "Suc i"] Suc.prems(2) s True c show ?thesis by (auto intro: sent_Cons)
  next
    case False
    with Suc.prems s step_end_sent [OF Suc.prems(1)] show ?thesis by auto
  qed
qed

end

context total_sink
begin

lemma step_returns: "ok (g_sink g) \<Longrightarrow> gen_step_with push hit L p ob cb i g \<noteq> None"
  using cb_returns [of "g_sink g"]
  by (auto simp del: not_None_eq simp: gen_step_with_def Let_def split: prod.splits option.splits)

lemma loop_returns: "ok (g_sink g) \<Longrightarrow> gen_loop_with push hit L p env cb n i g \<noteq> None"
proof (induction n arbitrary: i g)
  case (Suc n)
  obtain go g1 where s: "gen_step_with push hit L p (env i) cb i g = Some (go, g1)"
    using step_returns [OF Suc.prems] by fastforce
  show ?case
  proof (cases go)
    case True
    with s have t: "gen_step_with push hit L p (env i) cb i g = Some (True, g1)" by simp
    from gen_step_go [OF t] cb_accept [OF Suc.prems] have "ok (g_sink g1)" by blast
    with Suc.IH [of g1 "Suc i"] s True show ?thesis by simp
  next
    case False
    with s show ?thesis by simp
  qed
qed simp

end

section \<open>The prompt\<close>

text \<open>The chunks of at most \<open>n\<close> tokens, and feeding chunks one by one until a failure.\<close>

fun chunks :: "nat \<Rightarrow> int list \<Rightarrow> int list list" where
  "chunks n toks = (if toks = [] \<or> n = 0 then [] else take n toks # chunks n (drop n toks))"

declare chunks.simps [simp del]

fun decode_all :: "('s \<Rightarrow> int list \<Rightarrow> int \<times> 's) \<Rightarrow> int list list \<Rightarrow> 's \<Rightarrow> int \<times> 's" where
  "decode_all dec [] s = (0, s)"
| "decode_all dec (c # cs) s = (case dec s c of (rc, s') \<Rightarrow> if rc \<noteq> 0 then (rc, s') else decode_all dec cs s')"

lemma chunks_partition:
  "0 < n \<Longrightarrow> concat (chunks n toks) = toks \<and> (\<forall>c \<in> set (chunks n toks). c \<noteq> [] \<and> length c \<le> n)"
proof (induction n toks rule: chunks.induct)
  case (1 n toks)
  then show ?case by (subst (1 2) chunks.simps) auto
qed

lemma decode_prompt_chunks:
  "0 < nb \<Longrightarrow> decode_prompt dec nb toks s = Some (decode_all dec (chunks (nat nb) toks) s)"
proof (induction "length toks" arbitrary: toks s rule: less_induct)
  case less
  show ?case
  proof (cases "toks = []")
    case True
    then show ?thesis by (simp add: decode_prompt.simps chunks.simps)
  next
    case False
    define k where "k = (if nb < int (length toks) then nb else int (length toks))"
    have t: "take (nat k) toks = take (nat nb) toks" "drop (nat k) toks = drop (nat nb) toks"
      by (auto simp: k_def)
    obtain rc s1 where d: "dec s (take (nat nb) toks) = (rc, s1)" by fastforce
    have "length (drop (nat nb) toks) < length toks" using False less.prems by (cases toks) auto
    from less.hyps [OF this less.prems]
    have "decode_prompt dec nb (drop (nat nb) toks) s1 =
        Some (decode_all dec (chunks (nat nb) (drop (nat nb) toks)) s1)" .
    with False d t less.prems show ?thesis
      by (subst decode_prompt.simps, subst chunks.simps) (simp add: Let_def k_def [symmetric])
  qed
qed



section \<open>A completion\<close>

lemma gen_loop_bounds:
  "gen_loop L p env cb m s c = Some g \<Longrightarrow> 0 < m \<Longrightarrow>
   0 \<le> g_count g \<and> g_count g \<le> m \<and>
   (g_finish g = ''length'' \<and> g_count g = m \<or> g_finish g \<in> set stopped_reasons)"
  using gen_loop_count [of window_push stop_hit L p env cb "nat m" 0
      "\<lparr>g_llama = s, g_sink = c, g_window = [], g_count = 0, g_finish = ''length''\<rparr>" g]
  by (simp add: gen_loop_def)

text \<open>
  The ways \<open>inference_complete\<close> can return: a failure before generation, with no text sent,
  or the state after the generation loop.
\<close>

definition failed_early :: "'c \<Rightarrow> ('s, 'c) inf_out \<Rightarrow> bool" where
  "failed_early c o' \<longleftrightarrow> io_rc o' = - 1 \<and> io_completion_tokens o' = 0 \<and> io_sink o' = c \<and>
     io_finish o' \<in> {''backend_error'', ''context_overflow''}"

definition generated :: "'s llama \<Rightarrow> engine \<Rightarrow> sample_params \<Rightarrow> (nat \<Rightarrow> gen_obs) \<Rightarrow>
    ('c \<Rightarrow> string \<Rightarrow> (int \<times> 'c) option) \<Rightarrow> 'c \<Rightarrow> ('s, 'c) inf_out \<Rightarrow> bool" where
  "generated L eng p env cb c o' \<longleftrightarrow> io_rc o' = 0 \<and> 0 \<le> io_prompt_tokens o' \<and> 0 < gen_limit eng p (io_prompt_tokens o') \<and>
     (\<exists>s2 g. gen_loop L p env cb (gen_limit eng p (io_prompt_tokens o')) s2 c = Some g \<and>
       io_finish o' = g_finish g \<and> io_completion_tokens o' = g_count g \<and> io_sink o' = g_sink g)"

lemma inf_failD:
  "inf_fail r n s c = Some (InfRet o') \<Longrightarrow> r \<in> {''backend_error'', ''context_overflow''} \<Longrightarrow> failed_early c o'"
  by (auto simp: inf_fail_def failed_early_def)

lemma generatedI:
  "gen_loop L p env cb (gen_limit eng p n) s2 c = Some g \<Longrightarrow> \<not> gen_limit eng p n \<le> 0 \<Longrightarrow> \<not> n < 0 \<Longrightarrow>
   generated L eng p env cb c \<lparr>io_rc = 0, io_finish = g_finish g, io_prompt_tokens = n,
     io_completion_tokens = g_count g, io_llama = s', io_sink = g_sink g\<rparr>"
  by (auto simp: generated_def)

lemma inference_complete_cases:
  assumes "inference_complete L eng alloc prompt p env cb s c = Some (InfRet o')"
  shows "failed_early c o' \<or> generated L eng p env cb c o'"
  using assms unfolding inference_complete_def Let_def
  by (auto simp del: not_le dest: inf_failD intro: generatedI
      split: if_split_asm prod.split_asm option.split_asm)

lemma gen_limit_le: "gen_limit eng p n \<le> sp_max_tokens p \<and> n + gen_limit eng p n \<le> en_n_ctx eng"
  by (simp add: gen_limit_def)

text \<open>What a run reports: success within the limits, or an early failure.\<close>

definition within_limits :: "engine \<Rightarrow> sample_params \<Rightarrow> 'c \<Rightarrow> ('s, 'c) inf_out \<Rightarrow> bool" where
  "within_limits eng p c o' \<longleftrightarrow>
     io_rc o' = 0 \<and> 0 \<le> io_prompt_tokens o' \<and> 0 \<le> io_completion_tokens o' \<and>
       io_completion_tokens o' \<le> sp_max_tokens p \<and> io_prompt_tokens o' + io_completion_tokens o' \<le> en_n_ctx eng \<and>
       (io_finish o' \<in> set stopped_reasons \<or> io_finish o' = ''length'' \<and>
          io_completion_tokens o' = gen_limit eng p (io_prompt_tokens o')) \<or> failed_early c o'"

lemma complete_limits:
  assumes "inference_complete L eng alloc prompt p env cb s c = Some (InfRet o')"
  shows "within_limits eng p c o'"
proof -
  from inference_complete_cases [OF assms] show ?thesis
  proof
    assume "generated L eng p env cb c o'"
    then obtain s2 g where pos: "0 < gen_limit eng p (io_prompt_tokens o')"
      and run: "gen_loop L p env cb (gen_limit eng p (io_prompt_tokens o')) s2 c = Some g"
      and o': "io_rc o' = 0" "0 \<le> io_prompt_tokens o'" "io_finish o' = g_finish g"
        "io_completion_tokens o' = g_count g"
      by (auto simp: generated_def)
    from gen_loop_bounds [OF run pos] gen_limit_le [of eng p "io_prompt_tokens o'"] o'
    show ?thesis unfolding within_limits_def by (intro disjI1) (auto simp del: insert_iff)
  qed (simp add: within_limits_def)
qed

lemma render_chat_reason:
  "render_chat L eng al ms = Some (Inl r) \<Longrightarrow> r \<in> {''backend_error'', ''context_overflow''}"
  by (auto simp: render_chat_def Let_def split: if_splits option.splits prod.splits)

lemma render_chat_defined: "render_chat L eng al ms \<noteq> None"
  by (simp add: render_chat_def build_chatml_prompt_text Let_def split: prod.split)

lemma chat_limits:
  assumes "inference_chat L eng al ms p env cb s c = Some (InfRet o')"
  shows "within_limits eng p c o'"
proof (cases "render_chat L eng al ms")
  case None
  then show ?thesis using render_chat_defined by blast
next
  case (Some r)
  show ?thesis
  proof (cases r)
    case (Inl reason)
    with assms Some have "inf_fail reason 0 s c = Some (InfRet o')" by (simp add: inference_chat_def)
    from inf_failD [OF this] render_chat_reason [of L eng al ms reason] Some Inl
    show ?thesis by (simp add: within_limits_def)
  next
    case (Inr prompt)
    with assms Some complete_limits show ?thesis by (simp add: inference_chat_def)
  qed
qed

text \<open>The sample backend decodes every prompt, so a completion is a run of the loop.\<close>

lemma script_decode_all: "decode_all (ll_decode script_llama) cs s = (0, s)"
  by (induction cs) (simp_all add: script_llama_def)

lemma script_fields:
  "ll_clear script_llama s = s" "ll_count script_llama t = - int (length t)"
  "ll_tokenize script_llama t (int (length t)) = (int (length t), map (\<lambda>c. int (of_char c)) t)"
  "ll_chain script_llama s ch = Some s"
  by (simp_all add: script_llama_def)

lemma script_complete:
  "prompt \<noteq> [] \<Longrightarrow> int (length prompt) < en_n_ctx eng \<Longrightarrow> 0 < en_n_batch eng \<Longrightarrow>
   in_i32 (int (length prompt) + sp_max_tokens p) \<Longrightarrow> 0 < gen_limit eng p (int (length prompt)) \<Longrightarrow>
   inference_complete script_llama eng True prompt p env cb s c =
     map_option (\<lambda>g. InfRet \<lparr>io_rc = 0, io_finish = g_finish g, io_prompt_tokens = int (length prompt),
         io_completion_tokens = g_count g, io_llama = g_llama g, io_sink = g_sink g\<rparr>)
       (gen_loop script_llama p env cb (gen_limit eng p (int (length prompt))) s c)"
  unfolding inference_complete_def Let_def
  by (simp add: script_fields decode_prompt_chunks script_decode_all)

text \<open>
  C20. A completion respects its limits. When \<open>inference_complete\<close> returns 0, prompt and
  answer together fit the context, the answer has at most \<open>max_tokens\<close> tokens, and the finish
  reason is one of five, with \<open>length\<close> only when the limit was reached; when it returns
  -1, the reason is \<open>backend_error\<close> or \<open>context_overflow\<close>, no token was generated and the
  callback was never called.
\<close>

theorem inference_complete_limits:
  assumes "inference_complete L eng alloc prompt p env cb s c = Some (InfRet o')"
  shows "io_rc o' = 0 \<and> 0 \<le> io_prompt_tokens o' \<and> 0 \<le> io_completion_tokens o' \<and>
      io_completion_tokens o' \<le> sp_max_tokens p \<and> io_prompt_tokens o' + io_completion_tokens o' \<le> en_n_ctx eng \<and>
      (io_finish o' \<in> set stopped_reasons \<or> io_finish o' = ''length'' \<and>
         io_completion_tokens o' = gen_limit eng p (io_prompt_tokens o')) \<or>
    io_rc o' = - 1 \<and> io_completion_tokens o' = 0 \<and> io_sink o' = c \<and>
      io_finish o' \<in> {''backend_error'', ''context_overflow''}"
  using complete_limits [OF assms] unfolding within_limits_def failed_early_def .

theorem inference_complete_limits_witness:
  "\<exists>o'. inference_complete script_llama \<lparr>en_chat_template = [], en_use_chatml_fallback = True,
       en_n_ctx = 4, en_n_batch = 2\<rparr> True ''Hi'' sample_par no_flags keep_cb [97, 98, 99] [] = Some (InfRet o') \<and>
     io_prompt_tokens o' + io_completion_tokens o' \<le> 4 \<and> io_sink o' = [''a!'', ''b!'']"
proof -
  let ?e = "\<lparr>en_chat_template = [], en_use_chatml_fallback = True, en_n_ctx = 4, en_n_batch = 2\<rparr> :: engine"
  have "gen_loop script_llama sample_par no_flags keep_cb 2 [97, 98, 99] [] =
      Some \<lparr>g_llama = [99], g_sink = [''a!'', ''b!''], g_window = ''a!b!'', g_count = 2, g_finish = ''length''\<rparr>"
    by code_simp
  then have run: "inference_complete script_llama ?e True ''Hi'' sample_par no_flags keep_cb [97, 98, 99] [] =
      Some (InfRet \<lparr>io_rc = 0, io_finish = ''length'', io_prompt_tokens = 2, io_completion_tokens = 2,
        io_llama = [99], io_sink = [''a!'', ''b!'']\<rparr>)"
    by (simp add: script_complete gen_limit_def sample_par_def in_i32_def INT32_MIN_def INT32_MAX_def)
  from inference_complete_limits [OF this] run show ?thesis by simp
qed

context token_sink
begin

lemma complete_sent:
  assumes "ok c" and "inference_complete L eng alloc prompt p env cb s c = Some (InfRet o')"
  shows "ok (io_sink o') \<and> sent L fmt 0 (io_completion_tokens o') (out c) (out (io_sink o'))"
  using inference_complete_cases [OF assms(2)]
proof
  assume "generated L eng p env cb c o'"
  then obtain s2 g where g: "gen_loop L p env cb (gen_limit eng p (io_prompt_tokens o')) s2 c = Some g"
    "io_completion_tokens o' = g_count g" "io_sink o' = g_sink g"
    by (auto simp: generated_def)
  from loop_sent [OF _ g(1) [unfolded gen_loop_def]] assms(1) g(2,3) show ?thesis by simp
qed (use assms(1) in \<open>simp add: failed_early_def sent_refl\<close>)

lemma chat_sent:
  assumes "ok c" and "inference_chat L eng al ms p env cb s c = Some (InfRet o')"
  shows "ok (io_sink o') \<and> sent L fmt 0 (io_completion_tokens o') (out c) (out (io_sink o'))"
  using assms
  by (auto simp: inference_chat_def inf_fail_def sent_refl split: option.splits sum.splits
      dest: complete_sent [OF assms(1)])

end

context total_sink
begin

lemma complete_returns:
  assumes "ok c" and "0 < en_n_batch eng"
  shows "inference_complete L eng alloc prompt p env cb s c \<noteq> None"
proof -
  have "gen_loop L p env cb m s2 c \<noteq> None" for m s2
    using loop_returns [of "\<lparr>g_llama = s2, g_sink = c, g_window = [], g_count = 0, g_finish = ''length''\<rparr>"] assms(1)
    unfolding gen_loop_def by simp
  then show ?thesis
    unfolding inference_complete_def Let_def
    by (auto simp del: not_None_eq simp: inf_fail_def decode_prompt_chunks [OF assms(2)]
        split: prod.split option.split)
qed

lemma chat_returns:
  "ok c \<Longrightarrow> 0 < en_n_batch eng \<Longrightarrow> inference_chat L eng al ms p env cb s c \<noteq> None"
  using complete_returns [of c eng L "al_tokens al"]
  by (simp del: not_None_eq add: inference_chat_def inf_fail_def split: option.split sum.split)

end

section \<open>No overflow\<close>

text \<open>The promise of \<open>llama_tokenize\<close>, and limits that the validation of the configuration gives.\<close>

definition tokenizer_ok :: "'s llama \<Rightarrow> bool" where
  "tokenizer_ok L \<longleftrightarrow> (\<forall>t n. 0 \<le> n \<longrightarrow> fst (ll_tokenize L t n) \<le> n)"

definition limits_ok :: "engine \<Rightarrow> sample_params \<Rightarrow> bool" where
  "limits_ok eng p \<longleftrightarrow> 1 \<le> sp_max_tokens p \<and> sp_max_tokens p \<le> en_n_ctx eng \<and> en_n_ctx eng \<le> 2 ^ 30"

lemma complete_defined:
  assumes "tokenizer_ok L" and "limits_ok eng p"
  shows "inference_complete L eng alloc prompt p env cb s c \<noteq> Some InfUndef"
proof -
  have ok: "in_i32 (n + sp_max_tokens p)"
    if "ll_tokenize L prompt k = (n, toks)" and "0 \<le> k" and "\<not> en_n_ctx eng \<le> k" and "\<not> n < 0"
    for n k toks
  proof -
    from assms(1) that(1,2) have "n \<le> k" unfolding tokenizer_ok_def by (metis fst_conv)
    with assms(2) that show ?thesis by (simp add: limits_ok_def in_i32_def INT32_MIN_def INT32_MAX_def)
  qed
  have neg: "in_i32 (n + sp_max_tokens p)"
    if "ll_tokenize L prompt (- k) = (n, toks)" and "\<not> en_n_ctx eng \<le> - k" and "\<not> n < 0" and "k < 0"
    for n k toks
    using that by (intro ok [of "- k"]) auto
  have pos: "in_i32 (n + sp_max_tokens p)"
    if "ll_tokenize L prompt k = (n, toks)" and "\<not> en_n_ctx eng \<le> k" and "\<not> n < 0" and "\<not> k < 0"
    for n k toks
    using that by (intro ok [of k]) auto
  show ?thesis
    unfolding inference_complete_def Let_def inf_fail_def
    by (auto simp del: not_le dest: pos neg split: if_split_asm prod.split_asm option.split_asm)
qed

lemma chat_defined:
  "tokenizer_ok L \<Longrightarrow> limits_ok eng p \<Longrightarrow> inference_chat L eng al ms p env cb s c \<noteq> Some InfUndef"
  using complete_defined [of L eng p "al_tokens al" _ env cb s c] render_chat_defined [of L eng al ms]
  by (simp add: inference_chat_def inf_fail_def split: option.split sum.split)



text \<open>The two limits cannot be dropped: a context of \<open>INT32_MAX\<close> tokens passes validation.\<close>

lemma large_context_overflows:
  "inference_complete script_llama \<lparr>en_chat_template = [], en_use_chatml_fallback = True,
     en_n_ctx = INT32_MAX, en_n_batch = 2048\<rparr> True ''Hi'' (sample_par\<lparr>sp_max_tokens := INT32_MAX\<rparr>)
     no_flags keep_cb [97] [] = Some InfUndef"
  by (simp add: inference_complete_def script_llama_def sample_par_def in_i32_def INT32_MIN_def
      INT32_MAX_def)

end
