(* ===== verification/Worker.thy ===== *)
theory Worker
  imports Ring Generate
begin

text \<open>
  src/src/worker.h and src/src/worker.c: the job record, the two token callbacks (each an
  instance of the contract of Generate), the body of the worker thread for one job, and the
  operations of the worker on the shared \<open>current_job\<close> pointer over a heap of jobs. What
  other threads do between two reads of a shared variable is given as an observation.
\<close>

section \<open>Jobs\<close>

datatype job_type = JobChat | JobCompletion

datatype job_state = JobIdle | JobRunning | JobDone | JobError

text \<open>
  \<open>wj_response_buf\<close> is the text in the buffer before its NUL, or \<open>None\<close> for the null pointer;
  \<open>wj_mgr\<close> says whether the pointer to the event manager is set.
\<close>

record worker_job =
  wj_type :: job_type
  wj_chat_req :: chat_request
  wj_comp_req :: completion_request
  wj_params :: sample_params
  wj_request_id :: string
  wj_model_id :: string
  wj_stream :: bool
  wj_stop :: "string list"
  wj_cancel :: bool
  wj_orphaned :: bool
  wj_state :: job_state
  wj_finish_reason :: string
  wj_prompt_tokens :: int
  wj_completion_tokens :: int
  wj_ring :: token_ring
  wj_response_buf :: "string option"
  wj_response_len :: nat
  wj_response_cap :: nat
  wj_mgr :: bool
  wj_wakeup_id :: nat

definition zero_chat_request :: chat_request where
  "zero_chat_request = \<lparr>cr_model = [], cr_messages = [], cr_temperature = Fin 0, cr_top_p = Fin 0,
     cr_max_tokens = 0, cr_frequency_penalty = Fin 0, cr_presence_penalty = Fin 0,
     cr_repeat_penalty = Fin 0, cr_stop = [], cr_stream = False\<rparr>"

definition zero_completion_request :: completion_request where
  "zero_completion_request = \<lparr>pr_model = [], pr_prompt = [], pr_temperature = Fin 0, pr_top_p = Fin 0,
     pr_max_tokens = 0, pr_repeat_penalty = Fin 0, pr_stop = [], pr_stream = False\<rparr>"

definition zero_params :: sample_params where
  "zero_params = \<lparr>sp_temperature = Fin 0, sp_top_p = Fin 0, sp_top_k = 0, sp_repeat_penalty = Fin 0,
     sp_frequency_penalty = Fin 0, sp_presence_penalty = Fin 0, sp_max_tokens = 0,
     sp_max_inference_seconds = 0, sp_stop = [], sp_n_stop = 0\<rparr>"

definition worker_job_init :: worker_job where
  "worker_job_init = \<lparr>wj_type = JobChat, wj_chat_req = zero_chat_request,
     wj_comp_req = zero_completion_request, wj_params = zero_params, wj_request_id = [],
     wj_model_id = [], wj_stream = False, wj_stop = [], wj_cancel = False, wj_orphaned = False,
     wj_state = JobIdle, wj_finish_reason = [], wj_prompt_tokens = 0, wj_completion_tokens = 0,
     wj_ring = ring_init, wj_response_buf = None, wj_response_len = 0, wj_response_cap = 0,
     wj_mgr = False, wj_wakeup_id = 0\<rparr>"

definition worker_job_free :: "worker_job \<Rightarrow> worker_job" where
  "worker_job_free job =
     (let job1 = (if wj_type job = JobChat
                  then job\<lparr>wj_chat_req := chat_request_free (wj_chat_req job)\<rparr> else job)
      in if wj_response_buf job1 \<noteq> None then job1\<lparr>wj_response_buf := None\<rparr> else job1)"

section \<open>The streaming callback\<close>

text \<open>
  What happens around one call: the tokens that the event loop takes before the emptiness
  check and between the check and the write, the flags when the write starts, the
  observations while it waits, and whether \<open>job->mgr\<close> is still set afterwards.
\<close>

record stream_obs =
  so_before :: nat
  so_between :: nat
  so_cancel :: bool
  so_shutdown :: bool
  so_waits :: "wait_obs list"
  so_mgr :: bool

text \<open>
  \<open>stream_cb_data_t\<close>, with the history that the statements need: the calls made, the tokens
  read so far by the event loop, the tokens written, and the values of that count at which
  \<open>mg_wakeup\<close> was called.
\<close>

record stream_cb_data =
  sd_job :: worker_job
  sd_tokens_since_wake :: nat
  sd_calls :: nat
  sd_read :: "string list"
  sd_written :: nat
  sd_wakes :: "nat list"

definition stream_token_cb ::
    "(nat \<Rightarrow> stream_obs) \<Rightarrow> stream_cb_data \<Rightarrow> string \<Rightarrow> (int \<times> stream_cb_data) option" where
  "stream_token_cb env sd text =
     (let ob = env (sd_calls sd); job = sd_job sd;
          (ts1, r1) = drain_batch (so_before ob) (wj_ring job);
          was_empty = ring_is_empty r1;
          (ts2, r2) = drain_batch (so_between ob) r1
      in case ring_write (so_waits ob) r2 text (so_cancel ob) (so_shutdown ob) of
          None \<Rightarrow> None
        | Some (rc, ts3, r3) \<Rightarrow>
            let sd1 = sd\<lparr>sd_job := job\<lparr>wj_ring := r3\<rparr>, sd_calls := sd_calls sd + 1,
                         sd_read := sd_read sd @ ts1 @ ts2 @ ts3\<rparr> in
            if rc \<noteq> 0 then Some (- 1, sd1)
            else let n = sd_tokens_since_wake sd + 1; k = sd_written sd + 1;
                     sd2 = sd1\<lparr>sd_tokens_since_wake := n, sd_written := k\<rparr> in
              if so_mgr ob \<and> (was_empty \<or> 8 \<le> n)
              then Some (0, sd2\<lparr>sd_tokens_since_wake := 0, sd_wakes := sd_wakes sd @ [k]\<rparr>)
              else Some (0, sd2))"

definition stream_start :: "worker_job \<Rightarrow> stream_cb_data" where
  "stream_start job = \<lparr>sd_job = job, sd_tokens_since_wake = 0, sd_calls = 0, sd_read = [],
     sd_written = 0, sd_wakes = []\<rparr>"

section \<open>The accumulating callback\<close>

record accum_obs =
  ao_cancel :: bool
  ao_shutdown :: bool
  ao_realloc :: bool

record accum_cb_data =
  ad_job :: worker_job
  ad_calls :: nat

text \<open>
  The final \<open>memcpy\<close> and terminator. Writing outside the allocated bytes, or through the
  null pointer, would be undefined: \<open>None\<close>.
\<close>

definition accum_store :: "accum_cb_data \<Rightarrow> string \<Rightarrow> (int \<times> accum_cb_data) option" where
  "accum_store ad text = (let job = ad_job ad in
     case wj_response_buf job of
       None \<Rightarrow> None
     | Some buf \<Rightarrow>
         if wj_response_cap job < wj_response_len job + length text + 1 then None
         else Some (0, ad\<lparr>ad_job := job\<lparr>wj_response_buf := Some (take (wj_response_len job) buf @ text),
                wj_response_len := wj_response_len job + length text\<rparr>\<rparr>))"

text \<open>The new capacity: twice the old one, at least what is needed, at most 65536.\<close>

definition grow_cap :: "nat \<Rightarrow> nat \<Rightarrow> nat" where
  "grow_cap cap len =
     (let new_cap = cap * 2;
          new_cap = (if new_cap < len + 1 then len + 1 else new_cap)
      in if PROF_CONTENT_MAX < new_cap then PROF_CONTENT_MAX else new_cap)"

definition accum_token_cb ::
    "(nat \<Rightarrow> accum_obs) \<Rightarrow> accum_cb_data \<Rightarrow> string \<Rightarrow> (int \<times> accum_cb_data) option" where
  "accum_token_cb env ad0 text =
     (let ob = env (ad_calls ad0); ad = ad0\<lparr>ad_calls := ad_calls ad0 + 1\<rparr>; job = ad_job ad in
      if ao_cancel ob \<or> ao_shutdown ob then Some (- 1, ad)
      else let tlen = length text in
        if wj_response_cap job \<le> wj_response_len job + tlen
        then let new_cap = grow_cap (wj_response_cap job) (wj_response_len job + tlen)
             in if new_cap \<le> wj_response_len job + tlen then Some (- 1, ad)
                else if \<not> ao_realloc ob then Some (- 1, ad)
                else accum_store (ad\<lparr>ad_job := job\<lparr>wj_response_cap := new_cap\<rparr>\<rparr>) text
        else accum_store ad text)"

definition response_cap_for :: "int \<Rightarrow> nat" where
  "response_cap_for max_tokens =
     (let c0 = (if 0 < max_tokens then nat max_tokens * 16 else 8192);
          c1 = (if c0 < 8192 then 8192 else c0)
      in if PROF_CONTENT_MAX < c1 then PROF_CONTENT_MAX else c1)"

section \<open>One job on the worker thread\<close>

text \<open>Everything outside this component that a run depends on.\<close>

record 's run_env =
  re_llama :: "'s llama"
  re_engine :: engine
  re_allocs :: chat_allocs
  re_malloc :: bool
  re_gen :: "nat \<Rightarrow> gen_obs"
  re_stream :: "nat \<Rightarrow> stream_obs"
  re_accum :: "nat \<Rightarrow> accum_obs"

datatype 's job_run = JobRan worker_job 's "string list" | JobUndef

definition run_inference ::
    "'s run_env \<Rightarrow> worker_job \<Rightarrow> ('c \<Rightarrow> string \<Rightarrow> (int \<times> 'c) option) \<Rightarrow> 's \<Rightarrow> 'c \<Rightarrow>
     ('s, 'c) inf_result option" where
  "run_inference e job cb s c =
     (if wj_type job = JobChat
      then inference_chat (re_llama e) (re_engine e) (re_allocs e) (cr_messages (wj_chat_req job))
             (wj_params job) (re_gen e) cb s c
      else inference_complete (re_llama e) (re_engine e) (al_tokens (re_allocs e))
             (pr_prompt (wj_comp_req job)) (wj_params job) (re_gen e) cb s c)"

definition job_outcome :: "worker_job \<Rightarrow> ('s, 'c) inf_out \<Rightarrow> worker_job" where
  "job_outcome job o' = job\<lparr>wj_finish_reason := io_finish o', wj_prompt_tokens := io_prompt_tokens o',
     wj_completion_tokens := io_completion_tokens o',
     wj_state := (if io_rc o' = 0 then JobDone else JobError)\<rparr>"

definition worker_run_job :: "'s run_env \<Rightarrow> worker_job \<Rightarrow> 's \<Rightarrow> 's job_run option" where
  "worker_run_job e job0 s =
     (let job = job0\<lparr>wj_state := JobRunning\<rparr> in
      if wj_stream job
      then (case run_inference e job (stream_token_cb (re_stream e)) s (stream_start job) of
          None \<Rightarrow> None
        | Some InfUndef \<Rightarrow> Some JobUndef
        | Some (InfRet o') \<Rightarrow>
            let j1 = sd_job (io_sink o'); j2 = j1\<lparr>wj_ring := (wj_ring j1)\<lparr>r_done := True\<rparr>\<rparr>
            in Some (JobRan (job_outcome j2 o') (io_llama o') (sd_read (io_sink o'))))
      else let job1 = job\<lparr>wj_response_cap := response_cap_for (sp_max_tokens (wj_params job)),
                          wj_response_len := 0,
                          wj_response_buf := (if re_malloc e then Some [] else None)\<rparr> in
        if wj_response_buf job1 = None
        then Some (JobRan (job1\<lparr>wj_finish_reason := ''backend_error'', wj_state := JobError\<rparr>) s [])
        else (case run_inference e job1 (accum_token_cb (re_accum e)) s \<lparr>ad_job = job1, ad_calls = 0\<rparr> of
            None \<Rightarrow> None
          | Some InfUndef \<Rightarrow> Some JobUndef
          | Some (InfRet o') \<Rightarrow> Some (JobRan (job_outcome (ad_job (io_sink o')) o') (io_llama o') [])))"

section \<open>The worker and its current job\<close>

text \<open>
  Jobs live on a heap; \<open>None\<close> as a result is a use of a freed job. \<open>worker_init\<close> reports
  which of the mutex, the condition variable and the thread could be created.
\<close>

type_synonym heap = "nat \<Rightarrow> worker_job option"

record worker =
  wk_current :: "nat option"
  wk_running :: bool

definition worker_init :: "bool \<Rightarrow> bool \<Rightarrow> bool \<Rightarrow> int \<times> worker" where
  "worker_init mutex_ok cond_ok thread_ok =
     (if \<not> mutex_ok \<or> \<not> cond_ok \<or> \<not> thread_ok then - 1 else 0,
      \<lparr>wk_current = None, wk_running = True\<rparr>)"

definition worker_destroy :: "worker \<Rightarrow> worker" where
  "worker_destroy w = w\<lparr>wk_running := False\<rparr>"

definition job_busy :: "worker_job \<Rightarrow> bool" where
  "job_busy job \<longleftrightarrow> wj_state job = JobIdle \<or> wj_state job = JobRunning"

definition set_current :: "heap \<Rightarrow> worker \<Rightarrow> nat \<Rightarrow> (int \<times> heap \<times> worker) option" where
  "set_current h w j = (case h j of
     None \<Rightarrow> None
   | Some job \<Rightarrow> Some (0, h(j \<mapsto> job\<lparr>wj_state := JobIdle, wj_cancel := False\<rparr>),
                      w\<lparr>wk_current := Some j\<rparr>))"

definition worker_submit :: "heap \<Rightarrow> worker \<Rightarrow> nat \<Rightarrow> (int \<times> heap \<times> worker) option" where
  "worker_submit h w j = (case wk_current w of
     None \<Rightarrow> set_current h w j
   | Some c \<Rightarrow> (case h c of
         None \<Rightarrow> None
       | Some cur \<Rightarrow> if job_busy cur then Some (- 1, h, w) else set_current h w j))"

definition worker_is_busy :: "heap \<Rightarrow> worker \<Rightarrow> bool option" where
  "worker_is_busy h w = (case wk_current w of
     None \<Rightarrow> Some False | Some c \<Rightarrow> map_option job_busy (h c))"

definition worker_cancel :: "heap \<Rightarrow> worker \<Rightarrow> heap option" where
  "worker_cancel h w = (case wk_current w of
     None \<Rightarrow> Some h
   | Some c \<Rightarrow> map_option (\<lambda>job. h(c \<mapsto> job\<lparr>wj_cancel := True\<rparr>)) (h c))"

section \<open>The accumulating callback keeps its contract\<close>

definition accum_text :: "accum_cb_data \<Rightarrow> string" where
  "accum_text ad = (case wj_response_buf (ad_job ad) of None \<Rightarrow> [] | Some b \<Rightarrow> b)"

definition buffer_ok :: "worker_job \<Rightarrow> bool" where
  "buffer_ok job \<longleftrightarrow> (\<exists>buf. wj_response_buf job = Some buf \<and> length buf = wj_response_len job) \<and>
     wj_response_len job < wj_response_cap job \<and> wj_response_cap job \<le> PROF_CONTENT_MAX"

definition accum_ok :: "accum_cb_data \<Rightarrow> bool" where
  "accum_ok ad \<longleftrightarrow> buffer_ok (ad_job ad)"

text \<open>What a run leaves alone.\<close>

definition job_frame :: "worker_job \<Rightarrow> job_type \<times> bool \<times> string \<times> string \<times> sample_params" where
  "job_frame job = (wj_type job, wj_stream job, wj_request_id job, wj_model_id job, wj_params job)"

lemma job_frame_outcome [simp]: "job_frame (job_outcome job o') = job_frame job"
  by (simp add: job_frame_def job_outcome_def)

lemma accum_frame:
  "accum_token_cb env ad s = Some (rc, ad') \<Longrightarrow> job_frame (ad_job ad') = job_frame (ad_job ad)"
  by (auto simp: accum_token_cb_def accum_store_def Let_def job_frame_def split: if_splits option.splits)

lemma accum_store_ok:
  assumes "wj_response_buf (ad_job ad) = Some buf" and "length buf = wj_response_len (ad_job ad)"
    and "wj_response_len (ad_job ad) + length s < wj_response_cap (ad_job ad)"
    and "wj_response_cap (ad_job ad) \<le> PROF_CONTENT_MAX"
  shows "\<exists>ad'. accum_store ad s = Some (0, ad') \<and> accum_ok ad' \<and> accum_text ad' = buf @ s"
  using assms by (simp add: accum_store_def accum_ok_def buffer_ok_def accum_text_def Let_def)

lemma accum_token_cb_spec:
  assumes "accum_ok ad"
  shows "\<exists>rc ad'. accum_token_cb env ad s = Some (rc, ad') \<and> accum_ok ad' \<and>
    (rc = 0 \<and> accum_text ad' = accum_text ad @ s \<or> rc = - 1 \<and> accum_text ad' = accum_text ad)"
proof -
  let ?job = "ad_job ad" and ?ad1 = "ad\<lparr>ad_calls := ad_calls ad + 1\<rparr>"
  obtain buf where buf: "wj_response_buf ?job = Some buf" "length buf = wj_response_len ?job"
    and len: "wj_response_len ?job < wj_response_cap ?job" "wj_response_cap ?job \<le> PROF_CONTENT_MAX"
    using assms by (auto simp: accum_ok_def buffer_ok_def)
  have same: "accum_ok ?ad1" "accum_text ?ad1 = accum_text ad" "accum_text ad = buf"
    using assms buf by (simp_all add: accum_ok_def accum_text_def)
  define cap where "cap = grow_cap (wj_response_cap ?job) (wj_response_len ?job + length s)"
  have cap_max: "cap \<le> PROF_CONTENT_MAX" by (simp add: cap_def grow_cap_def Let_def)
  consider "ao_cancel (env (ad_calls ad)) \<or> ao_shutdown (env (ad_calls ad))"
    | "\<not> (ao_cancel (env (ad_calls ad)) \<or> ao_shutdown (env (ad_calls ad)))"
      "wj_response_cap ?job \<le> wj_response_len ?job + length s"
      "cap \<le> wj_response_len ?job + length s \<or> \<not> ao_realloc (env (ad_calls ad))"
    | "\<not> (ao_cancel (env (ad_calls ad)) \<or> ao_shutdown (env (ad_calls ad)))"
      "wj_response_cap ?job \<le> wj_response_len ?job + length s"
      "wj_response_len ?job + length s < cap" "ao_realloc (env (ad_calls ad))"
    | "\<not> (ao_cancel (env (ad_calls ad)) \<or> ao_shutdown (env (ad_calls ad)))"
      "wj_response_len ?job + length s < wj_response_cap ?job"
    by linarith
  then show ?thesis
  proof cases
    case 1
    then have "accum_token_cb env ad s = Some (- 1, ?ad1)" by (simp add: accum_token_cb_def Let_def)
    with same show ?thesis by simp
  next
    case 2
    then have "accum_token_cb env ad s = Some (- 1, ?ad1)"
      by (auto simp: accum_token_cb_def Let_def cap_def)
    with same show ?thesis by simp
  next
    case 3
    then have "accum_token_cb env ad s = accum_store (?ad1\<lparr>ad_job := ?job\<lparr>wj_response_cap := cap\<rparr>\<rparr>) s"
      by (simp add: accum_token_cb_def Let_def cap_def)
    with accum_store_ok [of "?ad1\<lparr>ad_job := ?job\<lparr>wj_response_cap := cap\<rparr>\<rparr>" buf s] buf 3 cap_max same
    show ?thesis by auto
  next
    case 4
    then have "accum_token_cb env ad s = accum_store ?ad1 s"
      by (simp add: accum_token_cb_def Let_def)
    with accum_store_ok [of ?ad1 buf s] buf 4 len same show ?thesis by auto
  qed
qed

interpretation acc: total_sink "accum_token_cb env" accum_text
    "\<lambda>ad. accum_ok ad \<and> job_frame (ad_job ad) = k" "\<lambda>s. s"
  for env :: "nat \<Rightarrow> accum_obs" and k :: "job_type \<times> bool \<times> string \<times> string \<times> sample_params"
proof unfold_locales
  fix c s rc c'
  assume ok: "accum_ok c \<and> job_frame (ad_job c) = k"
  note spec = accum_token_cb_spec [OF conjunct1 [OF ok], of env s]
  show "accum_token_cb env c s = Some (0, c') \<Longrightarrow>
      (accum_ok c' \<and> job_frame (ad_job c') = k) \<and> accum_text c' = accum_text c @ s"
    using spec accum_frame [of env c s 0 c'] ok by auto
  show "accum_token_cb env c s = Some (rc, c') \<Longrightarrow> rc \<noteq> 0 \<Longrightarrow>
      (accum_ok c' \<and> job_frame (ad_job c') = k) \<and> accum_text c' = accum_text c"
    using spec accum_frame [of env c s rc c'] ok by auto
  show "accum_token_cb env c s \<noteq> None"
    using spec by auto
qed

section \<open>The streaming callback keeps its contract\<close>

definition stream_out :: "stream_cb_data \<Rightarrow> string list" where
  "stream_out sd = sd_read sd @ ring_list (wj_ring (sd_job sd))"

definition stream_ok :: "stream_cb_data \<Rightarrow> bool" where
  "stream_ok sd \<longleftrightarrow> ring_inv (wj_ring (sd_job sd))"

lemma drain_batch_append:
  "ring_inv r \<Longrightarrow> drain_batch k r = (ts, r') \<Longrightarrow> ring_inv r' \<and> ts @ ring_list r' = ring_list r"
  using drain_batch_spec [of r k ts r'] by simp

lemma stream_token_cb_spec:
  assumes ok: "stream_ok sd" and cb: "stream_token_cb env sd s = Some (rc, sd')"
  shows "stream_ok sd' \<and> (rc = 0 \<and> stream_out sd' = stream_out sd @ [take (TOKEN_TEXT_MAX - 1) s] \<or>
                          rc = - 1 \<and> stream_out sd' = stream_out sd)"
proof -
  let ?ob = "env (sd_calls sd)"
  obtain ts1 r1 where b1: "drain_batch (so_before ?ob) (wj_ring (sd_job sd)) = (ts1, r1)" by fastforce
  obtain ts2 r2 where b2: "drain_batch (so_between ?ob) r1 = (ts2, r2)" by fastforce
  from b1 b2 cb obtain rc' ts3 r3 where
    w: "ring_write (so_waits ?ob) r2 s (so_cancel ?ob) (so_shutdown ?ob) = Some (rc', ts3, r3)"
    by (auto simp: stream_token_cb_def Let_def split: option.splits)
  note d1 = drain_batch_append [OF ok [unfolded stream_ok_def] b1]
  note d2 = drain_batch_append [OF d1 [THEN conjunct1] b2]
  note d3 = ring_write_order [OF d2 [THEN conjunct1] w]
  have "sd_read sd' = sd_read sd @ ts1 @ ts2 @ ts3 \<and> wj_ring (sd_job sd') = r3 \<and>
      rc = (if rc' = 0 then 0 else - 1)"
    using cb b1 b2 w by (auto simp: stream_token_cb_def Let_def split: if_splits)
  then have out: "stream_out sd' = sd_read sd @ ts1 @ ts2 @ ts3 @ ring_list r3"
    and ok': "stream_ok sd' = ring_inv r3" and rc: "rc = (if rc' = 0 then 0 else - 1)"
    by (simp_all add: stream_out_def stream_ok_def)
  have old: "stream_out sd = sd_read sd @ ts1 @ ts2 @ ring_list r2"
    using d1 d2 by (simp only: stream_out_def)
  from d3 show ?thesis
    unfolding out old ok' rc by (elim conjE disjE) simp_all
qed

interpretation str: token_sink "stream_token_cb env" stream_out stream_ok
    "\<lambda>s. [take (TOKEN_TEXT_MAX - 1) s]"
  for env :: "nat \<Rightarrow> stream_obs"
  by unfold_locales (auto dest: stream_token_cb_spec)

section \<open>A job runs within its limits\<close>

lemma response_cap_for_bounds: "8192 \<le> response_cap_for m \<and> response_cap_for m \<le> PROF_CONTENT_MAX"
  by (simp add: response_cap_for_def Let_def)

lemma run_limits:
  "run_inference e job cb s c = Some (InfRet o') \<Longrightarrow> within_limits (re_engine e) (wj_params job) c o'"
  by (auto simp: run_inference_def intro: chat_limits complete_limits split: if_splits)

lemma run_defined:
  "tokenizer_ok (re_llama e) \<Longrightarrow> limits_ok (re_engine e) (wj_params job) \<Longrightarrow>
   run_inference e job cb s c \<noteq> Some InfUndef"
  by (simp add: run_inference_def chat_defined complete_defined)

lemma acc_run_returns:
  "accum_ok c \<Longrightarrow> 0 < en_n_batch (re_engine e) \<Longrightarrow>
   run_inference e job (accum_token_cb env) s c \<noteq> None"
  by (simp del: not_None_eq add: run_inference_def acc.chat_returns [where k = "job_frame (ad_job c)"]
      acc.complete_returns [where k = "job_frame (ad_job c)"])

lemma acc_run_sent:
  "accum_ok c \<Longrightarrow> run_inference e job (accum_token_cb env) s c = Some (InfRet o') \<Longrightarrow>
   accum_ok (io_sink o') \<and> job_frame (ad_job (io_sink o')) = job_frame (ad_job c) \<and>
   sent (re_llama e) (\<lambda>s. s) 0 (io_completion_tokens o') (accum_text c) (accum_text (io_sink o'))"
  unfolding run_inference_def
  by (cases "wj_type job = JobChat")
     (auto dest: acc.chat_sent [where k = "job_frame (ad_job c)", OF conjI [OF _ refl]]
        acc.complete_sent [where k = "job_frame (ad_job c)", OF conjI [OF _ refl]])

lemma str_run_sent:
  "stream_ok c \<Longrightarrow> run_inference e job (stream_token_cb env) s c = Some (InfRet o') \<Longrightarrow>
   stream_ok (io_sink o') \<and>
   sent (re_llama e) (\<lambda>s. [take (TOKEN_TEXT_MAX - 1) s]) 0 (io_completion_tokens o')
     (stream_out c) (stream_out (io_sink o'))"
  unfolding run_inference_def
  by (cases "wj_type job = JobChat") (auto dest: str.chat_sent [rotated] str.complete_sent [rotated])

text \<open>What the finished job says about its run.\<close>

definition job_result_ok :: "engine \<Rightarrow> sample_params \<Rightarrow> worker_job \<Rightarrow> bool" where
  "job_result_ok eng p job \<longleftrightarrow>
     wj_state job = JobDone \<and> 0 \<le> wj_prompt_tokens job \<and> 0 \<le> wj_completion_tokens job \<and>
       wj_completion_tokens job \<le> sp_max_tokens p \<and>
       wj_prompt_tokens job + wj_completion_tokens job \<le> en_n_ctx eng \<and>
       wj_finish_reason job \<in> set (''length'' # stopped_reasons) \<or>
     wj_state job = JobError \<and> wj_completion_tokens job = 0 \<and>
       wj_finish_reason job \<in> {''backend_error'', ''context_overflow''}"

lemma job_outcome_ok: "within_limits eng p c o' \<Longrightarrow> job_result_ok eng p (job_outcome job o')"
  unfolding within_limits_def failed_early_def job_result_ok_def job_outcome_def by auto

lemma buffer_ok_outcome [simp]: "buffer_ok (job_outcome job o') = buffer_ok job"
  by (simp add: buffer_ok_def job_outcome_def)

lemma nonstream_job:
  assumes "\<not> wj_stream job" and "re_malloc e" and "0 < en_n_batch (re_engine e)"
    and "tokenizer_ok (re_llama e)" and "limits_ok (re_engine e) (wj_params job)"
  shows "\<exists>job' s' buf. worker_run_job e job s = Some (JobRan job' s' []) \<and>
    job_result_ok (re_engine e) (wj_params job) job' \<and> buffer_ok job' \<and> job_frame job' = job_frame job \<and>
    wj_response_buf job' = Some buf \<and>
    sent (re_llama e) (\<lambda>t. t) 0 (wj_completion_tokens job') [] buf"
proof -
  define job1 where "job1 = job\<lparr>wj_state := JobRunning,
    wj_response_cap := response_cap_for (sp_max_tokens (wj_params job)), wj_response_len := 0,
    wj_response_buf := Some []\<rparr>"
  let ?c = "\<lparr>ad_job = job1, ad_calls = 0\<rparr>"
  have ok: "accum_ok ?c" and emp: "accum_text ?c = []" and par: "wj_params job1 = wj_params job" "job_frame job1 = job_frame job"
    using response_cap_for_bounds [of "sp_max_tokens (wj_params job)"]
    by (simp_all add: accum_ok_def buffer_ok_def job1_def accum_text_def job_frame_def)
  obtain r where r: "run_inference e job1 (accum_token_cb (re_accum e)) s ?c = Some r"
    using acc_run_returns [OF ok assms(3), of job1 "re_accum e" s] by auto
  with run_defined [OF assms(4), of job1 "accum_token_cb (re_accum e)" s ?c] assms(5) par
  obtain o' where o': "r = InfRet o'" by (cases r) auto
  note run = r [unfolded o']
  have "worker_run_job e job s =
      Some (JobRan (job_outcome (ad_job (io_sink o')) o') (io_llama o') [])"
    using assms(1,2) run by (simp add: worker_run_job_def job1_def Let_def)
  moreover have "job_result_ok (re_engine e) (wj_params job) (job_outcome (ad_job (io_sink o')) o')"
    using run_limits [OF run] par by (simp add: job_outcome_ok)
  moreover note s = acc_run_sent [OF ok run, unfolded emp]
  from s obtain buf where "wj_response_buf (ad_job (io_sink o')) = Some buf"
    "accum_text (io_sink o') = buf" "buffer_ok (ad_job (io_sink o'))"
    by (auto simp: accum_ok_def buffer_ok_def accum_text_def)
  ultimately show ?thesis using s
    by (intro exI [of _ "job_outcome (ad_job (io_sink o')) o'"] exI [of _ "io_llama o'"] exI [of _ buf])
       (use par in \<open>simp add: job_outcome_def [of "ad_job (io_sink o')"] buffer_ok_def job_frame_def\<close>)
qed


definition sample_env :: "int list run_env" where
  "sample_env = \<lparr>re_llama = script_llama, re_engine = \<lparr>en_chat_template = [],
       en_use_chatml_fallback = True, en_n_ctx = 4096, en_n_batch = 2048\<rparr>,
     re_allocs = \<lparr>al_chatml = True, al_msgs = True, al_render = True, al_tokens = True\<rparr>,
     re_malloc = True, re_gen = no_flags,
     re_stream = (\<lambda>i. \<lparr>so_before = 1, so_between = 0, so_cancel = False, so_shutdown = False,
       so_waits = [], so_mgr = True\<rparr>),
     re_accum = (\<lambda>i. \<lparr>ao_cancel = False, ao_shutdown = False, ao_realloc = True\<rparr>)\<rparr>"

definition sample_job :: "bool \<Rightarrow> worker_job" where
  "sample_job stream = worker_job_init\<lparr>wj_type := JobCompletion, wj_stream := stream,
     wj_comp_req := zero_completion_request\<lparr>pr_prompt := ''Hi''\<rparr>, wj_params := sample_par\<rparr>"

lemma sample_job_stream [simp]: "wj_stream (sample_job b) = b"
  by (simp add: sample_job_def)

lemma sample_run:
  "run_inference sample_env ((sample_job b)\<lparr>wj_state := st, wj_response_cap := cap,
       wj_response_len := len, wj_response_buf := buf\<rparr>) cb s c =
     map_option (\<lambda>g. InfRet \<lparr>io_rc = 0, io_finish = g_finish g, io_prompt_tokens = 2,
         io_completion_tokens = g_count g, io_llama = g_llama g, io_sink = g_sink g\<rparr>)
       (gen_loop script_llama sample_par no_flags cb 8 s c)"
  "run_inference sample_env ((sample_job b)\<lparr>wj_state := st\<rparr>) cb s c =
     map_option (\<lambda>g. InfRet \<lparr>io_rc = 0, io_finish = g_finish g, io_prompt_tokens = 2,
         io_completion_tokens = g_count g, io_llama = g_llama g, io_sink = g_sink g\<rparr>)
       (gen_loop script_llama sample_par no_flags cb 8 s c)"
  using script_complete [of "''Hi''" "re_engine sample_env" sample_par no_flags cb s c]
  by (simp_all add: run_inference_def sample_job_def sample_env_def gen_limit_def sample_par_def
      zero_completion_request_def in_i32_def INT32_MIN_def INT32_MAX_def)


lemma stream_job:
  assumes "wj_stream job" and "wj_ring job = ring_init"
    and "worker_run_job e job s = Some (JobRan job' s' read)"
  shows "job_result_ok (re_engine e) (wj_params job) job' \<and> r_done (wj_ring job') \<and>
    ring_inv (wj_ring job') \<and>
    sent (re_llama e) (\<lambda>t. [take (TOKEN_TEXT_MAX - 1) t]) 0 (wj_completion_tokens job')
      [] (read @ ring_list (wj_ring job'))"
proof -
  let ?job1 = "job\<lparr>wj_state := JobRunning\<rparr>"
  have ok: "stream_ok (stream_start ?job1)" and start: "stream_out (stream_start ?job1) = []"
    using assms(2) by (simp_all add: stream_ok_def stream_out_def stream_start_def ring_inv_init ring_list_init)
  from assms(1,3) obtain o' where
    run: "run_inference e ?job1 (stream_token_cb (re_stream e)) s (stream_start ?job1) = Some (InfRet o')"
    and job': "job' = job_outcome ((sd_job (io_sink o'))\<lparr>wj_ring := (wj_ring (sd_job (io_sink o')))\<lparr>r_done := True\<rparr>\<rparr>) o'"
    and read: "read = sd_read (io_sink o')"
    by (auto simp: worker_run_job_def Let_def split: option.splits inf_result.splits)
  have "job_result_ok (re_engine e) (wj_params job) job'"
    using run_limits [OF run] job' job_outcome_ok by simp
  moreover have "wj_ring job' = (wj_ring (sd_job (io_sink o')))\<lparr>r_done := True\<rparr>"
    "wj_completion_tokens job' = io_completion_tokens o'"
    by (simp_all add: job' job_outcome_def)
  moreover note str_run_sent [OF ok run, unfolded start]
  ultimately show ?thesis by (simp add: read stream_ok_def stream_out_def)
qed



section \<open>Wake-ups\<close>

text \<open>
  \<open>wakes_ok sd\<close>: fewer than 8 tokens were written since the last wake-up, and consecutive
  wake-ups are at most 8 tokens apart.
\<close>

definition gaps :: "nat list \<Rightarrow> nat \<Rightarrow> bool" where
  "gaps ws start \<longleftrightarrow> (\<forall>i < length ws. (start # ws) ! i < ws ! i \<and> ws ! i \<le> (start # ws) ! i + 8)"

definition wakes_ok :: "stream_cb_data \<Rightarrow> bool" where
  "wakes_ok sd \<longleftrightarrow> gaps (sd_wakes sd) 0 \<and>
     sd_written sd = last (0 # sd_wakes sd) + sd_tokens_since_wake sd \<and> sd_tokens_since_wake sd < 8"

lemma gaps_snoc:
  "gaps (ws @ [k]) s \<longleftrightarrow> gaps ws s \<and> last (s # ws) < k \<and> k \<le> last (s # ws) + 8"
proof -
  have "(s # ws @ [k]) ! length ws = last (s # ws)"
    by (cases ws rule: rev_cases) (auto simp: nth_append)
  moreover have "i < length ws \<Longrightarrow> (s # ws @ [k]) ! i = (s # ws) ! i \<and> (ws @ [k]) ! i = ws ! i" for i
    by (cases i) (auto simp: nth_append)
  ultimately show ?thesis by (auto simp: gaps_def less_Suc_eq)
qed



section \<open>Long pieces\<close>

text \<open>
  The two kinds of job disagree on a token whose text is longer than 127 bytes: the
  accumulating callback keeps all of it, the streaming callback sends its first 127 bytes
  only.
\<close>

theorem stream_cuts_long_pieces:
  assumes "accum_ok ad" and "stream_ok sd" and "TOKEN_TEXT_MAX \<le> length t"
    and "accum_token_cb env1 ad t = Some (0, ad')" and "stream_token_cb env2 sd t = Some (0, sd')"
  shows "accum_text ad' = accum_text ad @ t \<and> stream_out sd' = stream_out sd @ [take 127 t] \<and> take 127 t \<noteq> t"
proof -
  have "length (take 127 t) \<noteq> length t" using assms(3) by simp
  then have "take 127 t \<noteq> t" by metis
  with accum_token_cb_spec [OF assms(1), of env1 t] stream_token_cb_spec [OF assms(2,5)] assms(4)
  show ?thesis by simp
qed

lemma accum_store_first:
  "\<exists>ad'. accum_token_cb (re_accum sample_env) \<lparr>ad_job = (sample_job False)\<lparr>wj_response_buf := Some [],
     wj_response_cap := 8192\<rparr>, ad_calls = 0\<rparr> (replicate 200 CHR ''x'') = Some (0, ad')"
  by (simp add: accum_token_cb_def accum_store_def sample_env_def sample_job_def worker_job_init_def Let_def)

lemma stream_store_first:
  "\<exists>sd'. stream_token_cb (re_stream sample_env) (stream_start (sample_job True)) t = Some (0, sd')"
proof -
  have "drain_batch k ring_init = ([], ring_init)" for k
    by (cases k) (simp_all add: ring_get_def ring_is_empty_def ring_init_def)
  moreover have "wj_ring (sample_job True) = ring_init" by (simp add: sample_job_def worker_job_init_def)
  ultimately show ?thesis
    by (simp add: stream_token_cb_def stream_start_def sample_env_def Let_def ring_init_not_full)
qed

theorem stream_cuts_long_pieces_witness:
  "\<exists>sd'. stream_token_cb (re_stream sample_env) (stream_start (sample_job True)) (replicate 200 CHR ''x'') =
     Some (0, sd') \<and> stream_out sd' = [replicate 127 CHR ''x'']"
proof -
  let ?ad = "\<lparr>ad_job = (sample_job False)\<lparr>wj_response_buf := Some [], wj_response_cap := 8192\<rparr>, ad_calls = 0\<rparr>"
  from accum_store_first obtain ad' where
    a: "accum_token_cb (re_accum sample_env) ?ad (replicate 200 CHR ''x'') = Some (0, ad')" by blast
  from stream_store_first obtain sd' where
    b: "stream_token_cb (re_stream sample_env) (stream_start (sample_job True)) (replicate 200 CHR ''x'') =
      Some (0, sd')" by blast
  have ok: "accum_ok ?ad" "stream_ok (stream_start (sample_job True))"
    "TOKEN_TEXT_MAX \<le> length (replicate 200 CHR ''x'')"
    by (simp_all add: accum_ok_def buffer_ok_def sample_job_def worker_job_init_def stream_ok_def
        stream_start_def ring_inv_init)
  have "stream_out (stream_start (sample_job True)) = []"
    by (simp add: stream_out_def stream_start_def sample_job_def worker_job_init_def ring_list_init)
  with stream_cuts_long_pieces [OF ok a b] b show ?thesis by simp
qed

end
