(* ===== verification/Worker_Sched.thy ===== *)
theory Worker_Sched
  imports Worker
begin

text \<open>
  The two threads over the shared job: the event loop (src/src/server.c,
  \<open>submit_inference_job\<close>, \<open>drain_stream_ring\<close> and the close event of \<open>ev_handler\<close>) and the
  worker thread (src/src/worker.c, \<open>worker_thread_func\<close>). A step is one access to shared
  memory, or one critical section; the jobs are on a heap, so that a use of a freed job is
  visible (\<open>sc_undef\<close>).
\<close>

section \<open>States\<close>

text \<open>Where the worker thread is, with the job it holds and, while it generates,
  \<open>tokens_since_wake\<close>; the flag is whether the run returned 0.\<close>

datatype wpc = WWait | WTaken nat | WRun nat nat | WRingDone nat bool | WSet nat bool | WLog nat
  | WClear nat | WOrphan nat | WFree nat | WMgr nat | WStopped

text \<open>Where the event loop is: between events, after the busy check of a request, or in the
  three stages of draining a stream.\<close>

datatype mpc = MIdle | MSubmit nat bool | MBatch nat nat | MFinal nat nat | MState nat nat bool

record sched =
  sc_heap :: heap
  sc_worker :: worker
  sc_next :: nat
  sc_conn :: "nat \<Rightarrow> nat option"
  sc_pending :: "nat \<Rightarrow> nat"
  sc_wpc :: wpc
  sc_mpc :: mpc
  sc_out :: "nat \<Rightarrow> string list"
  sc_lost :: "string list"
  sc_undef :: bool

definition sched_init :: sched where
  "sched_init = \<lparr>sc_heap = (\<lambda>j. None), sc_worker = \<lparr>wk_current = None, wk_running = True\<rparr>,
     sc_next = 0, sc_conn = (\<lambda>c. None), sc_pending = (\<lambda>c. 0), sc_wpc = WWait, sc_mpc = MIdle,
     sc_out = (\<lambda>c. []), sc_lost = [], sc_undef = False\<rparr>"

definition undefined_use :: "sched \<Rightarrow> sched" where
  "undefined_use s = s\<lparr>sc_undef := True\<rparr>"

text \<open>Access to a job: a freed job makes the state undefined.\<close>

definition with_job :: "sched \<Rightarrow> nat \<Rightarrow> (worker_job \<Rightarrow> sched) \<Rightarrow> sched" where
  "with_job s j f = (case sc_heap s j of None \<Rightarrow> undefined_use s | Some job \<Rightarrow> f job)"

definition put_job :: "nat \<Rightarrow> worker_job \<Rightarrow> sched \<Rightarrow> sched" where
  "put_job j job s = s\<lparr>sc_heap := (sc_heap s)(j := Some job)\<rparr>"

definition free_job :: "nat \<Rightarrow> sched \<Rightarrow> sched" where
  "free_job j s = s\<lparr>sc_heap := (sc_heap s)(j := None)\<rparr>"

definition wake :: "nat \<Rightarrow> sched \<Rightarrow> sched" where
  "wake c s = s\<lparr>sc_pending := (sc_pending s)(c := sc_pending s c + 1)\<rparr>"

definition finished :: "worker_job \<Rightarrow> bool" where
  "finished job \<longleftrightarrow> wj_state job = JobDone \<or> wj_state job = JobError"

section \<open>The worker thread\<close>

fun worker_step :: "sched \<Rightarrow> wpc \<Rightarrow> sched option" where
  "worker_step s WWait =
     (if \<not> wk_running (sc_worker s) then Some (s\<lparr>sc_wpc := WStopped\<rparr>)
      else (case wk_current (sc_worker s) of
          None \<Rightarrow> None
        | Some j \<Rightarrow> Some (s\<lparr>sc_wpc := WTaken j\<rparr>)))"
| "worker_step s (WTaken j) = Some (with_job s j (\<lambda>job.
     put_job j (job\<lparr>wj_state := JobRunning\<rparr>) (s\<lparr>sc_wpc := WRun j 0\<rparr>)))"
| "worker_step s (WRun j n) = None"
| "worker_step s (WRingDone j good) = Some (with_job s j (\<lambda>job.
     put_job j (job\<lparr>wj_ring := (wj_ring job)\<lparr>r_done := True\<rparr>\<rparr>) (s\<lparr>sc_wpc := WSet j good\<rparr>)))"
| "worker_step s (WSet j good) = Some (with_job s j (\<lambda>job.
     put_job j (job\<lparr>wj_state := (if good then JobDone else JobError)\<rparr>) (s\<lparr>sc_wpc := WLog j\<rparr>)))"
| "worker_step s (WLog j) = Some (with_job s j (\<lambda>job. s\<lparr>sc_wpc := WClear j\<rparr>))"
| "worker_step s (WClear j) =
     Some (s\<lparr>sc_worker := (sc_worker s)\<lparr>wk_current := None\<rparr>, sc_wpc := WOrphan j\<rparr>)"
| "worker_step s (WOrphan j) = Some (with_job s j (\<lambda>job.
     s\<lparr>sc_wpc := (if wj_orphaned job then WFree j else WMgr j)\<rparr>))"
| "worker_step s (WFree j) = Some (with_job s j (\<lambda>job. free_job j (s\<lparr>sc_wpc := WWait\<rparr>)))"
| "worker_step s (WMgr j) = Some (with_job s j (\<lambda>job.
     if wj_mgr job then wake (wj_wakeup_id job) (s\<lparr>sc_wpc := WWait\<rparr>) else s\<lparr>sc_wpc := WWait\<rparr>))"
| "worker_step s WStopped = None"

text \<open>During a run: one call of the streaming callback, and the return of the inference.\<close>

definition token_step :: "string \<Rightarrow> sched \<Rightarrow> sched option" where
  "token_step t s = (case sc_wpc s of
     WRun j n \<Rightarrow> (case sc_heap s j of
         None \<Rightarrow> Some (undefined_use s)
       | Some job \<Rightarrow>
           if \<not> wj_stream job \<or> wj_cancel job then None
           else (case ring_enq t (wj_ring job) of
               None \<Rightarrow> None
             | Some r \<Rightarrow>
                 let s1 = put_job j (job\<lparr>wj_ring := r\<rparr>) s in
                 if wj_mgr job \<and> (ring_is_empty (wj_ring job) \<or> 8 \<le> n + 1)
                 then Some (wake (wj_wakeup_id job) (s1\<lparr>sc_wpc := WRun j 0\<rparr>))
                 else Some (s1\<lparr>sc_wpc := WRun j (n + 1)\<rparr>)))
   | _ \<Rightarrow> None)"

definition end_step :: "bool \<Rightarrow> sched \<Rightarrow> sched option" where
  "end_step good s = (case sc_wpc s of
     WRun j n \<Rightarrow> Some (with_job s j (\<lambda>job.
       s\<lparr>sc_wpc := (if wj_stream job then WRingDone j good else WSet j good)\<rparr>))
   | _ \<Rightarrow> None)"

section \<open>The event loop\<close>

definition check_step :: "nat \<Rightarrow> bool \<Rightarrow> sched \<Rightarrow> sched option" where
  "check_step c stream s = (if sc_mpc s \<noteq> MIdle then None
     else (case worker_is_busy (sc_heap s) (sc_worker s) of
         None \<Rightarrow> Some (undefined_use s)
       | Some busy \<Rightarrow> if busy then Some s else Some (s\<lparr>sc_mpc := MSubmit c stream\<rparr>)))"

definition new_job :: "nat \<Rightarrow> bool \<Rightarrow> worker_job" where
  "new_job c stream = worker_job_init\<lparr>wj_stream := stream, wj_mgr := True, wj_wakeup_id := c\<rparr>"

definition submit_step :: "sched \<Rightarrow> sched option" where
  "submit_step s = (case sc_mpc s of
     MSubmit c stream \<Rightarrow>
       let j = sc_next s; s1 = s\<lparr>sc_next := j + 1, sc_mpc := MIdle\<rparr>;
           h = (sc_heap s)(j := Some (new_job c stream)) in
       (case worker_submit h (sc_worker s) j of
          None \<Rightarrow> Some (undefined_use s1)
        | Some (rc, h', w') \<Rightarrow>
            if rc \<noteq> 0 then Some s1
            else Some (s1\<lparr>sc_heap := h', sc_worker := w', sc_conn := (sc_conn s)(c := Some j)\<rparr>))
   | _ \<Rightarrow> None)"

text \<open>The end of a request: free the job and forget it.\<close>

definition finalize :: "nat \<Rightarrow> nat \<Rightarrow> worker_job \<Rightarrow> sched \<Rightarrow> sched" where
  "finalize c j job s = (free_job j s)\<lparr>sc_conn := (sc_conn s)(c := None),
     sc_lost := sc_lost s @ ring_list (wj_ring job), sc_mpc := MIdle\<rparr>"

text \<open>A wake-up event of connection \<open>c\<close> starts \<open>drain_stream_ring\<close>.\<close>

definition wakeup_step :: "nat \<Rightarrow> sched \<Rightarrow> sched option" where
  "wakeup_step c s = (if sc_mpc s \<noteq> MIdle \<or> sc_pending s c = 0 then None
     else let s1 = s\<lparr>sc_pending := (sc_pending s)(c := sc_pending s c - 1)\<rparr> in
       (case sc_conn s c of
          None \<Rightarrow> Some s1
        | Some j \<Rightarrow> Some (with_job s1 j (\<lambda>job.
            if wj_stream job then s1\<lparr>sc_mpc := MBatch c j\<rparr>
            else if finished job then finalize c j job s1 else s1))))"

definition batch_step :: "sched \<Rightarrow> sched option" where
  "batch_step s = (case sc_mpc s of
     MBatch c j \<Rightarrow> Some (with_job s j (\<lambda>job.
       case drain_batch 32 (wj_ring job) of (ts, r) \<Rightarrow>
         put_job j (job\<lparr>wj_ring := r\<rparr>) (s\<lparr>sc_out := (sc_out s)(c := sc_out s c @ ts),
           sc_mpc := (if length ts = 32 then MBatch c j else MFinal c j)\<rparr>)))
   | _ \<Rightarrow> None)"

definition done_step :: "sched \<Rightarrow> sched option" where
  "done_step s = (case sc_mpc s of
     MFinal c j \<Rightarrow> Some (with_job s j (\<lambda>job.
       s\<lparr>sc_mpc := MState c j (r_done (wj_ring job) \<and> ring_is_empty (wj_ring job))\<rparr>))
   | _ \<Rightarrow> None)"

definition state_step :: "sched \<Rightarrow> sched option" where
  "state_step s = (case sc_mpc s of
     MState c j ring_done \<Rightarrow> Some (with_job s j (\<lambda>job.
       if ring_done \<or> finished job then finalize c j job s else s\<lparr>sc_mpc := MIdle\<rparr>))
   | _ \<Rightarrow> None)"

definition close_step :: "nat \<Rightarrow> sched \<Rightarrow> sched option" where
  "close_step c s = (if sc_mpc s \<noteq> MIdle then None
     else (case sc_conn s c of
         None \<Rightarrow> Some s
       | Some j \<Rightarrow> Some (with_job s j (\<lambda>job.
           put_job j (job\<lparr>wj_cancel := True, wj_mgr := False, wj_orphaned := True\<rparr>)
             (s\<lparr>sc_conn := (sc_conn s)(c := None)\<rparr>)))))"

definition stop_step :: "sched \<Rightarrow> sched option" where
  "stop_step s = (if sc_mpc s \<noteq> MIdle then None
     else Some (s\<lparr>sc_worker := worker_destroy (sc_worker s)\<rparr>))"

section \<open>Interleavings\<close>

datatype action = Work | Token string | Return bool | Check nat bool | Submit | WakeUp nat | Batch
  | RingDone | StateLoad | Close nat | Stop

fun act :: "action \<Rightarrow> sched \<Rightarrow> sched option" where
  "act Work s = worker_step s (sc_wpc s)"
| "act (Token t) s = token_step t s"
| "act (Return good) s = end_step good s"
| "act (Check c stream) s = check_step c stream s"
| "act Submit s = submit_step s"
| "act (WakeUp c) s = wakeup_step c s"
| "act Batch s = batch_step s"
| "act RingDone s = done_step s"
| "act StateLoad s = state_step s"
| "act (Close c) s = close_step c s"
| "act Stop s = stop_step s"

text \<open>An undefined state has no successor.\<close>

inductive step :: "sched \<Rightarrow> action \<Rightarrow> sched \<Rightarrow> bool" where
  step_act: "\<not> sc_undef s \<Longrightarrow> act a s = Some s' \<Longrightarrow> step s a s'"

inductive reachable :: "sched \<Rightarrow> bool" where
  reach_init: "reachable sched_init"
| reach_step: "reachable s \<Longrightarrow> step s a s' \<Longrightarrow> reachable s'"

inductive_cases stepE: "step s a s'"
inductive_simps step_iff: "step s a s'"

text \<open>Executing a schedule.\<close>

fun run :: "action list \<Rightarrow> sched \<Rightarrow> sched option" where
  "run [] s = Some s"
| "run (a # as) s = (if sc_undef s then None else Option.bind (act a s) (run as))"

lemma run_reachable: "run as s = Some s' \<Longrightarrow> reachable s \<Longrightarrow> reachable s'"
proof (induction as arbitrary: s)
  case (Cons a as)
  then obtain s1 where "\<not> sc_undef s" "act a s = Some s1" "run as s1 = Some s'"
    by (auto simp: option_bind_Some_iff split: if_splits)
  with Cons show ?case by (blast intro: reach_step step_act)
qed simp

section \<open>The invariant\<close>

text \<open>A live job: allocated, not finished, its ring not marked done.\<close>

definition live :: "heap \<Rightarrow> nat \<Rightarrow> bool" where
  "live h j \<longleftrightarrow> (\<exists>job. h j = Some job \<and> job_busy job \<and> \<not> r_done (wj_ring job))"

definition cur_live :: "sched \<Rightarrow> bool" where
  "cur_live s \<longleftrightarrow> (\<forall>j. wk_current (sc_worker s) = Some j \<longrightarrow> live (sc_heap s) j)"

definition moved_on :: "nat \<Rightarrow> sched \<Rightarrow> bool" where
  "moved_on j s \<longleftrightarrow> j < sc_next s \<and> wk_current (sc_worker s) \<noteq> Some j \<and> cur_live s"

fun worker_inv :: "wpc \<Rightarrow> sched \<Rightarrow> bool" where
  "worker_inv WWait s = cur_live s"
| "worker_inv (WTaken j) s = (wk_current (sc_worker s) = Some j \<and> live (sc_heap s) j)"
| "worker_inv (WRun j n) s = (wk_current (sc_worker s) = Some j \<and> live (sc_heap s) j)"
| "worker_inv (WRingDone j good) s = (wk_current (sc_worker s) = Some j \<and> live (sc_heap s) j)"
| "worker_inv (WSet j good) s = (j < sc_next s \<and> wk_current (sc_worker s) = Some j \<and>
     (\<forall>job. sc_heap s j = Some job \<longrightarrow> job_busy job))"
| "worker_inv (WLog j) s = (moved_on j s \<or> j < sc_next s \<and> wk_current (sc_worker s) = Some j)"
| "worker_inv (WClear j) s = (moved_on j s \<or> j < sc_next s \<and> wk_current (sc_worker s) = Some j)"
| "worker_inv (WOrphan j) s = moved_on j s"
| "worker_inv (WFree j) s = (moved_on j s \<and> (\<exists>job. sc_heap s j = Some job \<and> wj_orphaned job))"
| "worker_inv (WMgr j) s = moved_on j s"
| "worker_inv WStopped s = cur_live s"

fun main_inv :: "mpc \<Rightarrow> sched \<Rightarrow> bool" where
  "main_inv MIdle s = True"
| "main_inv (MSubmit c stream) s = True"
| "main_inv (MBatch c j) s = (sc_conn s c = Some j)"
| "main_inv (MFinal c j) s = (sc_conn s c = Some j)"
| "main_inv (MState c j d) s = (sc_conn s c = Some j \<and>
     (d \<longrightarrow> (\<forall>job. sc_heap s j = Some job \<longrightarrow> r_done (wj_ring job))))"

definition fresh_inv :: "sched \<Rightarrow> bool" where
  "fresh_inv s \<longleftrightarrow> (\<forall>j \<ge> sc_next s. sc_heap s j = None)"

definition conn_inv :: "sched \<Rightarrow> bool" where
  "conn_inv s \<longleftrightarrow> (\<forall>c j. sc_conn s c = Some j \<longrightarrow>
     (\<exists>job. sc_heap s j = Some job \<and> \<not> wj_orphaned job \<and> wj_wakeup_id job = c))"

definition sched_inv :: "sched \<Rightarrow> bool" where
  "sched_inv s \<longleftrightarrow> fresh_inv s \<and> conn_inv s \<and> main_inv (sc_mpc s) s \<and> worker_inv (sc_wpc s) s"

lemmas sched_inv_defs = sched_inv_def fresh_inv_def conn_inv_def moved_on_def cur_live_def

lemma sched_inv_init: "sched_inv sched_init"
  by (simp add: sched_inv_defs sched_init_def)

lemma undef_step [simp]: "sc_undef (undefined_use s)"
  by (simp add: undefined_use_def)

lemma with_job_defined:
  "\<not> sc_undef (with_job s j f) \<Longrightarrow> \<exists>job. sc_heap s j = Some job \<and> with_job s j f = f job"
  by (simp add: with_job_def split: option.splits)

text \<open>
  An update of a job that keeps what the invariant reads of it, together with a new program
  counter of either thread for which the invariant holds, keeps the invariant.
\<close>

definition same_key :: "worker_job \<Rightarrow> worker_job \<Rightarrow> bool" where
  "same_key a b \<longleftrightarrow> job_busy a = job_busy b \<and> r_done (wj_ring a) = r_done (wj_ring b) \<and>
     wj_orphaned a = wj_orphaned b \<and> wj_wakeup_id a = wj_wakeup_id b"

definition same_heap :: "heap \<Rightarrow> heap \<Rightarrow> bool" where
  "same_heap h h' \<longleftrightarrow> (\<forall>j. (h j = None \<and> h' j = None) \<or>
     (\<exists>a b. h j = Some a \<and> h' j = Some b \<and> same_key a b))"

lemma same_key_refl [simp]: "same_key a a"
  by (simp add: same_key_def)

lemma same_heap_refl [simp]: "same_heap h h"
  by (auto simp: same_heap_def)

lemma same_heap_put: "h j = Some a \<Longrightarrow> same_key a b \<Longrightarrow> same_heap h (h(j := Some b))"
  by (auto simp: same_heap_def)

lemma same_heap_live: "same_heap h h' \<Longrightarrow> live h' j = live h j"
  unfolding same_heap_def live_def same_key_def by (metis option.distinct(1) option.inject)

lemma same_heap_fresh: "same_heap h h' \<Longrightarrow> h' j = None \<longleftrightarrow> h j = None"
  unfolding same_heap_def by (metis option.distinct(1))

lemma same_heap_conn:
  "same_heap h h' \<Longrightarrow> (\<exists>job. h j = Some job \<and> \<not> wj_orphaned job \<and> wj_wakeup_id job = c) \<Longrightarrow>
   \<exists>job. h' j = Some job \<and> \<not> wj_orphaned job \<and> wj_wakeup_id job = c"
  unfolding same_heap_def same_key_def by (metis option.distinct(1) option.inject)

lemma same_heap_orphaned:
  "same_heap h h' \<Longrightarrow> (\<exists>job. h j = Some job \<and> wj_orphaned job) \<Longrightarrow> \<exists>job. h' j = Some job \<and> wj_orphaned job"
  unfolding same_heap_def same_key_def by (metis option.distinct(1) option.inject)

lemma same_heap_all:
  "same_heap h h' \<Longrightarrow> (\<forall>job. h j = Some job \<longrightarrow> job_busy job) \<Longrightarrow> \<forall>job. h' j = Some job \<longrightarrow> job_busy job"
  "same_heap h h' \<Longrightarrow> (\<forall>job. h j = Some job \<longrightarrow> r_done (wj_ring job)) \<Longrightarrow>
   \<forall>job. h' j = Some job \<longrightarrow> r_done (wj_ring job)"
  unfolding same_heap_def same_key_def by (metis option.distinct(1) option.inject)+

text \<open>The frame: nothing that the invariant reads is changed, apart from the counters.\<close>

definition framed :: "sched \<Rightarrow> sched \<Rightarrow> bool" where
  "framed s s' \<longleftrightarrow> same_heap (sc_heap s) (sc_heap s') \<and>
     wk_current (sc_worker s') = wk_current (sc_worker s) \<and> sc_next s' = sc_next s \<and> sc_conn s' = sc_conn s"

lemma framed_cur_live: "framed s s' \<Longrightarrow> cur_live s' = cur_live s"
  by (auto simp: framed_def cur_live_def same_heap_live)

lemma framed_moved_on: "framed s s' \<Longrightarrow> moved_on j s' = moved_on j s"
  using framed_cur_live [of s s'] by (simp add: framed_def moved_on_def)

lemma framed_worker_inv: "framed s s' \<Longrightarrow> worker_inv w s \<Longrightarrow> worker_inv w s'"
  by (cases w)
     (auto simp: framed_cur_live framed_moved_on framed_def same_heap_live
       dest: same_heap_all same_heap_orphaned)

lemma framed_main_inv: "framed s s' \<Longrightarrow> main_inv m s \<Longrightarrow> main_inv m s'"
  by (cases m) (auto simp: framed_def dest: same_heap_all)

lemma framed_inv:
  assumes "framed s s'" and "sched_inv s"
    and "main_inv (sc_mpc s') s" and "worker_inv (sc_wpc s') s"
  shows "sched_inv s'"
proof -
  have "fresh_inv s'" using assms(1,2) by (auto simp: sched_inv_def fresh_inv_def framed_def same_heap_fresh)
  moreover have "conn_inv s'"
    unfolding conn_inv_def
  proof (intro allI impI)
    fix c j assume "sc_conn s' c = Some j"
    then have "sc_conn s c = Some j" using assms(1) by (simp add: framed_def)
    then have "\<exists>job. sc_heap s j = Some job \<and> \<not> wj_orphaned job \<and> wj_wakeup_id job = c"
      using assms(2) by (simp add: sched_inv_def conn_inv_def)
    moreover have "same_heap (sc_heap s) (sc_heap s')" using assms(1) by (simp add: framed_def)
    ultimately show "\<exists>job. sc_heap s' j = Some job \<and> \<not> wj_orphaned job \<and> wj_wakeup_id job = c"
      by (rule same_heap_conn [rotated])
  qed
  ultimately show ?thesis
    using framed_main_inv [OF assms(1,3)] framed_worker_inv [OF assms(1,4)] by (simp add: sched_inv_def)
qed

lemma sched_invD:
  assumes "sched_inv s"
  shows "fresh_inv s" "conn_inv s" "main_inv (sc_mpc s) s" "worker_inv (sc_wpc s) s"
  using assms by (simp_all add: sched_inv_def)

lemma fresh_lt: "fresh_inv s \<Longrightarrow> sc_heap s j = Some job \<Longrightarrow> j < sc_next s"
  unfolding fresh_inv_def by (metis not_le option.distinct(1))

lemma live_lt: "fresh_inv s \<Longrightarrow> live (sc_heap s) j \<Longrightarrow> j < sc_next s"
  by (auto simp: live_def dest: fresh_lt)

lemma live_other: "i \<noteq> j \<Longrightarrow> live (h(j := x)) i = live h i"
  by (simp add: live_def)

subsection \<open>The worker's steps\<close>

lemma framed_put: "sc_heap s j = Some a \<Longrightarrow> same_key a b \<Longrightarrow>
   framed s (put_job j b (s\<lparr>sc_wpc := w\<rparr>))"
  by (simp add: framed_def put_job_def same_heap_put)

lemma framed_wpc: "framed s (s\<lparr>sc_wpc := w\<rparr>)"
  by (simp add: framed_def)

lemma framed_wake: "framed s s' \<Longrightarrow> framed s (wake c s')"
  by (simp add: framed_def wake_def)

lemma conn_invD:
  "conn_inv s \<Longrightarrow> sc_conn s c = Some j \<Longrightarrow> sc_heap s j = Some job \<Longrightarrow>
   \<not> wj_orphaned job \<and> wj_wakeup_id job = c"
  unfolding conn_inv_def by (metis option.inject)

lemma conn_inv_put:
  "conn_inv s \<Longrightarrow> sc_heap s j = Some a \<Longrightarrow> wj_orphaned b = wj_orphaned a \<Longrightarrow>
   wj_wakeup_id b = wj_wakeup_id a \<Longrightarrow> conn_inv (put_job j b (s\<lparr>sc_wpc := w\<rparr>))"
  unfolding conn_inv_def put_job_def by auto (metis option.inject)+

lemma fresh_inv_put:
  "fresh_inv s \<Longrightarrow> sc_heap s j = Some a \<Longrightarrow> fresh_inv (put_job j b (s\<lparr>sc_wpc := w\<rparr>))"
  unfolding fresh_inv_def put_job_def by auto

lemma inv_ring_done:
  assumes i: "sched_inv s" and w: "sc_wpc s = WRingDone j good" and j: "sc_heap s j = Some job"
  shows "sched_inv (put_job j (job\<lparr>wj_ring := (wj_ring job)\<lparr>r_done := True\<rparr>\<rparr>) (s\<lparr>sc_wpc := WSet j good\<rparr>))"
proof -
  note d = sched_invD [OF i]
  have cur: "wk_current (sc_worker s) = Some j" and busy: "job_busy job"
    using d(4) w j by (auto simp: live_def)
  have "main_inv (sc_mpc s) (put_job j (job\<lparr>wj_ring := (wj_ring job)\<lparr>r_done := True\<rparr>\<rparr>) (s\<lparr>sc_wpc := WSet j good\<rparr>))"
    using d(3) by (cases "sc_mpc s") (auto simp: put_job_def)
  moreover note conn_inv_put [OF d(2) j, of "job\<lparr>wj_ring := (wj_ring job)\<lparr>r_done := True\<rparr>\<rparr>" "WSet j good"]
    fresh_inv_put [OF d(1) j, of "job\<lparr>wj_ring := (wj_ring job)\<lparr>r_done := True\<rparr>\<rparr>" "WSet j good"]
  ultimately show ?thesis
    using cur busy j fresh_lt [OF d(1) j] by (simp add: sched_inv_def) (simp add: put_job_def job_busy_def)
qed

lemma inv_set_state:
  assumes i: "sched_inv s" and w: "sc_wpc s = WSet j good" and j: "sc_heap s j = Some job"
  shows "sched_inv (put_job j (job\<lparr>wj_state := st\<rparr>) (s\<lparr>sc_wpc := WLog j\<rparr>))"
proof -
  note d = sched_invD [OF i]
  have "main_inv (sc_mpc s) (put_job j (job\<lparr>wj_state := st\<rparr>) (s\<lparr>sc_wpc := WLog j\<rparr>))"
    using d(3) j by (cases "sc_mpc s") (auto simp: put_job_def)
  moreover note conn_inv_put [OF d(2) j, of "job\<lparr>wj_state := st\<rparr>" "WLog j"]
    fresh_inv_put [OF d(1) j, of "job\<lparr>wj_state := st\<rparr>" "WLog j"]
  ultimately show ?thesis
    using d(4) w fresh_lt [OF d(1) j] by (simp add: sched_inv_def) (simp add: put_job_def)
qed

lemma inv_clear:
  assumes i: "sched_inv s" and w: "sc_wpc s = WClear j"
  shows "sched_inv (s\<lparr>sc_worker := (sc_worker s)\<lparr>wk_current := None\<rparr>, sc_wpc := WOrphan j\<rparr>)"
proof -
  note d = sched_invD [OF i]
  have "main_inv (sc_mpc s) (s\<lparr>sc_worker := (sc_worker s)\<lparr>wk_current := None\<rparr>, sc_wpc := WOrphan j\<rparr>)"
    using d(3) by (cases "sc_mpc s") auto
  with d w show ?thesis by (auto simp: sched_inv_defs)
qed

lemma inv_free:
  assumes i: "sched_inv s" and w: "sc_wpc s = WFree j"
  shows "sched_inv (free_job j (s\<lparr>sc_wpc := WWait\<rparr>))"
proof -
  note d = sched_invD [OF i]
  obtain job where j: "sc_heap s j = Some job" "wj_orphaned job" and m: "moved_on j s"
    using d(4) w by auto
  have cn: "sc_conn s c \<noteq> Some j" for c using conn_invD [OF d(2)] j by blast
  have "main_inv (sc_mpc s) (free_job j (s\<lparr>sc_wpc := WWait\<rparr>))"
    using d(3) by (cases "sc_mpc s") (auto simp: free_job_def)
  moreover have "cur_live (free_job j (s\<lparr>sc_wpc := WWait\<rparr>))"
    using m by (auto simp: cur_live_def moved_on_def free_job_def live_def)
  moreover have "conn_inv (free_job j (s\<lparr>sc_wpc := WWait\<rparr>))"
    using d(2) cn by (auto simp: conn_inv_def free_job_def)
  moreover have "fresh_inv (free_job j (s\<lparr>sc_wpc := WWait\<rparr>))"
    using d(1) by (simp add: fresh_inv_def free_job_def)
  ultimately show ?thesis by (simp add: sched_inv_def free_job_def)
qed

lemma same_key_running: "live (sc_heap s) j \<Longrightarrow> sc_heap s j = Some job \<Longrightarrow> same_key job (job\<lparr>wj_state := JobRunning\<rparr>)"
  by (simp add: same_key_def live_def job_busy_def)

lemma inv_work:
  assumes i: "sched_inv s" and st: "worker_step s (sc_wpc s) = Some s'" and u: "\<not> sc_undef s'"
  shows "sched_inv s'"
proof -
  note d = sched_invD [OF i]
  show ?thesis
  proof (cases "sc_wpc s")
    case WWait
    with st d(3,4) show ?thesis
      by (auto split: if_splits option.splits intro!: framed_inv [OF framed_wpc i] simp: cur_live_def)
  next
    case (WTaken j)
    with st u obtain job where j: "sc_heap s j = Some job"
      and s': "s' = put_job j (job\<lparr>wj_state := JobRunning\<rparr>) (s\<lparr>sc_wpc := WRun j 0\<rparr>)"
      using with_job_defined by fastforce
    have "live (sc_heap s) j" using d(4) WTaken by simp
    from framed_put [OF j same_key_running [OF this j]] show ?thesis
      unfolding s' by (rule framed_inv [OF _ i]) (use d(3,4) WTaken in \<open>simp_all add: put_job_def\<close>)
  next
    case (WRingDone j good)
    with st u with_job_defined inv_ring_done [OF i] show ?thesis by fastforce
  next
    case (WSet j good)
    with st u with_job_defined inv_set_state [OF i] show ?thesis by fastforce
  next
    case (WLog j)
    with st u d(3,4) show ?thesis
      by (auto dest!: with_job_defined intro!: framed_inv [OF framed_wpc i])
  next
    case (WClear j)
    with st inv_clear [OF i] show ?thesis by simp
  next
    case (WOrphan j)
    with st u d(3,4) show ?thesis
      by (auto dest!: with_job_defined intro!: framed_inv [OF framed_wpc i])
  next
    case (WFree j)
    with st u inv_free [OF i] with_job_defined show ?thesis by fastforce
  next
    case (WMgr j)
    have m: "worker_inv WWait s" using d(4) WMgr by (simp add: moved_on_def)
    have "sched_inv (s\<lparr>sc_wpc := WWait\<rparr>)"
      by (rule framed_inv [OF framed_wpc i]) (use d(3) m in simp_all)
    moreover have "sched_inv (wake c (s\<lparr>sc_wpc := WWait\<rparr>))" for c
      by (rule framed_inv [OF framed_wake [OF framed_wpc] i]) (use d(3) m in \<open>simp_all add: wake_def\<close>)
    ultimately show ?thesis using st u WMgr by (auto dest!: with_job_defined)
  qed (use st in simp_all)
qed

lemma inv_token:
  assumes i: "sched_inv s" and st: "token_step t s = Some s'" and u: "\<not> sc_undef s'"
  shows "sched_inv s'"
proof -
  note d = sched_invD [OF i]
  from st obtain j n where w: "sc_wpc s = WRun j n" by (auto simp: token_step_def split: wpc.splits)
  have run: "worker_inv (WRun j m) s" for m using d(4) w by simp
  from st u w obtain job r where j: "sc_heap s j = Some job" and r: "ring_enq t (wj_ring job) = Some r"
    and s': "s' = wake (wj_wakeup_id job) (put_job j (job\<lparr>wj_ring := r\<rparr>) (s\<lparr>sc_wpc := WRun j 0\<rparr>)) \<or>
      s' = put_job j (job\<lparr>wj_ring := r\<rparr>) (s\<lparr>sc_wpc := WRun j (n + 1)\<rparr>)"
    by (auto simp: token_step_def put_job_def wake_def Let_def split: option.splits if_splits)
  have "same_key job (job\<lparr>wj_ring := r\<rparr>)"
    using r by (auto simp: same_key_def job_busy_def ring_enq_def ring_put_def Let_def split: if_splits)
  note f = framed_put [OF j this]
  have a: "sched_inv (put_job j (job\<lparr>wj_ring := r\<rparr>) (s\<lparr>sc_wpc := WRun j m\<rparr>))" for m
    by (rule framed_inv [OF f i]) (use d(3) run in \<open>simp_all add: put_job_def\<close>)
  have "sched_inv (wake c (put_job j (job\<lparr>wj_ring := r\<rparr>) (s\<lparr>sc_wpc := WRun j m\<rparr>)))" for c m
    by (rule framed_inv [OF framed_wake [OF f] i]) (use d(3) run in \<open>simp_all add: put_job_def wake_def\<close>)
  with a s' show ?thesis by blast
qed

lemma inv_end:
  assumes i: "sched_inv s" and st: "end_step good s = Some s'" and u: "\<not> sc_undef s'"
  shows "sched_inv s'"
proof -
  note d = sched_invD [OF i]
  from st obtain j n where w: "sc_wpc s = WRun j n" by (auto simp: end_step_def split: wpc.splits)
  with st u obtain job where j: "sc_heap s j = Some job"
    and s': "s' = s\<lparr>sc_wpc := (if wj_stream job then WRingDone j good else WSet j good)\<rparr>"
    by (auto simp: end_step_def dest!: with_job_defined)
  show ?thesis
    unfolding s' by (rule framed_inv [OF framed_wpc i])
      (use d(3,4) w j fresh_lt [OF d(1) j] in \<open>auto simp: live_def\<close>)
qed

subsection \<open>The event loop's steps\<close>

lemma inv_check:
  assumes i: "sched_inv s" and st: "check_step c stream s = Some s'" and u: "\<not> sc_undef s'"
  shows "sched_inv s'"
proof -
  have "framed s (s\<lparr>sc_mpc := MSubmit c stream\<rparr>)" by (simp add: framed_def)
  then have "sched_inv (s\<lparr>sc_mpc := MSubmit c stream\<rparr>)"
    by (rule framed_inv [OF _ i]) (use sched_invD(4) [OF i] in simp_all)
  with st u i show ?thesis by (auto simp: check_step_def split: if_splits option.splits)
qed

lemma busy_live: "live h j \<Longrightarrow> \<exists>job. h j = Some job \<and> job_busy job"
  by (auto simp: live_def)

lemma drain_batch_done: "drain_batch k r = (ts, r') \<Longrightarrow> r_done r' = r_done r"
  by (induction k arbitrary: r ts r')
     (auto simp: ring_get_def split: option.splits prod.splits if_splits)

lemma inv_batch:
  assumes i: "sched_inv s" and st: "batch_step s = Some s'" and u: "\<not> sc_undef s'"
  shows "sched_inv s'"
proof -
  note d = sched_invD [OF i]
  from st obtain c j where m: "sc_mpc s = MBatch c j" by (auto simp: batch_step_def split: mpc.splits)
  with st u obtain job where j: "sc_heap s j = Some job"
    and s1: "s' = (case drain_batch 32 (wj_ring job) of (ts, r) \<Rightarrow>
         put_job j (job\<lparr>wj_ring := r\<rparr>) (s\<lparr>sc_out := (sc_out s)(c := sc_out s c @ ts),
           sc_mpc := (if length ts = 32 then MBatch c j else MFinal c j)\<rparr>))"
    by (auto simp: batch_step_def dest!: with_job_defined)
  obtain ts r where b: "drain_batch 32 (wj_ring job) = (ts, r)" by fastforce
  have "r_done r = r_done (wj_ring job)" using drain_batch_done [OF b] .
  then have "same_key job (job\<lparr>wj_ring := r\<rparr>)" by (simp add: same_key_def job_busy_def)
  then have "framed s s'" using j s1 b by (simp add: framed_def put_job_def same_heap_put)
  then show ?thesis
    by (rule framed_inv [OF _ i]) (use d(3,4) m s1 b in \<open>auto simp: put_job_def\<close>)
qed

lemma inv_done:
  assumes i: "sched_inv s" and st: "done_step s = Some s'" and u: "\<not> sc_undef s'"
  shows "sched_inv s'"
proof -
  note d = sched_invD [OF i]
  from st obtain c j where m: "sc_mpc s = MFinal c j" by (auto simp: done_step_def split: mpc.splits)
  with st u obtain job where j: "sc_heap s j = Some job"
    and s': "s' = s\<lparr>sc_mpc := MState c j (r_done (wj_ring job) \<and> ring_is_empty (wj_ring job))\<rparr>"
    by (auto simp: done_step_def dest!: with_job_defined)
  have "framed s s'" by (simp add: s' framed_def)
  then show ?thesis by (rule framed_inv [OF _ i]) (use d(3,4) m j s' in auto)
qed

text \<open>A job that the event loop may free is not live, and no other connection has it.\<close>

lemma inv_finalize:
  assumes i: "sched_inv s" and c: "sc_conn s c = Some j" and j: "sc_heap s j = Some job"
    and f: "finished job \<or> r_done (wj_ring job)"
  shows "sched_inv (finalize c j job s)"
proof -
  note d = sched_invD [OF i]
  have nl: "\<not> live (sc_heap s) j" using f j by (auto simp: live_def finished_def job_busy_def)
  have id: "wj_wakeup_id job = c" "\<not> wj_orphaned job" using conn_invD [OF d(2) c j] by simp_all
  let ?s = "finalize c j job s"
  have h: "sc_heap ?s = (sc_heap s)(j := None)" "sc_worker ?s = sc_worker s" "sc_next ?s = sc_next s"
    "sc_conn ?s = (sc_conn s)(c := None)" "sc_wpc ?s = sc_wpc s" "sc_mpc ?s = MIdle"
    by (simp_all add: finalize_def free_job_def)
  have lv: "live ((sc_heap s)(j := None)) i" if "live (sc_heap s) i" for i
    using that nl by (cases "i = j") (simp_all add: live_other)
  have cl: "cur_live s \<Longrightarrow> cur_live ?s" using lv by (auto simp: cur_live_def h)
  have mo: "moved_on i s \<Longrightarrow> moved_on i ?s" for i using cl by (simp add: moved_on_def h)
  have "conn_inv ?s"
    unfolding conn_inv_def h
  proof (intro allI impI)
    fix c' j' assume a: "((sc_conn s)(c := None)) c' = Some j'"
    then have "c' \<noteq> c" "sc_conn s c' = Some j'" by (auto split: if_splits)
    with d(2) obtain job' where "sc_heap s j' = Some job'" "\<not> wj_orphaned job'" "wj_wakeup_id job' = c'"
      by (auto simp: conn_inv_def)
    with id j \<open>c' \<noteq> c\<close> show "\<exists>job. ((sc_heap s)(j := None)) j' = Some job \<and> \<not> wj_orphaned job \<and> wj_wakeup_id job = c'"
      by (cases "j' = j") auto
  qed
  moreover have "fresh_inv ?s" using d(1) by (simp add: fresh_inv_def h)
  moreover have "worker_inv (sc_wpc s) ?s"
    using d(4) id(2) j by (cases "sc_wpc s") (auto simp: lv cl h dest: mo)
  ultimately show ?thesis by (simp add: sched_inv_def h(5,6))
qed

lemma inv_wakeup:
  assumes i: "sched_inv s" and st: "wakeup_step c s = Some s'" and u: "\<not> sc_undef s'"
  shows "sched_inv s'"
proof -
  note d = sched_invD [OF i]
  define s1 where "s1 = s\<lparr>sc_pending := (sc_pending s)(c := sc_pending s c - 1)\<rparr>"
  have i1: "sched_inv s1" by (rule framed_inv [of s, OF _ i]) (use d(3,4) in \<open>simp_all add: framed_def s1_def\<close>)
  have m: "sched_inv (s1\<lparr>sc_mpc := MBatch c j\<rparr>)" if "sc_conn s c = Some j" for j
    by (rule framed_inv [of s, OF _ i]) (use d(3,4) that in \<open>simp_all add: framed_def s1_def\<close>)
  have eq: "sc_conn s1 = sc_conn s" "sc_heap s1 = sc_heap s" by (simp_all add: s1_def)
  note st1 = st [unfolded wakeup_step_def Let_def, folded s1_def]
  show ?thesis
  proof (cases "sc_conn s c")
    case None
    with st1 i1 show ?thesis by (auto split: if_splits)
  next
    case (Some j)
    with st1 u obtain job where j: "sc_heap s j = Some job"
      and s': "s' = (if wj_stream job then s1\<lparr>sc_mpc := MBatch c j\<rparr>
            else if finished job then finalize c j job s1 else s1)"
      by (auto simp: eq split: if_splits dest!: with_job_defined)
    with m [OF Some] i1 inv_finalize [OF i1, of c j job] Some show ?thesis by (simp add: eq)
  qed
qed

lemma inv_state:
  assumes i: "sched_inv s" and st: "state_step s = Some s'" and u: "\<not> sc_undef s'"
  shows "sched_inv s'"
proof -
  note d = sched_invD [OF i]
  from st obtain c j b where m: "sc_mpc s = MState c j b" by (auto simp: state_step_def split: mpc.splits)
  with st u obtain job where j: "sc_heap s j = Some job"
    and s': "s' = (if b \<or> finished job then finalize c j job s else s\<lparr>sc_mpc := MIdle\<rparr>)"
    by (auto simp: state_step_def dest!: with_job_defined)
  have "sched_inv (s\<lparr>sc_mpc := MIdle\<rparr>)"
    by (rule framed_inv [of s, OF _ i]) (use d(4) in \<open>simp_all add: framed_def\<close>)
  with inv_finalize [OF i _ j] d(3) m j s' show ?thesis by auto
qed

lemma current_lt:
  assumes i: "sched_inv s" and c: "wk_current (sc_worker s) = Some k"
  shows "k < sc_next s"
  using sched_invD(4) [OF i] c live_lt [OF sched_invD(1) [OF i], of k]
  by (cases "sc_wpc s") (auto simp: cur_live_def moved_on_def)

text \<open>A request is accepted only when there is no current job, or one that is not busy.\<close>

lemma inv_accept:
  assumes i: "sched_inv s"
    and cur: "\<forall>k. wk_current (sc_worker s) = Some k \<longrightarrow> (\<exists>job. sc_heap s k = Some job \<and> \<not> job_busy job)"
    and job: "job_busy job" "\<not> r_done (wj_ring job)" "\<not> wj_orphaned job" "wj_wakeup_id job = c"
  shows "sched_inv (s\<lparr>sc_next := sc_next s + 1, sc_mpc := MIdle,
     sc_heap := (sc_heap s)(sc_next s := Some job), sc_worker := (sc_worker s)\<lparr>wk_current := Some (sc_next s)\<rparr>,
     sc_conn := (sc_conn s)(c := Some (sc_next s))\<rparr>)"
    (is "sched_inv ?s")
proof -
  note d = sched_invD [OF i]
  have fr: "sc_heap s (sc_next s) = None" using d(1) by (simp add: fresh_inv_def)
  have cl: "cur_live ?s" using job by (simp add: cur_live_def live_def)
  then have mo: "x < sc_next s \<Longrightarrow> moved_on x ?s" for x by (simp add: moved_on_def)
  have nl: "\<not> live (sc_heap s) k" "\<not> (\<forall>job. sc_heap s k = Some job \<longrightarrow> job_busy job)"
    if "wk_current (sc_worker s) = Some k" for k
    using that cur by (auto simp: live_def)
  have "fresh_inv ?s" using d(1) by (auto simp: fresh_inv_def)
  moreover have "sc_conn s c' \<noteq> Some (sc_next s)" for c'
    using d(2) fr unfolding conn_inv_def by (metis option.distinct(1))
  then have "conn_inv ?s" using d(2) job by (auto simp: conn_inv_def)
  moreover have "worker_inv (sc_wpc s) ?s"
    using d(4)
  proof (cases "sc_wpc s")
    case (WFree j)
    with d(4) fr mo [of j] show ?thesis by (auto simp: moved_on_def)
  qed (use nl cl mo in \<open>auto simp del: fun_upd_apply simp: moved_on_def [of _ s]\<close>)
  ultimately show ?thesis by (simp add: sched_inv_def)
qed

lemma new_job_fields:
  "job_busy (new_job c stream)" "\<not> r_done (wj_ring (new_job c stream))"
  "\<not> wj_orphaned (new_job c stream)" "wj_wakeup_id (new_job c stream) = c"
  "wj_state (new_job c stream) = JobIdle" "\<not> wj_cancel (new_job c stream)"
  by (simp_all add: new_job_def worker_job_init_def job_busy_def ring_init_def)

lemma new_job_submitted: "(new_job c stream)\<lparr>wj_state := JobIdle, wj_cancel := False\<rparr> = new_job c stream"
  using new_job_fields(5,6) [of c stream] by simp

lemma submit_cases:
  assumes "sched_inv s" and "submit_step s = Some s'" and "\<not> sc_undef s'"
  obtains (refused) c stream where "sc_mpc s = MSubmit c stream" "s' = s\<lparr>sc_next := sc_next s + 1, sc_mpc := MIdle\<rparr>"
  | (accepted) c stream where "sc_mpc s = MSubmit c stream"
    "\<forall>k. wk_current (sc_worker s) = Some k \<longrightarrow> (\<exists>job. sc_heap s k = Some job \<and> \<not> job_busy job)"
    "s' = s\<lparr>sc_next := sc_next s + 1, sc_mpc := MIdle,
       sc_heap := (sc_heap s)(sc_next s := Some (new_job c stream)),
       sc_worker := (sc_worker s)\<lparr>wk_current := Some (sc_next s)\<rparr>,
       sc_conn := (sc_conn s)(c := Some (sc_next s))\<rparr>"
proof -
  from assms(2) obtain c stream where m: "sc_mpc s = MSubmit c stream"
    by (auto simp: submit_step_def split: mpc.splits)
  have set: "set_current ((sc_heap s)(sc_next s := Some (new_job c stream))) w (sc_next s) =
    Some (0, (sc_heap s)(sc_next s := Some (new_job c stream)), w\<lparr>wk_current := Some (sc_next s)\<rparr>)" for w
    by (simp add: set_current_def new_job_submitted)
  show ?thesis
  proof (cases "wk_current (sc_worker s)")
    case None
    then show ?thesis using assms(2) m by (intro accepted [OF m]) (auto simp: submit_step_def worker_submit_def Let_def set)
  next
    case (Some k)
    with current_lt [OF assms(1)] have k: "k \<noteq> sc_next s" by fastforce
    with assms(2,3) m Some obtain job where job: "sc_heap s k = Some job"
      by (auto simp: submit_step_def worker_submit_def Let_def split: option.splits)
    show ?thesis
    proof (cases "job_busy job")
      case True
      with assms(2) m Some k job show ?thesis
        by (intro refused [OF m]) (auto simp: submit_step_def worker_submit_def Let_def)
    next
      case False
      with assms(2) m Some k job show ?thesis
        by (intro accepted [OF m]) (auto simp: submit_step_def worker_submit_def Let_def set)
    qed
  qed
qed

lemma inv_submit:
  assumes i: "sched_inv s" and st: "submit_step s = Some s'" and u: "\<not> sc_undef s'"
  shows "sched_inv s'"
  using assms
proof (cases rule: submit_cases)
  case (refused c stream)
  note d = sched_invD [OF i]
  have "worker_inv (sc_wpc s) s'" using d(4) refused
    by (cases "sc_wpc s") (auto simp: cur_live_def moved_on_def)
  with d(1,2) refused show ?thesis by (simp add: sched_inv_def fresh_inv_def conn_inv_def)
next
  case (accepted c stream)
  from inv_accept [OF i accepted(2) new_job_fields(1-4)] accepted(3) show ?thesis by simp
qed

lemma inv_close:
  assumes i: "sched_inv s" and st: "close_step c s = Some s'" and u: "\<not> sc_undef s'"
  shows "sched_inv s'"
proof (cases "sc_conn s c")
  case None
  with st i show ?thesis by (auto simp: close_step_def split: if_splits)
next
  case (Some j)
  note d = sched_invD [OF i]
  let ?f = "\<lambda>job. job\<lparr>wj_cancel := True, wj_mgr := False, wj_orphaned := True\<rparr>"
  from st u Some obtain job where j: "sc_heap s j = Some job" and m: "sc_mpc s = MIdle"
    and s': "s' = put_job j (?f job) (s\<lparr>sc_conn := (sc_conn s)(c := None)\<rparr>)"
    by (auto simp: close_step_def split: if_splits dest!: with_job_defined)
  have h: "sc_heap s' = (sc_heap s)(j := Some (?f job))" "sc_worker s' = sc_worker s" "sc_next s' = sc_next s"
    "sc_wpc s' = sc_wpc s" "sc_mpc s' = MIdle" "sc_conn s' = (sc_conn s)(c := None)"
    using m by (simp_all add: s' put_job_def)
  have lv: "live ((sc_heap s)(j := Some (?f job))) i = live (sc_heap s) i" for i
    using j by (auto simp: live_def job_busy_def)
  have cl: "cur_live s' = cur_live s" by (simp add: cur_live_def h lv)
  have mo: "moved_on i s' = moved_on i s" for i using cl by (simp add: moved_on_def h)
  have "conn_inv s'"
    unfolding conn_inv_def h
  proof (intro allI impI)
    fix c' j' assume a: "((sc_conn s)(c := None)) c' = Some j'"
    then have n: "c' \<noteq> c" "sc_conn s c' = Some j'" by (auto split: if_splits)
    then have "j' \<noteq> j" using conn_invD [OF d(2) Some j] conn_invD [OF d(2) n(2), of job] j by auto
    with d(2) n show "\<exists>job'. ((sc_heap s)(j := Some (?f job))) j' = Some job' \<and> \<not> wj_orphaned job' \<and> wj_wakeup_id job' = c'"
      by (auto simp: conn_inv_def)
  qed
  moreover have "fresh_inv s'" using d(1) j by (auto simp: fresh_inv_def h)
  moreover have "worker_inv (sc_wpc s) s'"
    using d(4) j by (cases "sc_wpc s") (auto simp: cl mo lv h job_busy_def)
  ultimately show ?thesis by (simp add: sched_inv_def h(4,5))
qed

lemma inv_stop:
  assumes i: "sched_inv s" and st: "stop_step s = Some s'"
  shows "sched_inv s'"
proof -
  from st have s': "s' = s\<lparr>sc_worker := worker_destroy (sc_worker s)\<rparr>" by (simp add: stop_step_def split: if_splits)
  have "framed s s'" by (simp add: s' framed_def worker_destroy_def)
  then show ?thesis by (rule framed_inv [OF _ i]) (use sched_invD [OF i] s' in simp_all)
qed

lemma inv_step: "sched_inv s \<Longrightarrow> step s a s' \<Longrightarrow> \<not> sc_undef s' \<Longrightarrow> sched_inv s'"
  by (cases a) (auto simp: step_iff intro: inv_work inv_token inv_end inv_check inv_submit inv_wakeup
      inv_batch inv_done inv_state inv_close inv_stop)

lemma reachable_inv: "reachable s \<Longrightarrow> \<not> sc_undef s \<Longrightarrow> sched_inv s"
proof (induction rule: reachable.induct)
  case reach_init
  then show ?case by (simp add: sched_inv_init)
next
  case (reach_step s a s')
  have "\<not> sc_undef s" using reach_step(2) by (rule stepE)
  with reach_step inv_step show ?case by blast
qed

section \<open>What always holds\<close>

text \<open>After the inference has returned, the worker still uses the job.\<close>

fun after_run :: "wpc \<Rightarrow> bool" where
  "after_run (WSet j good) = True"
| "after_run (WLog j) = True"
| "after_run (WClear j) = True"
| "after_run (WOrphan j) = True"
| "after_run (WMgr j) = True"
| "after_run w = False"

fun generating :: "wpc \<Rightarrow> nat \<Rightarrow> bool" where
  "generating (WTaken j) i = (i = j)"
| "generating (WRun j n) i = (i = j)"
| "generating (WRingDone j good) i = (i = j)"
| "generating w i = False"

text \<open>
  C6. While the worker generates, its job is safe: it is allocated and current, and every
  other request is answered with "busy" (\<open>worker_is_busy\<close> reads a valid job and says so).
\<close>

theorem generating_job_is_held:
  assumes "reachable s" and "\<not> sc_undef s" and "generating (sc_wpc s) j"
  shows "wk_current (sc_worker s) = Some j \<and> sc_heap s j \<noteq> None \<and>
    worker_is_busy (sc_heap s) (sc_worker s) = Some True"
proof -
  have "worker_inv (sc_wpc s) s" using reachable_inv [OF assms(1,2)] by (rule sched_invD)
  with assms(3) have "wk_current (sc_worker s) = Some j \<and> live (sc_heap s) j" by (cases "sc_wpc s") auto
  then show ?thesis by (auto simp: live_def worker_is_busy_def)
qed

lemma current_live: "sched_inv s \<Longrightarrow> \<not> after_run (sc_wpc s) \<Longrightarrow> cur_live s"
  using sched_invD(4) [of s] by (cases "sc_wpc s") (auto simp: cur_live_def moved_on_def)

lemma with_job_allocated: "sc_heap s j = Some job \<Longrightarrow> with_job s j f = f job"
  by (simp add: with_job_def)

lemma conn_allocated: "conn_inv s \<Longrightarrow> sc_conn s c = Some j \<Longrightarrow> \<exists>job. sc_heap s j = Some job"
  by (auto simp: conn_inv_def)

lemma work_defined:
  assumes "sched_inv s" and "\<not> sc_undef s" and "\<not> after_run (sc_wpc s)"
    and "worker_step s (sc_wpc s) = Some s'"
  shows "\<not> sc_undef s'"
  using assms sched_invD(4) [OF assms(1)]
  by (cases "sc_wpc s")
     (auto simp: live_def with_job_allocated put_job_def free_job_def split: if_splits option.splits)

lemma main_defined:
  assumes i: "sched_inv s" and u: "\<not> sc_undef s" and w: "\<not> after_run (sc_wpc s)"
    and st: "act a s = Some s'" and a: "a \<noteq> Work"
  shows "\<not> sc_undef s'"
proof (cases a)
  case (Token t)
  with st u sched_invD(4) [OF i] show ?thesis
    by (auto simp: token_step_def live_def put_job_def wake_def Let_def
        split: wpc.splits option.splits if_splits)
next
  case (Return good)
  with st u sched_invD(4) [OF i] show ?thesis
    by (auto simp: end_step_def live_def with_job_allocated split: wpc.splits)
next
  case (Check c stream)
  with st u current_live [OF i w] show ?thesis
    by (auto simp: check_step_def worker_is_busy_def cur_live_def live_def split: if_splits option.splits)
next
  case Submit
  then obtain c stream where m: "sc_mpc s = MSubmit c stream"
    using st by (auto simp: submit_step_def split: mpc.splits)
  show ?thesis
  proof (cases "wk_current (sc_worker s)")
    case None
    with st u m Submit show ?thesis
      by (auto simp: submit_step_def worker_submit_def set_current_def Let_def)
  next
    case (Some k)
    with current_live [OF i w] current_lt [OF i] obtain job where
      "sc_heap s k = Some job" "job_busy job" "k < sc_next s" by (auto simp: cur_live_def live_def)
    with st u m Some Submit show ?thesis
      by (auto simp: submit_step_def worker_submit_def Let_def)
  qed
next
  case (WakeUp c)
  with st u conn_allocated [OF sched_invD(2) [OF i], of c] show ?thesis
    by (auto simp: wakeup_step_def with_job_def finalize_def free_job_def Let_def
        split: if_splits option.splits)
next
  case Batch
  with st u sched_invD(3) [OF i] conn_allocated [OF sched_invD(2) [OF i]] show ?thesis
    by (fastforce simp: batch_step_def with_job_def put_job_def split: mpc.splits option.splits prod.splits)
next
  case RingDone
  with st u sched_invD(3) [OF i] conn_allocated [OF sched_invD(2) [OF i]] show ?thesis
    by (fastforce simp: done_step_def with_job_def split: mpc.splits option.splits)
next
  case StateLoad
  with st u sched_invD(3) [OF i] conn_allocated [OF sched_invD(2) [OF i]] show ?thesis
    by (fastforce simp: state_step_def with_job_def finalize_def free_job_def
        split: mpc.splits option.splits if_splits)
next
  case (Close c)
  with st u conn_allocated [OF sched_invD(2) [OF i], of c] show ?thesis
    by (auto simp: close_step_def with_job_def put_job_def split: if_splits option.splits)
next
  case Stop
  with st u show ?thesis by (auto simp: stop_step_def split: if_splits)
qed (use a in simp)


section \<open>What can go wrong\<close>

text \<open>The schedules, from the start of the daemon.\<close>

definition stream_to_end :: "action list" where
  "stream_to_end = [Check 0 True, Submit, Work, Work, Token ''a'', Return True, Work]"

lemma trace_use_after_free:
  "map_option (\<lambda>s. (sc_undef s, sc_wpc s, sc_out s 0))
     (run (stream_to_end @ [WakeUp 0, Batch, RingDone, StateLoad]) sched_init) =
   Some (False, WSet 0 True, [''a''])"
  by code_simp

lemma trace_use_after_free_worker:
  "map_option sc_undef
     (run (stream_to_end @ [WakeUp 0, Batch, RingDone, StateLoad, Work]) sched_init) = Some True"
  by code_simp

lemma trace_use_after_free_main:
  "map_option sc_undef
     (run (stream_to_end @ [WakeUp 0, Batch, RingDone, StateLoad, Check 1 False]) sched_init) = Some True"
  by code_simp

definition accept_before_clear :: "action list" where
  "accept_before_clear = [Check 0 False, Submit, Work, Work, Return True, Work, Check 1 False, Submit,
     Work, Work, Work, Work]"

lemma trace_lost_job:
  "map_option (\<lambda>s. (sc_wpc s, wk_current (sc_worker s), sc_conn s 1, map_option wj_state (sc_heap s 1), sc_undef s))
     (run accept_before_clear sched_init) = Some (WWait, None, Some 1, Some JobIdle, False)"
  by code_simp

definition close_after_check :: "action list" where
  "close_after_check = [Check 0 False, Submit, Work, Work, Return True, Work, Work, Work, Work, Close 0, Work]"

lemma trace_leak:
  "map_option (\<lambda>s. (sc_wpc s, wk_current (sc_worker s), sc_conn s 0, map_option wj_orphaned (sc_heap s 0), sc_undef s))
     (run close_after_check sched_init) = Some (WWait, None, None, Some True, False)"
  by code_simp

definition token_after_drain :: "action list" where
  "token_after_drain = [Check 0 True, Submit, Work, Work, Token ''a'', WakeUp 0, Batch, RingDone,
     Token ''b'', Return True, Work, Work, StateLoad]"

lemma trace_tail_lost:
  "map_option (\<lambda>s. (sc_out s 0, sc_lost s, sc_conn s 0, sc_undef s)) (run token_after_drain sched_init) =
   Some ([''a''], [''b''], None, False)"
  by code_simp

lemma run_append: "run (as @ bs) s = Option.bind (run as s) (run bs)"
  by (induction as arbitrary: s) (auto simp: option_bind_Some_iff split: Option.bind_splits)

lemma run_last:
  "run (as @ [a]) s = Some s' \<Longrightarrow> \<exists>s1. run as s = Some s1 \<and> step s1 a s'"
  by (auto simp: run_append option_bind_Some_iff step_iff split: if_splits)


definition first_token :: "action list" where
  "first_token = [Check 0 True, Submit, Work, Work, Token ''a'']"

lemma trace_first_token:
  "map_option (\<lambda>s. (sc_undef s, sc_wpc s)) (run first_token sched_init) = Some (False, WRun 0 0)"
  by code_simp

theorem generating_job_is_held_witness:
  "\<exists>s. run first_token sched_init = Some s \<and> worker_is_busy (sc_heap s) (sc_worker s) = Some True"
proof -
  obtain s where s: "run first_token sched_init = Some s" "\<not> sc_undef s" "sc_wpc s = WRun 0 0"
    using trace_first_token by auto
  from s(3) have "generating (sc_wpc s) 0" by simp
  from generating_job_is_held [OF run_reachable [OF s(1) reach_init] s(2) this] s(1) show ?thesis by blast
qed

text \<open>
  C13. The window is real: after a stream whose final chunk was sent, both threads can touch
  the freed job, the worker when it stores the final state, the event loop when the next
  request asks whether the worker is busy.
\<close>

theorem use_after_free_is_reachable:
  "(\<exists>s s'. reachable s \<and> step s Work s' \<and> sc_undef s') \<and>
   (\<exists>s s'. reachable s \<and> step s (Check 1 False) s' \<and> sc_undef s')"
proof -
  let ?tr = "stream_to_end @ [WakeUp 0, Batch, RingDone, StateLoad]"
  obtain s1 s2 where "run (?tr @ [Work]) sched_init = Some s1" "sc_undef s1"
    "run (?tr @ [Check 1 False]) sched_init = Some s2" "sc_undef s2"
    using trace_use_after_free_worker trace_use_after_free_main by auto
  with run_last run_reachable [OF _ reach_init] show ?thesis by meson
qed

text \<open>
  C14. The end of a stream can be lost: a token stored after the event loop emptied the ring,
  and before it looked at the job's state, is freed unsent although the stream is closed
  with its final chunk as if it were complete.
\<close>

theorem stream_tail_can_be_lost:
  "\<exists>s. reachable s \<and> sc_out s 0 = [''a''] \<and> sc_lost s = [''b''] \<and> sc_conn s 0 = None"
  using trace_tail_lost run_reachable [OF _ reach_init] by fastforce

subsection \<open>Jobs that nobody will run or free\<close>

fun holds :: "wpc \<Rightarrow> nat \<Rightarrow> bool" where
  "holds WWait i = False"
| "holds WStopped i = False"
| "holds (WTaken j) i = (i = j)"
| "holds (WRun j n) i = (i = j)"
| "holds (WRingDone j good) i = (i = j)"
| "holds (WSet j good) i = (i = j)"
| "holds (WLog j) i = (i = j)"
| "holds (WClear j) i = (i = j)"
| "holds (WOrphan j) i = (i = j)"
| "holds (WFree j) i = (i = j)"
| "holds (WMgr j) i = (i = j)"

text \<open>A job that was accepted for connection \<open>c\<close> but that the worker does not know.\<close>

definition lost :: "nat \<Rightarrow> nat \<Rightarrow> sched \<Rightarrow> bool" where
  "lost c j s \<longleftrightarrow> sc_conn s c = Some j \<and> wk_current (sc_worker s) \<noteq> Some j \<and>
     \<not> holds (sc_wpc s) j \<and> live (sc_heap s) j \<and> (\<forall>st. sc_mpc s \<noteq> MSubmit c st)"

text \<open>An allocated job that neither thread refers to.\<close>

definition leaked :: "nat \<Rightarrow> sched \<Rightarrow> bool" where
  "leaked j s \<longleftrightarrow> sc_heap s j \<noteq> None \<and> (\<forall>c. sc_conn s c \<noteq> Some j) \<and>
     wk_current (sc_worker s) \<noteq> Some j \<and> \<not> holds (sc_wpc s) j"

lemmas step_defs = token_step_def end_step_def check_step_def wakeup_step_def batch_step_def done_step_def
  state_step_def close_step_def stop_step_def with_job_def put_job_def free_job_def wake_def
  undefined_use_def finalize_def worker_destroy_def

lemma work_other:
  "worker_step s (sc_wpc s) = Some s' \<Longrightarrow> \<not> holds (sc_wpc s) j \<Longrightarrow> wk_current (sc_worker s) \<noteq> Some j \<Longrightarrow>
   sc_heap s' j = sc_heap s j \<and> sc_conn s' = sc_conn s \<and> wk_current (sc_worker s') \<noteq> Some j \<and>
   \<not> holds (sc_wpc s') j \<and> sc_mpc s' = sc_mpc s"
  by (cases "sc_wpc s") (auto simp: step_defs split: if_splits option.splits)

lemma run_other:
  "token_step t s = Some s' \<or> end_step good s = Some s' \<Longrightarrow> \<not> holds (sc_wpc s) j \<Longrightarrow>
   sc_heap s' j = sc_heap s j \<and> sc_conn s' = sc_conn s \<and> sc_worker s' = sc_worker s \<and>
   \<not> holds (sc_wpc s') j \<and> sc_mpc s' = sc_mpc s"
  by (auto simp: step_defs Let_def split: wpc.splits option.splits if_splits)

lemma submit_other:
  assumes "sched_inv s" and "submit_step s = Some s'" and "j < sc_next s"
    and "wk_current (sc_worker s) \<noteq> Some j"
  shows "sc_heap s' j = sc_heap s j \<and> wk_current (sc_worker s') \<noteq> Some j \<and> sc_wpc s' = sc_wpc s \<and>
    (\<forall>c. sc_conn s' c = sc_conn s c \<or> sc_conn s' c = Some (sc_next s) \<and> (\<exists>st. sc_mpc s = MSubmit c st)) \<and>
    (\<forall>c st. sc_mpc s' \<noteq> MSubmit c st)"
proof (cases "sc_undef s'")
  case True
  with assms show ?thesis
    by (auto simp: submit_step_def undefined_use_def worker_submit_def set_current_def Let_def
        split: mpc.splits option.splits if_splits)
next
  case False
  from assms(1,2) False show ?thesis
    by (cases rule: submit_cases) (use assms(3,4) in auto)
qed

lemma main_other:
  assumes "act a s = Some s'" and "a \<in> {Check c' st, WakeUp c', Batch, RingDone, StateLoad, Close c', Stop}"
  shows "sc_wpc s' = sc_wpc s \<and> wk_current (sc_worker s') = wk_current (sc_worker s)"
  using assms
  by (auto simp: step_defs Let_def split: mpc.splits option.splits if_splits prod.splits)

lemma leaked_step:
  assumes i: "sched_inv s" and st: "act a s = Some s'" and k: "leaked j s"
  shows "leaked j s'"
proof -
  obtain job where j: "sc_heap s j = Some job" using k by (auto simp: leaked_def)
  note lt = fresh_lt [OF sched_invD(1) [OF i] j]
  note m = sched_invD(3) [OF i]
  have nc: "sc_conn s c \<noteq> Some j" for c using k by (simp add: leaked_def)
  show ?thesis
  proof (cases a)
    case Work
    with st k work_other [of s s' j] show ?thesis by (auto simp: leaked_def)
  next
    case (Token t)
    with st k run_other [of t s s' True j] show ?thesis by (auto simp: leaked_def)
  next
    case (Return good)
    with st k run_other [of "[]" s s' good j] show ?thesis by (auto simp: leaked_def)
  next
    case Submit
    then have sub: "submit_step s = Some s'" using st by simp
    from k have "wk_current (sc_worker s) \<noteq> Some j" by (simp add: leaked_def)
    note o = submit_other [OF i sub lt this]
    have "sc_conn s' c \<noteq> Some j" for c using o nc lt by (metis less_irrefl option.inject)
    with o k show ?thesis by (simp add: leaked_def)
  next
    case (Check c st')
    with st k show ?thesis by (auto simp: leaked_def step_defs split: if_splits option.splits)
  next
    case (WakeUp c)
    with st k nc show ?thesis by (auto simp: leaked_def step_defs Let_def split: if_splits option.splits)
  next
    case Batch
    with st k nc m show ?thesis by (auto simp: leaked_def step_defs split: mpc.splits option.splits prod.splits)
  next
    case RingDone
    with st k nc m show ?thesis by (auto simp: leaked_def step_defs split: mpc.splits option.splits)
  next
    case StateLoad
    with st k nc m show ?thesis by (auto simp: leaked_def step_defs split: mpc.splits option.splits if_splits)
  next
    case (Close c)
    with st k nc show ?thesis by (auto simp: leaked_def step_defs split: if_splits option.splits)
  next
    case Stop
    with st k show ?thesis by (auto simp: leaked_def step_defs split: if_splits)
  qed
qed

lemma live_drained: "sc_heap s j = Some job \<Longrightarrow> drain_batch n (wj_ring job) = (ts, r) \<Longrightarrow>
   live ((sc_heap s)(j := Some (job\<lparr>wj_ring := r\<rparr>))) i = live (sc_heap s) i"
  by (auto simp: live_def job_busy_def dest: drain_batch_done)

lemma live_at: "live h j \<Longrightarrow> h' j = h j \<Longrightarrow> live h' j"
  by (simp add: live_def)

lemma live_not_finished: "live h j \<Longrightarrow> h j = Some job \<Longrightarrow> \<not> finished job \<and> \<not> r_done (wj_ring job)"
  by (auto simp: live_def finished_def job_busy_def)

lemma conn_unique: "conn_inv s \<Longrightarrow> sc_conn s c = Some j \<Longrightarrow> sc_conn s c' = Some j \<Longrightarrow> c' = c"
  unfolding conn_inv_def by (metis option.inject)

lemma lost_pending [simp]: "lost c j (s\<lparr>sc_pending := p\<rparr>) = lost c j s"
  by (simp add: lost_def)

lemma lost_mpc: "lost c j s \<Longrightarrow> (\<And>st. m \<noteq> MSubmit c st) \<Longrightarrow> lost c j (s\<lparr>sc_mpc := m\<rparr>)"
  by (simp add: lost_def)

lemma lost_undefined [simp]: "lost c j (undefined_use s) = lost c j s"
  by (simp add: lost_def undefined_use_def)

lemma finalize_lost:
  "sc_conn s c' = Some j' \<Longrightarrow> j' \<noteq> j \<Longrightarrow> lost c j s \<Longrightarrow> lost c j (finalize c' j' job s)"
  by (auto simp: lost_def finalize_def free_job_def live_other)

lemma close_lost:
  "sc_conn s c' = Some j' \<Longrightarrow> j' \<noteq> j \<Longrightarrow> lost c j s \<Longrightarrow>
   lost c j (put_job j' job (s\<lparr>sc_conn := (sc_conn s)(c' := None)\<rparr>))"
  by (auto simp: lost_def put_job_def live_other)

lemma lost_step:
  assumes i: "sched_inv s" and st: "act a s = Some s'" and k: "lost c j s"
    and a: "a \<noteq> Close c" "\<And>stream. a \<noteq> Check c stream"
  shows "lost c j s'"
proof -
  have k': "sc_conn s c = Some j" "wk_current (sc_worker s) \<noteq> Some j" "\<not> holds (sc_wpc s) j"
    "live (sc_heap s) j" "\<And>st. sc_mpc s \<noteq> MSubmit c st" using k by (auto simp: lost_def)
  obtain job where j: "sc_heap s j = Some job" using k'(4) by (auto simp: live_def)
  note lt = live_lt [OF sched_invD(1) [OF i] k'(4)]
  note m = sched_invD(3) [OF i]
  note un = conn_unique [OF sched_invD(2) [OF i] k'(1)]
  note nf = live_not_finished [OF k'(4)]
  show ?thesis
  proof (cases a)
    case Work
    with st k' work_other [of s s' j] live_at [OF k'(4), of "sc_heap s'"] show ?thesis by (auto simp: lost_def)
  next
    case (Token t)
    with st k' run_other [of t s s' True j] live_at [OF k'(4), of "sc_heap s'"]
    show ?thesis by (auto simp: lost_def)
  next
    case (Return good)
    with st k' run_other [of "[]" s s' good j] live_at [OF k'(4), of "sc_heap s'"]
    show ?thesis by (auto simp: lost_def)
  next
    case Submit
    then have sub: "submit_step s = Some s'" using st by simp
    note o = submit_other [OF i sub lt k'(2)]
    have "sc_conn s' c = Some j" using o k'(1,5) by metis
    with o k' live_at [OF k'(4), of "sc_heap s'"] show ?thesis by (simp add: lost_def)
  next
    case (Check c' stream)
    then have "c' \<noteq> c" using a(2) [of stream] by blast
    with Check st k' show ?thesis by (auto simp: lost_def step_defs split: if_splits option.splits)
  next
    case (WakeUp c')
    define s1 where "s1 = s\<lparr>sc_pending := (sc_pending s)(c' := sc_pending s c' - 1)\<rparr>"
    have eq: "sc_conn s1 = sc_conn s" "sc_heap s1 = sc_heap s" and k1: "lost c j s1"
      using k by (simp_all add: s1_def)
    note st1 = st [unfolded WakeUp act.simps wakeup_step_def Let_def, folded s1_def]
    show ?thesis
    proof (cases "sc_conn s c'")
      case None
      with st1 k1 show ?thesis by (simp split: if_splits)
    next
      case (Some j')
      then obtain job' where j': "sc_heap s j' = Some job'"
        using conn_allocated [OF sched_invD(2) [OF i]] by blast
      with st1 Some have s': "s' = (if wj_stream job' then s1\<lparr>sc_mpc := MBatch c' j'\<rparr>
          else if finished job' then finalize c' j' job' s1 else s1)"
        by (simp add: with_job_def eq split: if_splits)
      have "finished job' \<Longrightarrow> j' \<noteq> j" using nf [of job'] j' by auto
      with s' k1 Some show ?thesis by (simp add: lost_mpc finalize_lost eq)
    qed
  next
    case Batch
    then obtain c' j' where b: "sc_mpc s = MBatch c' j'" using st by (auto simp: batch_step_def split: mpc.splits)
    with m have cj: "sc_conn s c' = Some j'" by simp
    obtain job' where j': "sc_heap s j' = Some job'"
      using conn_allocated [OF sched_invD(2) [OF i] cj] by blast
    obtain ts r where d: "drain_batch 32 (wj_ring job') = (ts, r)" by fastforce
    from st Batch b j' d have "sc_heap s' = (sc_heap s)(j' := Some (job'\<lparr>wj_ring := r\<rparr>))"
      "sc_conn s' = sc_conn s" "sc_worker s' = sc_worker s" "sc_wpc s' = sc_wpc s" "\<forall>c st. sc_mpc s' \<noteq> MSubmit c st"
      by (auto simp: batch_step_def with_job_def put_job_def split: if_splits)
    with k' live_drained [OF j' d] show ?thesis by (simp add: lost_def)
  next
    case RingDone
    with st k' m show ?thesis by (auto simp: lost_def step_defs split: mpc.splits option.splits)
  next
    case StateLoad
    then obtain c' j' d where b: "sc_mpc s = MState c' j' d" using st by (auto simp: state_step_def split: mpc.splits)
    with m have cj: "sc_conn s c' = Some j'" by simp
    obtain job' where j': "sc_heap s j' = Some job'"
      using conn_allocated [OF sched_invD(2) [OF i] cj] by blast
    from st StateLoad b j' have s': "s' = (if d \<or> finished job' then finalize c' j' job' s else s\<lparr>sc_mpc := MIdle\<rparr>)"
      by (simp add: state_step_def with_job_def)
    have "d \<or> finished job' \<Longrightarrow> j' \<noteq> j" using nf [of job'] j' m b by auto
    with s' k cj show ?thesis by (simp add: lost_mpc finalize_lost)
  next
    case (Close c')
    show ?thesis
    proof (cases "sc_conn s c'")
      case None
      with st Close k show ?thesis by (simp add: close_step_def split: if_splits)
    next
      case (Some j')
      then obtain job' where j': "sc_heap s j' = Some job'"
        using conn_allocated [OF sched_invD(2) [OF i]] by blast
      have "j' \<noteq> j" using un [of c'] Some a(1) Close by auto
      with st Close Some j' k show ?thesis
        by (auto simp: close_step_def with_job_def close_lost split: if_splits)
    qed
  next
    case Stop
    with st k' show ?thesis by (auto simp: lost_def step_defs split: if_splits)
  qed
qed

lemma run_preserves:
  assumes st: "\<And>s a s'. sched_inv s \<Longrightarrow> act a s = Some s' \<Longrightarrow> P s \<Longrightarrow> a \<in> A \<Longrightarrow> P s'"
    and r: "reachable s" "P s" and run: "run as s = Some s'" "set as \<subseteq> A"
  shows "P s'"
  using r run
proof (induction as arbitrary: s)
  case (Cons a as)
  then obtain s1 where u: "\<not> sc_undef s" and a: "act a s = Some s1" and rest: "run as s1 = Some s'"
    by (auto simp: option_bind_Some_iff split: if_splits)
  have "P s1" using st [OF reachable_inv [OF Cons.prems(1) u] a Cons.prems(2)] Cons.prems(4) by simp
  moreover have "reachable s1" using reach_step [OF Cons.prems(1) step_act [OF u a]] .
  ultimately show ?case using Cons.IH rest Cons.prems(4) by simp
qed simp

text \<open>
  C12. A request can be accepted and then never run: it is submitted while the previous job is
  finished but still current, and the worker then clears the new job from \<open>current_job\<close>. From
  then on, as long as its client neither closes the connection nor sends another request,
  no schedule lets the worker take the job or answers the client.
\<close>

theorem accepted_job_can_be_lost:
  "\<exists>s. run accept_before_clear sched_init = Some s \<and> \<not> sc_undef s \<and> lost 1 1 s \<and>
     (\<forall>as s'. run as s = Some s' \<longrightarrow> set as \<subseteq> - {Close 1, Check 1 True, Check 1 False} \<longrightarrow> lost 1 1 s')"
proof -
  obtain s where s: "run accept_before_clear sched_init = Some s" "sc_wpc s = WWait"
    "wk_current (sc_worker s) = None" "sc_conn s 1 = Some 1" "map_option wj_state (sc_heap s 1) = Some JobIdle"
    "\<not> sc_undef s" using trace_lost_job by auto
  have "map_option (\<lambda>s. (sc_mpc s, map_option (\<lambda>job. r_done (wj_ring job)) (sc_heap s 1)))
    (run accept_before_clear sched_init) = Some (MIdle, Some False)" by code_simp
  with s have l: "lost 1 1 s" by (auto simp: lost_def live_def job_busy_def)
  have r: "reachable s" using run_reachable [OF s(1) reach_init] .
  have "lost 1 1 s'" if "run as s = Some s'" "set as \<subseteq> - {Close 1, Check 1 True, Check 1 False}" for as s'
  proof (rule run_preserves [where P = "lost 1 1" and A = "- {Close 1, Check 1 True, Check 1 False}", rotated, OF r l that])
    fix s a s' assume "sched_inv s" "act a s = Some s'" "lost 1 1 s" "a \<in> - {Close 1, Check 1 True, Check 1 False}"
    moreover from this(4) have "a \<noteq> Check 1 b" for b by (cases b) auto
    ultimately show "lost 1 1 s'" using lost_step by auto
  qed
  with l s(1,6) show ?thesis by blast
qed

text \<open>Another client is served from start to end meanwhile.\<close>

definition serve_another :: "action list" where
  "serve_another = [Check 2 False, Submit, Work, Work, Return True, Work, Work, Work, Work, Work, WakeUp 2]"

lemma serve_another_runs:
  "run (accept_before_clear @ serve_another) sched_init \<noteq> None"
  "run (close_after_check @ serve_another) sched_init \<noteq> None"
  by code_simp+

theorem accepted_job_can_be_lost_witness:
  "\<exists>s'. run (accept_before_clear @ serve_another) sched_init = Some s' \<and> lost 1 1 s'"
proof -
  from accepted_job_can_be_lost obtain s where s: "run accept_before_clear sched_init = Some s"
    and keep: "\<And>as s'. run as s = Some s' \<Longrightarrow> set as \<subseteq> - {Close 1, Check 1 True, Check 1 False} \<Longrightarrow> lost 1 1 s'"
    by blast
  from serve_another_runs(1) s obtain s' where s': "run serve_another s = Some s'" by (auto simp: run_append)
  have "set serve_another \<subseteq> - {Close 1, Check 1 True, Check 1 False}" by (simp add: serve_another_def)
  from keep [OF s' this] s s' show ?thesis by (simp add: run_append)
qed



end
