(* ===== verification/Worker_Order.thy ===== *)
theory Worker_Order
  imports Worker_Sched
begin

text \<open>
  Two more invariants of the two threads of Worker_Sched: at most one job is running, and the
  tokens of a job leave the ring for the connection in the order in which the worker stored
  them. What was stored and what was sent is collected along a schedule.
\<close>

section \<open>One job runs at a time\<close>

text \<open>Between the store of \<open>JOB_RUNNING\<close> and that of the final state the worker holds the job.\<close>

fun runs_at :: "wpc \<Rightarrow> nat \<Rightarrow> bool" where
  "runs_at (WRun j n) i = (i = j)"
| "runs_at (WRingDone j good) i = (i = j)"
| "runs_at (WSet j good) i = (i = j)"
| "runs_at w i = False"

definition running_inv :: "sched \<Rightarrow> bool" where
  "running_inv s \<longleftrightarrow>
     (\<forall>j job. sc_heap s j = Some job \<longrightarrow> wj_state job = JobRunning \<longrightarrow> runs_at (sc_wpc s) j)"

lemma running_invD:
  "running_inv s \<Longrightarrow> sc_heap s j = Some job \<Longrightarrow> wj_state job = JobRunning \<Longrightarrow> runs_at (sc_wpc s) j"
  by (simp add: running_inv_def)

lemma running_init: "running_inv sched_init"
  by (simp add: running_inv_def sched_init_def)

text \<open>Every step but the two stores of the worker leaves the states of the jobs alone.\<close>

definition states_kept :: "sched \<Rightarrow> sched \<Rightarrow> bool" where
  "states_kept s s' \<longleftrightarrow> (\<forall>j job. sc_heap s' j = Some job \<longrightarrow> wj_state job = JobIdle \<or>
     (\<exists>job0. sc_heap s j = Some job0 \<and> wj_state job0 = wj_state job))"

lemma running_kept:
  "running_inv s \<Longrightarrow> states_kept s s' \<Longrightarrow> (\<And>j. runs_at (sc_wpc s) j \<Longrightarrow> runs_at (sc_wpc s') j) \<Longrightarrow>
   running_inv s'"
  unfolding running_inv_def states_kept_def by (metis job_state.distinct(1))

lemma states_kept_main:
  "act a s = Some s' \<Longrightarrow> a \<in> {Token t, Return good, Check c st, WakeUp c, Batch, RingDone, StateLoad, Close c, Stop} \<Longrightarrow>
   states_kept s s'"
  by (auto simp: states_kept_def step_defs Let_def
      split: wpc.splits mpc.splits option.splits if_splits prod.splits)

lemma states_kept_submit:
  "sched_inv s \<Longrightarrow> submit_step s = Some s' \<Longrightarrow> \<not> sc_undef s' \<Longrightarrow> states_kept s s' \<and> sc_wpc s' = sc_wpc s"
  by (cases rule: submit_cases) (auto simp: states_kept_def new_job_fields split: if_splits)

lemma states_kept_wpc:
  "act a s = Some s' \<Longrightarrow> a \<noteq> Work \<Longrightarrow> a \<noteq> Submit \<Longrightarrow> runs_at (sc_wpc s) j \<Longrightarrow> runs_at (sc_wpc s') j"
  by (cases a) (auto simp: step_defs Let_def
      split: wpc.splits mpc.splits option.splits if_splits prod.splits)

lemma running_work:
  assumes r: "running_inv s" and st: "worker_step s (sc_wpc s) = Some s'" and u: "\<not> sc_undef s'"
  shows "running_inv s'"
  unfolding running_inv_def
proof (intro allI impI)
  fix j job assume "sc_heap s' j = Some job" "wj_state job = JobRunning"
  with st u running_invD [OF r, of j] show "runs_at (sc_wpc s') j"
    by (cases "sc_wpc s")
       (auto simp: with_job_def put_job_def free_job_def wake_def undefined_use_def
         split: if_splits option.splits)
qed

lemma running_step:
  assumes i: "sched_inv s" and r: "running_inv s" and st: "act a s = Some s'" and u: "\<not> sc_undef s'"
  shows "running_inv s'"
proof (cases "a = Work \<or> a = Submit")
  case True
  with st u running_work [OF r] states_kept_submit [OF i] running_kept [OF r] show ?thesis by auto
next
  case False
  then have "states_kept s s'" using states_kept_main [OF st] by (cases a) auto
  with False show ?thesis by (intro running_kept [OF r]) (auto intro: states_kept_wpc [OF st])
qed

lemma reachable_running: "reachable s \<Longrightarrow> \<not> sc_undef s \<Longrightarrow> running_inv s"
proof (induction rule: reachable.induct)
  case reach_init
  then show ?case by (simp add: running_init)
next
  case (reach_step s a s')
  from reach_step(2) have u: "\<not> sc_undef s" and st: "act a s = Some s'" by (auto elim: stepE)
  from running_step [OF reachable_inv [OF reach_step(1) u] reach_step(3) [OF u] st] reach_step(4)
  show ?case .
qed


text \<open>A finished job is still allocated while the next one runs.\<close>

definition second_runs :: "action list" where
  "second_runs = [Check 0 False, Submit, Work, Work, Return True, Work, Work, Work, Work, Work,
     Check 1 True, Submit, Work, Work]"

lemma trace_second_runs:
  "map_option (\<lambda>s. (sc_undef s, map_option wj_state (sc_heap s 0), map_option wj_state (sc_heap s 1)))
     (run second_runs sched_init) = Some (False, Some JobDone, Some JobRunning)"
  by code_simp


section \<open>A stream is sent in order\<close>

text \<open>What a step stores in the ring of job \<open>j\<close>, and what it writes to the connection of
  job \<open>j\<close>.\<close>

definition stored :: "nat \<Rightarrow> action \<Rightarrow> sched \<Rightarrow> sched \<Rightarrow> string list" where
  "stored j a s s' = (case (a, sc_wpc s) of
     (Token t, WRun i n) \<Rightarrow> if i = j then [take (TOKEN_TEXT_MAX - 1) t] else []
   | _ \<Rightarrow> [])"

definition written :: "nat \<Rightarrow> action \<Rightarrow> sched \<Rightarrow> sched \<Rightarrow> string list" where
  "written j a s s' = (case (a, sc_mpc s) of
     (Batch, MBatch c i) \<Rightarrow> if i = j then drop (length (sc_out s c)) (sc_out s' c) else []
   | _ \<Rightarrow> [])"

text \<open>Collected along a schedule.\<close>

fun along :: "(action \<Rightarrow> sched \<Rightarrow> sched \<Rightarrow> 'b list) \<Rightarrow> action list \<Rightarrow> sched \<Rightarrow> 'b list" where
  "along f [] s = []"
| "along f (a # as) s = (case act a s of None \<Rightarrow> [] | Some s' \<Rightarrow> f a s s' @ along f as s')"

lemma along_snoc:
  "run as s = Some s1 \<Longrightarrow> act a s1 = Some s' \<Longrightarrow> along f (as @ [a]) s = along f as s @ f a s1 s'"
  by (induction as arbitrary: s) (auto simp: option_bind_Some_iff split: if_splits)

text \<open>The rings of the allocated jobs are well formed.\<close>

definition rings_ok :: "sched \<Rightarrow> bool" where
  "rings_ok s \<longleftrightarrow> (\<forall>j job. sc_heap s j = Some job \<longrightarrow> ring_inv (wj_ring job))"

text \<open>What one step may do to the ring of job \<open>j\<close>.\<close>

definition ring_moves :: "nat \<Rightarrow> action \<Rightarrow> sched \<Rightarrow> sched \<Rightarrow> bool" where
  "ring_moves j a s s' \<longleftrightarrow> (case sc_heap s' j of
     None \<Rightarrow> stored j a s s' = [] \<and> written j a s s' = []
   | Some job \<Rightarrow> ring_inv (wj_ring job) \<and>
       (case sc_heap s j of
          None \<Rightarrow> j = sc_next s \<and> ring_list (wj_ring job) = [] \<and> stored j a s s' = [] \<and> written j a s s' = []
        | Some job0 \<Rightarrow> ring_list (wj_ring job0) @ stored j a s s' = written j a s s' @ ring_list (wj_ring job)))"

lemma same_ring_moves:
  assumes "rings_ok s" and "stored j a s s' = []" and "written j a s s' = []"
    and "\<And>job. sc_heap s' j = Some job \<Longrightarrow> \<exists>job0. sc_heap s j = Some job0 \<and>
       (wj_ring job = wj_ring job0 \<or> wj_ring job = (wj_ring job0)\<lparr>r_done := True\<rparr>)"
  shows "ring_moves j a s s'"
  using assms by (auto simp: ring_moves_def rings_ok_def split: option.splits)

lemma quiet_steps:
  "a \<notin> range Token \<Longrightarrow> stored j a s s' = []"
  "a \<noteq> Batch \<Longrightarrow> written j a s s' = []"
  by (cases a; auto simp: stored_def written_def split: wpc.splits)+

lemma work_frame:
  "worker_step s w = Some s' \<Longrightarrow> sc_out s' = sc_out s \<and> sc_next s' = sc_next s \<and> sc_mpc s' = sc_mpc s"
  by (cases w) (auto simp: step_defs split: if_splits option.splits)

lemma work_rings:
  "worker_step s w = Some s' \<Longrightarrow> sc_heap s' j = Some job \<Longrightarrow> \<exists>job0. sc_heap s j = Some job0 \<and>
     (wj_ring job = wj_ring job0 \<or> wj_ring job = (wj_ring job0)\<lparr>r_done := True\<rparr>)"
  by (cases w) (auto simp: step_defs split: if_splits option.splits)

lemma rings_kept:
  "act a s = Some s' \<Longrightarrow> a \<notin> range Token \<Longrightarrow> a \<noteq> Batch \<Longrightarrow> a \<noteq> Submit \<Longrightarrow> sc_heap s' j = Some job \<Longrightarrow>
   \<exists>job0. sc_heap s j = Some job0 \<and>
     (wj_ring job = wj_ring job0 \<or> wj_ring job = (wj_ring job0)\<lparr>r_done := True\<rparr>)"
  using work_rings [of s "sc_wpc s" s' j job]
  by (cases a) (auto simp: step_defs Let_def split: wpc.splits mpc.splits option.splits if_splits)

lemma new_job_ring: "wj_ring (new_job c stream) = ring_init"
  by (simp add: new_job_def worker_job_init_def)

lemma submit_moves:
  assumes i: "sched_inv s" and r: "rings_ok s" and st: "submit_step s = Some s'" and u: "\<not> sc_undef s'"
  shows "ring_moves j Submit s s'"
proof -
  have q: "stored j Submit s s' = []" "written j Submit s s' = []" using quiet_steps by auto
  have f: "sc_heap s (sc_next s) = None" using sched_invD(1) [OF i] by (simp add: fresh_inv_def)
  from i st u show ?thesis
    by (cases rule: submit_cases)
       (use r q f in \<open>auto simp: ring_moves_def rings_ok_def new_job_ring ring_inv_init ring_list_init
          split: option.splits if_splits\<close>)
qed

lemma token_moves:
  assumes r: "rings_ok s" and st: "token_step t s = Some s'" and u: "\<not> sc_undef s'"
  shows "ring_moves j (Token t) s s'"
proof -
  from st obtain i n where w: "sc_wpc s = WRun i n" by (auto simp: token_step_def split: wpc.splits)
  from st u w obtain job q where i: "sc_heap s i = Some job" and q: "ring_enq t (wj_ring job) = Some q"
    and h: "sc_heap s' = (sc_heap s)(i := Some (job\<lparr>wj_ring := q\<rparr>))"
    by (auto simp: step_defs Let_def split: option.splits if_splits)
  have "ring_inv (wj_ring job)" using r i by (simp add: rings_ok_def)
  from tok.enq_some [OF this q] r i w show ?thesis
    by (auto simp: ring_moves_def h stored_def written_def rings_ok_def split: option.splits)
qed

lemma batch_moves:
  assumes i: "sched_inv s" and r: "rings_ok s" and st: "batch_step s = Some s'"
  shows "ring_moves j Batch s s'"
proof -
  from st obtain c k where m: "sc_mpc s = MBatch c k" by (auto simp: batch_step_def split: mpc.splits)
  with sched_invD(3) [OF i] conn_allocated [OF sched_invD(2) [OF i]] obtain job where
    k: "sc_heap s k = Some job" by auto
  obtain ts q where b: "drain_batch 32 (wj_ring job) = (ts, q)" by fastforce
  from st m k b have h: "sc_heap s' = (sc_heap s)(k := Some (job\<lparr>wj_ring := q\<rparr>))"
    and out: "sc_out s' c = sc_out s c @ ts" by (auto simp: batch_step_def with_job_def put_job_def)
  have "ring_inv (wj_ring job)" using r k by (simp add: rings_ok_def)
  from drain_batch_append [OF this b] r k m show ?thesis
    by (auto simp: ring_moves_def h stored_def written_def out rings_ok_def split: option.splits)
qed

lemma step_moves:
  assumes i: "sched_inv s" and r: "rings_ok s" and st: "act a s = Some s'" and u: "\<not> sc_undef s'"
  shows "ring_moves j a s s'"
proof -
  consider t where "a = Token t" | "a = Batch" | "a = Submit" | "a \<notin> range Token \<and> a \<noteq> Batch \<and> a \<noteq> Submit"
    by blast
  then show ?thesis
  proof cases
    case 4
    with same_ring_moves [OF r, of j a s'] quiet_steps rings_kept [OF st] show ?thesis by blast
  qed (use st submit_moves [OF i r _ u] token_moves [OF r _ u] batch_moves [OF i r] in auto)
qed

text \<open>The output of a connection grows by exactly what is written for the job it streams.\<close>

lemma out_written:
  "act a s = Some s' \<Longrightarrow> \<not> sc_undef s' \<Longrightarrow> sc_out s' c = sc_out s c \<or>
   (\<exists>j. a = Batch \<and> sc_mpc s = MBatch c j \<and> sc_out s' c = sc_out s c @ written j a s s')"
  using work_frame [of s "sc_wpc s" s']
  by (cases a) (auto simp: step_defs submit_step_def written_def Let_def
      split: wpc.splits mpc.splits option.splits if_splits prod.splits)

lemma next_grows: "act a s = Some s' \<Longrightarrow> sc_next s \<le> sc_next s'"
  using work_frame [of s "sc_wpc s" s']
  by (cases a) (auto simp: step_defs submit_step_def Let_def
      split: wpc.splits mpc.splits option.splits if_splits prod.splits)

definition order_inv :: "action list \<Rightarrow> sched \<Rightarrow> bool" where
  "order_inv as s \<longleftrightarrow> rings_ok s \<and> (\<forall>j.
     (\<exists>rest. along (stored j) as sched_init = along (written j) as sched_init @ rest \<and>
        (\<forall>job. sc_heap s j = Some job \<longrightarrow> rest = ring_list (wj_ring job))) \<and>
     (sc_next s \<le> j \<longrightarrow> along (stored j) as sched_init = [] \<and> along (written j) as sched_init = []))"

text \<open>The done flag seen with an empty ring: nothing will be stored any more.\<close>

definition drained_inv :: "sched \<Rightarrow> bool" where
  "drained_inv s \<longleftrightarrow> (\<forall>c j job. sc_mpc s = MState c j True \<longrightarrow> sc_heap s j = Some job \<longrightarrow>
     ring_list (wj_ring job) = [])"

lemma rings_ok_step: "(\<And>j. ring_moves j a s s') \<Longrightarrow> rings_ok s'"
  unfolding rings_ok_def by (metis (no_types, lifting) ring_moves_def option.simps(5))

lemma order_step:
  assumes o: "order_inv as s" and i: "sched_inv s" and run: "run as sched_init = Some s"
    and u0: "\<not> sc_undef s" and st: "act a s = Some s'" and u: "\<not> sc_undef s'"
  shows "order_inv (as @ [a]) s'"
proof -
  have r: "rings_ok s" using o by (simp add: order_inv_def)
  note m = step_moves [OF i r st u]
  have f: "sc_heap s j = None" if "sc_next s \<le> j" for j
    using that sched_invD(1) [OF i] by (simp add: fresh_inv_def)
  have "sched_inv s'" by (rule inv_step [OF i _ u, of a]) (rule step_act [OF u0 st])
  then have f': "sc_heap s' j = None" if "sc_next s' \<le> j" for j
    using that sched_invD(1) [of s'] by (simp add: fresh_inv_def)
  have "(\<exists>rest. along (stored j) (as @ [a]) sched_init = along (written j) (as @ [a]) sched_init @ rest \<and>
        (\<forall>job. sc_heap s' j = Some job \<longrightarrow> rest = ring_list (wj_ring job))) \<and>
     (sc_next s' \<le> j \<longrightarrow> along (stored j) (as @ [a]) sched_init = [] \<and> along (written j) (as @ [a]) sched_init = [])"
    for j
  proof -
    note al = along_snoc [OF run st]
    from o obtain rest where h: "along (stored j) as sched_init = along (written j) as sched_init @ rest"
      "\<And>job. sc_heap s j = Some job \<Longrightarrow> rest = ring_list (wj_ring job)"
      and z: "sc_next s \<le> j \<Longrightarrow> along (stored j) as sched_init = [] \<and> along (written j) as sched_init = []"
      unfolding order_inv_def by blast
    show ?thesis
    proof (cases "sc_heap s' j")
      case None
      with m [of j] h z next_grows [OF st] show ?thesis by (simp add: al ring_moves_def)
    next
      case (Some job)
      with f' have lt: "\<not> sc_next s' \<le> j" by auto
      show ?thesis
      proof (cases "sc_heap s j")
        case None
        with m [of j] Some have e: "j = sc_next s" "ring_list (wj_ring job) = []"
          "stored j a s s' = []" "written j a s s' = []" unfolding ring_moves_def by auto
        with z have "along (stored j) as sched_init = []" "along (written j) as sched_init = []" by simp_all
        with Some e(2-) lt show ?thesis by (simp add: al)
      next
        case (Some job0)
        with m [of j] \<open>sc_heap s' j = Some job\<close> h lt show ?thesis
          by (simp add: al ring_moves_def)
      qed
    qed
  qed
  with rings_ok_step [OF m] show ?thesis by (simp add: order_inv_def)
qed

lemma mstate_from:
  "act a s = Some s' \<Longrightarrow> sc_mpc s' = MState c j True \<Longrightarrow> \<not> sc_undef s' \<Longrightarrow>
   a = RingDone \<and> sc_heap s' = sc_heap s \<and> (\<exists>job. sc_heap s j = Some job \<and> ring_is_empty (wj_ring job)) \<or>
   sc_mpc s = MState c j True \<and> a \<noteq> Batch"
  using work_frame [of s "sc_wpc s" s']
  by (cases a) (auto simp: step_defs submit_step_def Let_def
      split: wpc.splits mpc.splits option.splits if_splits prod.splits)

lemma drained_step:
  assumes d: "drained_inv s" and i: "sched_inv s" and r: "rings_ok s"
    and st: "act a s = Some s'" and u: "\<not> sc_undef s'"
  shows "drained_inv s'"
  unfolding drained_inv_def
proof (intro allI impI)
  fix c j job assume m: "sc_mpc s' = MState c j True" and j: "sc_heap s' j = Some job"
  from mstate_from [OF st m u] show "ring_list (wj_ring job) = []"
  proof (elim disjE conjE exE)
    fix job0 assume "sc_heap s' = sc_heap s" "sc_heap s j = Some job0" "ring_is_empty (wj_ring job0)"
    with j r ring_count_zero [of "wj_ring job"] show ?thesis by (auto simp: rings_ok_def ring_list_def)
  next
    assume m0: "sc_mpc s = MState c j True" and a: "a \<noteq> Batch"
    from sched_invD(3) [OF i] m0 conn_allocated [OF sched_invD(2) [OF i], of c j]
    obtain job0 where j0: "sc_heap s j = Some job0" and dn: "r_done (wj_ring job0)" by auto
    have "\<not> live (sc_heap s) j" using j0 dn by (auto simp: live_def)
    then have "sc_wpc s \<noteq> WRun j n" for n using sched_invD(4) [OF i] by (cases "sc_wpc s") auto
    then have "stored j a s s' = []" by (auto simp: stored_def split: action.splits wpc.splits)
    moreover have "written j a s s' = []" using quiet_steps(2) [OF a] .
    moreover have "ring_list (wj_ring job0) = []" using d m0 j0 by (simp add: drained_inv_def)
    ultimately show ?thesis using step_moves [OF i r st u, of j] j j0 by (simp add: ring_moves_def)
  qed
qed

lemma run_order:
  "run as sched_init = Some s \<Longrightarrow> \<not> sc_undef s \<Longrightarrow> order_inv as s \<and> drained_inv s"
proof (induction as arbitrary: s rule: rev_induct)
  case Nil
  then show ?case by (auto simp: order_inv_def rings_ok_def drained_inv_def sched_init_def)
next
  case (snoc a as)
  from run_last [OF snoc.prems(1)] obtain s1 where run: "run as sched_init = Some s1"
    and u: "\<not> sc_undef s1" and st: "act a s1 = Some s" by (auto elim: stepE)
  from snoc.IH [OF run u] have o: "order_inv as s1" and d: "drained_inv s1" by simp_all
  note i = reachable_inv [OF run_reachable [OF run reach_init] u]
  have "rings_ok s1" using o by (simp add: order_inv_def)
  from order_step [OF o i run u st snoc.prems(2)] drained_step [OF d i this st snoc.prems(2)]
  show ?case by simp
qed

text \<open>
  C7. A stream is sent in order: whatever the interleaving, the tokens written to the
  connection of a job are a prefix of those that the worker stored for it, with none twice,
  missing in between or exchanged. The rest is what the ring holds while the job is
  allocated, and is empty when the event loop closes the stream because it saw the done flag
  and an empty ring.
\<close>

theorem stream_in_order:
  assumes "run as sched_init = Some s" and "\<not> sc_undef s"
  shows "\<exists>rest. along (stored j) as sched_init = along (written j) as sched_init @ rest \<and>
    (\<forall>job. sc_heap s j = Some job \<longrightarrow> rest = ring_list (wj_ring job)) \<and>
    (\<forall>c. sc_mpc s = MState c j True \<longrightarrow> rest = [])"
proof -
  from run_order [OF assms] obtain rest where
    r: "along (stored j) as sched_init = along (written j) as sched_init @ rest"
      "\<forall>job. sc_heap s j = Some job \<longrightarrow> rest = ring_list (wj_ring job)"
    unfolding order_inv_def by blast
  have "rest = []" if m: "sc_mpc s = MState c j True" for c
  proof -
    note i = reachable_inv [OF run_reachable [OF assms(1) reach_init] assms(2)]
    from sched_invD(3) [OF i] m conn_allocated [OF sched_invD(2) [OF i], of c j]
    obtain job where "sc_heap s j = Some job" by auto
    with r(2) run_order [OF assms] m show ?thesis by (auto simp: drained_inv_def)
  qed
  with r show ?thesis by blast
qed

text \<open>Two tokens, a drain between them, and the end of the stream.\<close>

definition two_tokens :: "action list" where
  "two_tokens = [Check 0 True, Submit, Work, Work, Token ''a'', WakeUp 0, Batch, Token ''b'', RingDone,
     StateLoad, Token ''c'', WakeUp 0, Batch, Return True, Work, RingDone]"

lemma trace_two_tokens:
  "map_option (\<lambda>s. (sc_undef s, sc_mpc s)) (run two_tokens sched_init) = Some (False, MState 0 0 True)"
  "along (stored 0) two_tokens sched_init = [''a'', ''b'', ''c'']"
  by code_simp+

theorem stream_in_order_witness:
  "\<exists>s. run two_tokens sched_init = Some s \<and> sc_mpc s = MState 0 0 True \<and>
     along (written 0) two_tokens sched_init = [''a'', ''b'', ''c'']"
proof -
  obtain s where s: "run two_tokens sched_init = Some s" "\<not> sc_undef s" "sc_mpc s = MState 0 0 True"
    using trace_two_tokens(1) by auto
  from stream_in_order [OF s(1,2), of 0] s trace_two_tokens(2) show ?thesis by auto
qed

end
