(* ===== verification/Stats.thy ===== *)
theory Stats
  imports Cfloat
begin

text \<open>
  src/src/stats.h and src/src/stats.c: the runtime counters, the periodic report and the
  JSON document of \<open>/v1/stats\<close>. The 64-bit atomic counters are words (\<open>counter64\<close>), read as
  signed numbers; the clock is given as a \<open>timespec\<close> per reading.
\<close>

section \<open>State\<close>

record stats =
  st_req_chat :: counter64
  st_req_completion :: counter64
  st_req_stream :: counter64
  st_req_health :: counter64
  st_req_models :: counter64
  st_err_400 :: counter64
  st_err_401 :: counter64
  st_err_405 :: counter64
  st_err_503 :: counter64
  st_err_500 :: counter64
  st_inferences_total :: counter64
  st_tokens_prompt_total :: counter64
  st_tokens_completion_total :: counter64
  st_inference_ms_total :: counter64
  st_connections_total :: counter64
  st_connections_rejected :: counter64
  st_connections_active :: int
  st_generating :: bool
  st_start_time :: timespec
  st_last_report_time :: timespec
  st_report_interval :: int

definition stats_init :: "int \<Rightarrow> timespec \<Rightarrow> stats" where
  "stats_init interval now = \<lparr>st_req_chat = 0, st_req_completion = 0, st_req_stream = 0,
     st_req_health = 0, st_req_models = 0, st_err_400 = 0, st_err_401 = 0, st_err_405 = 0,
     st_err_503 = 0, st_err_500 = 0, st_inferences_total = 0, st_tokens_prompt_total = 0,
     st_tokens_completion_total = 0, st_inference_ms_total = 0, st_connections_total = 0,
     st_connections_rejected = 0, st_connections_active = 0, st_generating = False,
     st_start_time = now, st_last_report_time = now, st_report_interval = interval\<rparr>"

section \<open>Derived numbers\<close>

definition elapsed_since :: "timespec \<Rightarrow> timespec \<Rightarrow> fl" where
  "elapsed_since now ref =
     fl_add (dbl (fst now - fst ref)) (fl_div (dbl (snd now - snd ref)) (dbl 1000000000))"

definition avg_inf_ms :: "stats \<Rightarrow> fl" where
  "avg_inf_ms st = (if 0 < sint (st_inferences_total st)
     then fl_div (dbl (sint (st_inference_ms_total st))) (dbl (sint (st_inferences_total st))) else Fin 0)"

definition avg_tps :: "stats \<Rightarrow> fl" where
  "avg_tps st = (if 0 < sint (st_inference_ms_total st)
     then fl_div (dbl (sint (st_tokens_completion_total st)))
            (fl_div (dbl (sint (st_inference_ms_total st))) (dbl 1000)) else Fin 0)"

section \<open>Report and document\<close>

definition lld :: "counter64 \<Rightarrow> string" where
  "lld c = dec_int (sint c)"

text \<open>
  The line of \<open>stats_report\<close>. The sums of counters are signed and the conversions of the
  uptime to \<open>int\<close> partial, so the line is an option: \<open>None\<close> is undefined behaviour.
\<close>

definition sum64 :: "counter64 list \<Rightarrow> int option" where
  "sum64 cs = (let n = sum_list (map sint cs) in
     if - (2 ^ 63) \<le> n \<and> n < 2 ^ 63 then Some n else None)"

definition uptime_text :: "fl \<Rightarrow> string option" where
  "uptime_text up = (case (up, d2i32 (fl_div up (dbl 3600)), d2i32 up) of
     (Fin u, Some h, Some t) \<Rightarrow>
       map_option (\<lambda>m. dec_int h @ ''h'' @ zpad 2 m @ ''m'' @ zpad 2 (t mod 60) @ ''s'')
         (d2i32 (fl_div (f64 (u - of_int (h * 3600))) (dbl 60)))
   | _ \<Rightarrow> None)"

definition report_line :: "stats \<Rightarrow> timespec \<Rightarrow> string option" where
  "report_line st now = (case (uptime_text (elapsed_since now (st_start_time st)),
      sum64 [st_req_chat st, st_req_completion st, st_req_stream st],
      sum64 [st_err_400 st, st_err_401 st, st_err_405 st, st_err_503 st, st_err_500 st]) of
    (Some up, Some reqs, Some errs) \<Rightarrow> Some (
      ''[Planet Express status report] uptime='' @ up @
      '' conns='' @ lld (st_connections_total st) @ ''/'' @ dec_int (st_connections_active st) @
      ''/'' @ lld (st_connections_rejected st) @
      '' reqs='' @ dec_int reqs @ '' errs='' @ dec_int errs @
      '' inferences='' @ lld (st_inferences_total st) @
      '' tok_in='' @ lld (st_tokens_prompt_total st) @
      '' tok_out='' @ lld (st_tokens_completion_total st) @
      '' avg_ms='' @ fmt_fixed 0 (avg_inf_ms st) @ '' avg_tps='' @ fmt_fixed 1 (avg_tps st) @ '' '' @
      (if st_generating st then ''GENERATING'' else ''idle''))
  | _ \<Rightarrow> None)"

definition stats_report :: "stats \<Rightarrow> timespec \<Rightarrow> timespec \<Rightarrow> (string \<times> stats) option" where
  "stats_report st now later =
     map_option (\<lambda>l. (l, st\<lparr>st_last_report_time := later\<rparr>)) (report_line st now)"

text \<open>The line written, if any, and the counters afterwards.\<close>

definition stats_check_report ::
    "stats \<Rightarrow> timespec \<Rightarrow> timespec \<Rightarrow> timespec \<Rightarrow> (string option \<times> stats) option" where
  "stats_check_report st now now2 later =
     (if st_report_interval st \<le> 0 then Some (None, st)
      else if fl_le (dbl (st_report_interval st)) (elapsed_since now (st_last_report_time st))
      then map_option (\<lambda>(l, st'). (Some l, st')) (stats_report st now2 later)
      else Some (None, st))"

definition stats_text :: "stats \<Rightarrow> timespec \<Rightarrow> string" where
  \<open>stats_text st now =
     ''{"uptime_seconds":'' @ fmt_fixed 0 (elapsed_since now (st_start_time st)) @
     '',"connections":{"total":'' @ lld (st_connections_total st) @
     '',"active":'' @ dec_int (st_connections_active st) @
     '',"rejected":'' @ lld (st_connections_rejected st) @
     ''},"requests":{"chat":'' @ lld (st_req_chat st) @ '',"completion":'' @ lld (st_req_completion st) @
     '',"stream":'' @ lld (st_req_stream st) @ '',"health":'' @ lld (st_req_health st) @
     '',"models":'' @ lld (st_req_models st) @
     ''},"errors":{"bad_request":'' @ lld (st_err_400 st) @ '',"unauthorized":'' @ lld (st_err_401 st) @
     '',"method_not_allowed":'' @ lld (st_err_405 st) @ '',"server_busy":'' @ lld (st_err_503 st) @
     '',"backend_error":'' @ lld (st_err_500 st) @
     ''},"inference":{"total":'' @ lld (st_inferences_total st) @
     '',"tokens_prompt":'' @ lld (st_tokens_prompt_total st) @
     '',"tokens_completion":'' @ lld (st_tokens_completion_total st) @
     '',"avg_latency_ms":'' @ fmt_fixed 0 (avg_inf_ms st) @
     '',"avg_tokens_per_second":'' @ fmt_fixed 1 (avg_tps st) @
     '',"generating":'' @ (if st_generating st then ''true'' else ''false'') @ ''}}''\<close>

definition stats_to_json :: "bool \<Rightarrow> stats \<Rightarrow> timespec \<Rightarrow> string option" where
  "stats_to_json alloc st now = (if alloc then Some (snprintf_s 4096 (stats_text st now)) else None)"

section \<open>Facts\<close>

text \<open>
  The periodic report is written exactly when it is enabled and the interval has passed
  since the last one; writing it restarts the interval and changes no counter.
\<close>

theorem check_report_due:
  assumes "stats_check_report st now now2 later = Some (out, st')"
  shows "(out = None \<and> st' = st \<and> (st_report_interval st \<le> 0 \<or>
       \<not> fl_le (dbl (st_report_interval st)) (elapsed_since now (st_last_report_time st)))) \<or>
    (out = report_line st now2 \<and> out \<noteq> None \<and> st' = st\<lparr>st_last_report_time := later\<rparr> \<and>
       0 < st_report_interval st \<and>
       fl_le (dbl (st_report_interval st)) (elapsed_since now (st_last_report_time st)))"
proof (cases "st_report_interval st \<le> 0")
  case True
  then have "Some (None, st) = Some (out, st')"
    using assms unfolding stats_check_report_def by (simp only: if_True)
  with True show ?thesis by blast
next
  case pos: False
  show ?thesis
  proof (cases "fl_le (dbl (st_report_interval st)) (elapsed_since now (st_last_report_time st))")
    case True
    with pos have eq: "stats_check_report st now now2 later =
        map_option (\<lambda>(l, st'). (Some l, st')) (stats_report st now2 later)"
      unfolding stats_check_report_def by (simp only: if_True if_False)
    show ?thesis
    proof (cases "report_line st now2")
      case None
      then show ?thesis using assms unfolding eq stats_report_def by (simp only: option.map option.distinct)
    next
      case (Some l)
      then have "Some (Some l, st\<lparr>st_last_report_time := later\<rparr>) = Some (out, st')"
        using assms unfolding eq stats_report_def by (simp only: option.map prod.case)
      then have o: "out = Some l" "st' = st\<lparr>st_last_report_time := later\<rparr>" by blast+
      have "out = report_line st now2" "out \<noteq> None" by (simp_all only: o(1) Some option.distinct not_False_eq_True)
      moreover have "0 < st_report_interval st" using pos by (simp only: not_le)
      ultimately show ?thesis using o(2) True by blast
    qed
  next
    case False
    then have "Some (None, st) = Some (out, st')"
      using assms pos unfolding stats_check_report_def by (simp only: if_False)
    with False show ?thesis by blast
  qed
qed

theorem check_report_due_witness:
  "\<exists>out. stats_check_report (stats_init 0 (0, 0)) (90, 0) (90, 0) (91, 0) =
     Some (out, stats_init 0 (0, 0)) \<and> out = None"
proof -
  have run: "stats_check_report (stats_init 0 (0, 0)) (90, 0) (90, 0) (91, 0) =
      Some (None, stats_init 0 (0, 0))"
    by (simp add: stats_check_report_def) (simp add: stats_init_def)
  have off: "\<not> 0 < st_report_interval (stats_init 0 (0, 0))" by (simp add: stats_init_def)
  from check_report_due [OF run] off run show ?thesis by blast
qed

end
