(* ===== verification/Server.thy ===== *)
theory Server
  imports Worker Stats
begin

text \<open>
  src/src/server.h and src/src/server.c: authentication, the access list and the connection
  limit, routing, request submission, and the delivery of results. The HTTP library mongoose
  is a parameter (\<open>mg\<close>); what a handler sends is a list of outputs. A handler returns an
  option: \<open>None\<close> is undefined behaviour (a freed job read through \<open>current_job\<close>, or the
  out-of-range conversion in the request parser).
\<close>

abbreviation PROF_VERSION :: string where "PROF_VERSION \<equiv> ''0.1.0''"

section \<open>Types\<close>

text \<open>What an event handler sends: a complete response, bytes of an open response, an entry of
  the access log (method, path, status, prompt and completion tokens), and the two ways to
  close the connection.\<close>

datatype out = Reply int string string | Raw string | Access string string int int int int
  | Closing | Draining

record conn_data =
  cd_job :: nat
  cd_start_time_ms :: int
  cd_method :: string
  cd_path :: string
  cd_headers_sent :: bool

record server =
  sv_cfg :: config
  sv_worker :: worker
  sv_model_id :: string
  sv_stats :: stats
  sv_active :: int
  sv_heap :: heap
  sv_next :: nat
  sv_conns :: "nat \<Rightarrow> conn_data option"

record http_request =
  rq_method :: string
  rq_uri :: string
  rq_auth :: "string option"
  rq_body :: string

text \<open>
  The libraries and the environment of one event: mongoose's pattern match, string
  comparison and JSON escape, cJSON, memory, clocks and randomness.
\<close>

record 'j env =
  ev_match :: "string \<Rightarrow> string \<Rightarrow> bool"
  ev_strcmp :: "string \<Rightarrow> string \<Rightarrow> int"
  ev_esc :: "string \<Rightarrow> string"
  ev_json :: "'j cjson"
  ev_print :: "jv \<Rightarrow> string option"
  ev_root_ok :: bool
  ev_alloc :: bool
  ev_alloc_messages :: bool
  ev_time :: int
  ev_nsec :: int
  ev_clock :: timespec
  ev_urandom :: "8 word list option"
  ev_ts_bytes :: "8 word list"

text \<open>\<open>now_ms\<close> on a reading of the monotonic clock, the one that the statistics use too.\<close>

definition now_ms :: "timespec \<Rightarrow> int" where
  "now_ms ts = fst ts * 1000 + snd ts div 1000000"

definition json_headers :: string where
  "json_headers = ''Content-Type: application/json'' @ [CHR 0x0D, NL]"

section \<open>Replies\<close>

definition count_error :: "int \<Rightarrow> stats \<Rightarrow> stats" where
  "count_error status st =
     (if status = 400 then st\<lparr>st_err_400 := st_err_400 st + 1\<rparr>
      else if status = 401 then st\<lparr>st_err_401 := st_err_401 st + 1\<rparr>
      else if status = 405 then st\<lparr>st_err_405 := st_err_405 st + 1\<rparr>
      else if status = 503 then st\<lparr>st_err_503 := st_err_503 st + 1\<rparr>
      else st\<lparr>st_err_500 := st_err_500 st + 1\<rparr>)"

definition with_stats :: "(stats \<Rightarrow> stats) \<Rightarrow> server \<Rightarrow> server" where
  "with_stats f sv = sv\<lparr>sv_stats := f (sv_stats sv)\<rparr>"

definition send_error :: "'j env \<Rightarrow> server \<Rightarrow> int \<Rightarrow> string \<Rightarrow> string \<Rightarrow> out list \<times> server" where
  "send_error ev sv status message type =
     ([case to_json (ev_print ev) (ev_root_ok ev) (error_json status message type) of
         Some json \<Rightarrow> Reply status json_headers json
       | None \<Rightarrow> Reply 500 [] ''Internal error''],
      with_stats (count_error status) sv)"

text \<open>A JSON response, or the error sent when it could not be printed.\<close>

definition send_json :: "'j env \<Rightarrow> server \<Rightarrow> string option \<Rightarrow> out list \<times> server" where
  "send_json ev sv json = (case json of
     Some text \<Rightarrow> ([Reply 200 json_headers text], sv)
   | None \<Rightarrow> send_error ev sv 500 ''Internal error'' ''backend_error'')"

section \<open>Authentication\<close>

text \<open>
  The comparison of \<open>check_auth\<close>: the accumulated difference of the bytes, and how many
  iterations the two loops made together.
\<close>

fun cmp_loop :: "string \<Rightarrow> string \<Rightarrow> int \<times> nat \<Rightarrow> int \<times> nat" where
  "cmp_loop (a # as) (e # es) (diff, n) =
     cmp_loop as es (or diff (xor (of_char a) (of_char e)), n + 1)"
| "cmp_loop [] (e # es) (diff, n) = cmp_loop [] es (or diff (of_char e), n + 1)"
| "cmp_loop as [] dn = dn"

definition expected_auth :: "config \<Rightarrow> string" where
  "expected_auth cfg = snprintf_s (PROF_KEY_MAX + 8) (''Bearer '' @ cf_api_key cfg)"

definition auth_compare :: "string \<Rightarrow> string \<Rightarrow> int \<times> nat" where
  "auth_compare auth expected =
     cmp_loop auth expected (if length auth \<noteq> length expected then 1 else 0, 0)"

definition check_auth :: "config \<Rightarrow> string option \<Rightarrow> int" where
  "check_auth cfg auth =
     (if cf_api_key cfg = [] then 0
      else (case auth of
          None \<Rightarrow> - 1
        | Some a \<Rightarrow> if fst (auth_compare a (expected_auth cfg)) \<noteq> 0 then - 1 else 0))"

section \<open>Small handlers\<close>

definition handle_health :: "server \<Rightarrow> out list \<times> server" where
  \<open>handle_health sv = ([Reply 200 json_headers
      (''{"status":"ok","version":"'' @ PROF_VERSION @ ''"}'')],
      with_stats (\<lambda>st. st\<lparr>st_req_health := st_req_health st + 1\<rparr>) sv)\<close>

definition farnsworth_quotes :: "string list" where
  "farnsworth_quotes = [
     ''Good news, everyone! I've taught the toaster to feel love.'',
     ''I don't want to live on this planet anymore.'',
     ''Sweet zombie Jesus!'',
     ''There's no scientific consensus that life is important.'',
     ''To shreds, you say?'',
     ''I suppose I could part with one and still be feared.'',
     ''If a dog craps anywhere in the universe, you can bet I won't be out of the loop.'',
     ''Quiet, you!'',
     ''Now I've often said 'good news' when sending you on a mission of extreme danger.'',
     ''Good news, everyone! I'm still technically alive!'',
     ''Bad news, nobody.'',
     ''My God, they're back! We're doomed!'',
     ''Wernstrom!'',
     ''So that's what things would be like if I'd invented the Fing-Longer. '' @
       ''A man can dream though. A man can dream...'',
     ''Good news, everyone! Several years ago I tried to log on to AOL, '' @
       ''and it just went through! We're online!'',
     ''Our crew is replaceable, your package isn't.'',
     ''Fuff!'',
     ''Eh wha?'',
     ''Oh my, yes.'',
     ''Planet Express is on the move. For this hip, young delivery company, '' @
       ''tomorrow is today and today is yesterday.'']"

text \<open>The escaping loop, which stops at \<open>pos >= sizeof(escaped) - 2\<close>.\<close>

fun escape_quote :: "string \<Rightarrow> string \<Rightarrow> string" where
  "escape_quote [] acc = acc"
| "escape_quote (c # cs) acc =
     (if 1022 \<le> length acc then acc
      else escape_quote cs (acc @ (if c = CHR 0x22 \<or> c = CHR 0x5C then [CHR 0x5C] else []) @ [c]))"

definition handle_whatif :: "int \<Rightarrow> out list" where
  \<open>handle_whatif nsec =
     (let quote = farnsworth_quotes ! nat ((nsec div 1000) mod 20) in
      [Reply 200 json_headers (snprintf_s 1280
        (''{"what_if":"'' @ escape_quote quote [] @ ''","source":"Professor Farnsworth"}''))])\<close>

definition handle_stats :: "'j env \<Rightarrow> server \<Rightarrow> out list \<times> server" where
  "handle_stats ev sv = send_json ev sv (stats_to_json (ev_alloc ev) (sv_stats sv) (ev_clock ev))"

definition handle_models :: "'j env \<Rightarrow> server \<Rightarrow> out list \<times> server" where
  "handle_models ev sv =
     (let sv1 = with_stats (\<lambda>st. st\<lparr>st_req_models := st_req_models st + 1\<rparr>) sv in
      send_json ev sv1 (to_json (ev_print ev) (ev_root_ok ev) (models_list_json (sv_model_id sv))))"

section \<open>Submitting a request\<close>

definition copy_stop :: "string list \<Rightarrow> string list" where
  "copy_stop ss = map (snprintf_s PROF_STOP_LEN) ss"

text \<open>The job after the body was parsed; \<open>None\<close> when \<open>parse_rc\<close> is -1.\<close>

definition parse_job :: "'j env \<Rightarrow> config \<Rightarrow> job_type \<Rightarrow> string \<Rightarrow> worker_job \<Rightarrow> worker_job parse_result" where
  "parse_job ev cfg type body job =
     (if type = JobChat
      then (case chat_request_parse (ev_json ev) (ev_alloc_messages ev) body of
          ParseUndef \<Rightarrow> ParseUndef
        | ParseFail \<Rightarrow> ParseFail
        | ParseOk r \<Rightarrow> ParseOk (job\<lparr>wj_chat_req := r, wj_stream := cr_stream r,
             wj_params := inference_resolve_params cfg r, wj_stop := copy_stop (cr_stop r)\<rparr>))
      else (case completion_request_parse (ev_json ev) body of
          ParseUndef \<Rightarrow> ParseUndef
        | ParseFail \<Rightarrow> ParseFail
        | ParseOk r \<Rightarrow> ParseOk (job\<lparr>wj_comp_req := r, wj_stream := pr_stream r,
             wj_params := inference_resolve_params_completion cfg r, wj_stop := copy_stop (pr_stop r)\<rparr>)))"

definition count_request :: "job_type \<Rightarrow> stats \<Rightarrow> stats" where
  "count_request type st =
     (if type = JobChat then st\<lparr>st_req_chat := st_req_chat st + 1\<rparr>
      else st\<lparr>st_req_completion := st_req_completion st + 1\<rparr>)"

definition sse_headers :: string where
  "sse_headers = ''HTTP/1.1 200 OK'' @ [CHR 0x0D, NL] @ ''Content-Type: text/event-stream'' @ [CHR 0x0D, NL] @
     ''Cache-Control: no-cache'' @ [CHR 0x0D, NL] @ ''Connection: keep-alive'' @ [CHR 0x0D, NL, CHR 0x0D, NL]"

definition submit_inference_job ::
    "'j env \<Rightarrow> server \<Rightarrow> nat \<Rightarrow> job_type \<Rightarrow> string \<Rightarrow> (out list \<times> server) option" where
  "submit_inference_job ev sv c type body =
     (case worker_is_busy (sv_heap sv) (sv_worker sv) of
        None \<Rightarrow> None
      | Some True \<Rightarrow> Some (send_error ev sv 503 ''Server busy, try again'' ''server_busy'')
      | Some False \<Rightarrow>
          if \<not> ev_alloc ev then Some (send_error ev sv 500 ''Internal error'' ''backend_error'')
          else let sv1 = with_stats (count_request type) sv;
                   job0 = worker_job_init\<lparr>wj_type := type, wj_mgr := True, wj_wakeup_id := c\<rparr> in
            (case parse_job ev (sv_cfg sv) type body job0 of
               ParseUndef \<Rightarrow> None
             | ParseFail \<Rightarrow> Some (send_error ev sv1 400 ''Invalid request body'' ''invalid_json'')
             | ParseOk job1 \<Rightarrow>
                 let job = job1\<lparr>wj_request_id := generate_request_id PROF_ID_MAX
                         (if type = JobChat then ''chatcmpl'' else ''cmpl'') (ev_urandom ev) (ev_ts_bytes ev),
                       wj_model_id := snprintf_s PROF_MODEL_MAX (sv_model_id sv)\<rparr>;
                     j = sv_next sv in
                 (case worker_submit ((sv_heap sv)(j := Some job)) (sv_worker sv) j of
                    None \<Rightarrow> None
                  | Some (rc, h, w) \<Rightarrow>
                      if rc \<noteq> 0
                      then Some (send_error ev (sv1\<lparr>sv_next := j + 1\<rparr>) 503 ''Server busy, try again'' ''server_busy'')
                      else let cd = \<lparr>cd_job = j, cd_start_time_ms = now_ms (ev_clock ev), cd_method = ''POST'',
                               cd_path = (if type = JobChat then ''/v1/chat/completions'' else ''/v1/completions''),
                               cd_headers_sent = wj_stream job\<rparr> in
                        Some (if wj_stream job then [Raw sse_headers] else [],
                          sv1\<lparr>sv_next := j + 1, sv_heap := h, sv_worker := w,
                              sv_conns := (sv_conns sv)(c := Some cd)\<rparr>))))"

section \<open>Delivering results\<close>

definition count_inference :: "worker_job \<Rightarrow> int \<Rightarrow> stats \<Rightarrow> stats" where
  "count_inference job latency st = st\<lparr>
     st_inferences_total := st_inferences_total st + 1,
     st_tokens_prompt_total := st_tokens_prompt_total st + word_of_int (wj_prompt_tokens job),
     st_tokens_completion_total := st_tokens_completion_total st + word_of_int (wj_completion_tokens job),
     st_inference_ms_total := st_inference_ms_total st + word_of_int latency\<rparr>"

definition job_usage :: "worker_job \<Rightarrow> usage" where
  "job_usage job = \<lparr>us_prompt_tokens = wj_prompt_tokens job,
     us_completion_tokens = wj_completion_tokens job,
     us_total_tokens = to_i32 (wj_prompt_tokens job + wj_completion_tokens job)\<rparr>"

definition job_text :: "worker_job \<Rightarrow> string" where
  "job_text job = (case wj_response_buf job of
     Some buf \<Rightarrow> if 0 < wj_response_len job then snprintf_s PROF_CONTENT_MAX buf else []
   | None \<Rightarrow> [])"

definition chat_response_of :: "'j env \<Rightarrow> worker_job \<Rightarrow> chat_response" where
  "chat_response_of ev job = \<lparr>rs_id = snprintf_s PROF_ID_MAX (wj_request_id job),
     rs_model = snprintf_s PROF_MODEL_MAX (wj_model_id job), rs_created = ev_time ev,
     rs_content = job_text job, rs_finish_reason = snprintf_s 32 (wj_finish_reason job),
     rs_usage = job_usage job\<rparr>"

definition completion_response_of :: "'j env \<Rightarrow> worker_job \<Rightarrow> completion_response" where
  "completion_response_of ev job = \<lparr>ps_id = snprintf_s PROF_ID_MAX (wj_request_id job),
     ps_model = snprintf_s PROF_MODEL_MAX (wj_model_id job), ps_created = ev_time ev,
     ps_text = job_text job, ps_finish_reason = snprintf_s 32 (wj_finish_reason job),
     ps_usage = job_usage job\<rparr>"

text \<open>The response to a finished job that did not stream.\<close>

definition final_response :: "'j env \<Rightarrow> server \<Rightarrow> worker_job \<Rightarrow> out list \<times> server" where
  "final_response ev sv job =
     (if wj_state job = JobError \<and> wj_finish_reason job = ''context_overflow''
      then send_error ev sv 400 ''Prompt too long for context window'' ''invalid_request''
      else if wj_state job = JobError
      then send_error ev sv 500 ''Inference failed'' ''backend_error''
      else send_json ev sv (to_json (ev_print ev) (ev_root_ok ev)
        (if wj_type job = JobChat then chat_response_json (chat_response_of ev job)
         else completion_response_json (completion_response_of ev job))))"

text \<open>\<open>worker_job_free\<close>, the two calls of \<open>free\<close>, and \<open>c->fn_data = NULL\<close>.\<close>

definition forget_job :: "nat \<Rightarrow> nat \<Rightarrow> server \<Rightarrow> server" where
  "forget_job c j sv = sv\<lparr>sv_heap := (sv_heap sv)(j := None), sv_conns := (sv_conns sv)(c := None)\<rparr>"

text \<open>One event of the stream, written without the JSON library.\<close>

definition sse_chunk :: "'j env \<Rightarrow> worker_job \<Rightarrow> string \<Rightarrow> string" where
  \<open>sse_chunk ev job tok =
     ''data: {"id":"'' @ wj_request_id job @ ''","object":"'' @
     (if wj_type job = JobChat then ''chat.completion.chunk'' else ''text_completion.chunk'') @
     ''","created":'' @ dec_int (ev_time ev) @ '',"model":"'' @ wj_model_id job @
     ''","choices":[{"index":0,'' @
     (if wj_type job = JobChat then ''"delta":{"content":"'' @ ev_esc ev tok @ ''"},''
      else ''"text":"'' @ ev_esc ev tok @ ''",'') @
     ''"finish_reason":null}]}'' @ [NL, NL]\<close>

definition final_chunk :: "'j env \<Rightarrow> worker_job \<Rightarrow> out list" where
  "final_chunk ev job =
     (case to_json (ev_print ev) (ev_root_ok ev) (stream_chunk_json
         \<lparr>ch_id = snprintf_s PROF_ID_MAX (wj_request_id job),
          ch_model = snprintf_s PROF_MODEL_MAX (wj_model_id job), ch_created = ev_time ev,
          ch_delta_content = [], ch_finish_reason = snprintf_s 32 (wj_finish_reason job),
          ch_is_chat = (wj_type job = JobChat)\<rparr>) of
        Some json \<Rightarrow> [Raw (''data: '' @ json @ [NL, NL])]
      | None \<Rightarrow> []) @ [Raw (''data: [DONE]'' @ [NL, NL])]"

definition request_latency :: "'j env \<Rightarrow> conn_data \<Rightarrow> int" where
  "request_latency ev cd = now_ms (ev_clock ev) - cd_start_time_ms cd"

definition drain_stream_ring :: "'j env \<Rightarrow> server \<Rightarrow> nat \<Rightarrow> (out list \<times> server) option" where
  "drain_stream_ring ev sv c = (case sv_conns sv c of
     None \<Rightarrow> Some ([], sv)
   | Some cd \<Rightarrow> (case sv_heap sv (cd_job cd) of
       None \<Rightarrow> None
     | Some job \<Rightarrow>
       if \<not> wj_stream job
       then (if wj_state job = JobDone \<or> wj_state job = JobError
             then let (outs, sv1) = final_response ev sv job in
               Some (outs @ [Access (cd_method cd) (cd_path cd) (if wj_state job = JobDone then 200 else 500)
                        (request_latency ev cd) (wj_prompt_tokens job) (wj_completion_tokens job)],
                     forget_job c (cd_job cd) (with_stats (count_inference job (request_latency ev cd)) sv1))
             else Some ([], sv))
       else (case drain_ring (wj_ring job) of
           None \<Rightarrow> None
         | Some (toks, r) \<Rightarrow>
             let chunks = map (\<lambda>t. Raw (sse_chunk ev job t)) toks; job1 = job\<lparr>wj_ring := r\<rparr> in
             if r_done r \<and> ring_is_empty r \<or> wj_state job = JobDone \<or> wj_state job = JobError
             then Some (chunks @ final_chunk ev job1 @
                    [Access (cd_method cd) (cd_path cd) 200 (request_latency ev cd) (wj_prompt_tokens job)
                       (wj_completion_tokens job),
                     Draining],
                    forget_job c (cd_job cd) (with_stats (\<lambda>st. let st1 = count_inference job (request_latency ev cd) st
                      in st1\<lparr>st_req_stream := st_req_stream st1 + 1\<rparr>) sv))
             else Some (chunks, sv\<lparr>sv_heap := (sv_heap sv)(cd_job cd := Some job1)\<rparr>))))"

section \<open>Connections\<close>

definition norm_ip :: "string \<Rightarrow> string" where
  "norm_ip ip = (if strncmp_eq 7 ip ''::ffff:'' then drop 7 ip else ip)"

definition acl_allows :: "string list \<Rightarrow> string \<Rightarrow> bool" where
  "acl_allows acl ip = list_ex (\<lambda>a. norm_ip ip = norm_ip a) acl"

definition handle_accept :: "server \<Rightarrow> string \<Rightarrow> out list \<times> server" where
  "handle_accept sv ip =
     (if 0 < length (cf_acl (sv_cfg sv)) \<and> \<not> acl_allows (cf_acl (sv_cfg sv)) ip
      then ([Closing], with_stats (\<lambda>st. st\<lparr>st_connections_rejected := st_connections_rejected st + 1\<rparr>) sv)
      else let active = sv_active sv + 1;
               sv1 = with_stats (\<lambda>st. st\<lparr>st_connections_total := st_connections_total st + 1,
                       st_connections_active := active\<rparr>) (sv\<lparr>sv_active := active\<rparr>) in
        if PROF_MAX_CONNECTIONS < active
        then ([Closing], with_stats (\<lambda>st. st\<lparr>st_connections_rejected := st_connections_rejected st + 1\<rparr>) sv1)
        else ([], sv1))"

definition handle_close :: "server \<Rightarrow> nat \<Rightarrow> (out list \<times> server) option" where
  "handle_close sv c =
     (let active = (if 0 < sv_active sv then sv_active sv - 1 else sv_active sv);
          sv1 = with_stats (\<lambda>st. st\<lparr>st_connections_active := active\<rparr>) (sv\<lparr>sv_active := active\<rparr>)
      in case sv_conns sv c of
           None \<Rightarrow> Some ([], sv1)
         | Some cd \<Rightarrow> (case sv_heap sv (cd_job cd) of
               None \<Rightarrow> None
             | Some job \<Rightarrow> Some ([], sv1\<lparr>
                 sv_heap := (sv_heap sv)(cd_job cd := Some (job\<lparr>wj_cancel := True, wj_mgr := False, wj_orphaned := True\<rparr>)),
                 sv_conns := (sv_conns sv)(c := None)\<rparr>)))"

section \<open>Routing\<close>

datatype event = EvHttp http_request | EvWakeup | EvAccept string | EvClose | EvOther

definition method_is :: "'j env \<Rightarrow> http_request \<Rightarrow> string \<Rightarrow> bool" where
  "method_is ev rq m \<longleftrightarrow> ev_strcmp ev (rq_method rq) m = 0"

definition handle_http :: "'j env \<Rightarrow> server \<Rightarrow> nat \<Rightarrow> http_request \<Rightarrow> (out list \<times> server) option" where
  "handle_http ev sv c rq =
     (let is_health = (ev_match ev (rq_uri rq) ''/health'' \<or> ev_match ev (rq_uri rq) ''/v1/health'');
          is_whatif = ev_match ev (rq_uri rq) ''/whatif'';
          not_allowed = send_error ev sv 405 ''Method Not Allowed'' ''method_not_allowed''
      in
      if PROF_MAX_BODY_BYTES < length (rq_body rq)
      then Some (send_error ev sv 400 ''Request body too large'' ''invalid_request'')
      else if \<not> is_health \<and> \<not> is_whatif \<and> check_auth (sv_cfg sv) (rq_auth rq) \<noteq> 0
      then Some (send_error ev sv 401 ''Invalid or missing API key'' ''unauthorized'')
      else if is_whatif then Some (handle_whatif (ev_nsec ev), sv)
      else if is_health then Some (handle_health sv)
      else if ev_match ev (rq_uri rq) ''/v1/stats'' then Some (handle_stats ev sv)
      else if ev_match ev (rq_uri rq) ''/v1/models''
      then if \<not> method_is ev rq ''GET'' then Some not_allowed else Some (handle_models ev sv)
      else if ev_match ev (rq_uri rq) ''/v1/chat/completions''
      then if \<not> method_is ev rq ''POST'' then Some not_allowed
           else submit_inference_job ev sv c JobChat (rq_body rq)
      else if ev_match ev (rq_uri rq) ''/v1/completions''
      then if \<not> method_is ev rq ''POST'' then Some not_allowed
           else submit_inference_job ev sv c JobCompletion (rq_body rq)
      else Some (send_error ev sv 404 ''Not Found'' ''not_found''))"

fun ev_handler :: "'j env \<Rightarrow> server \<Rightarrow> nat \<Rightarrow> event \<Rightarrow> (out list \<times> server) option" where
  "ev_handler ev sv c (EvHttp rq) = handle_http ev sv c rq"
| "ev_handler ev sv c EvWakeup = drain_stream_ring ev sv c"
| "ev_handler ev sv c (EvAccept ip) = Some (handle_accept sv ip)"
| "ev_handler ev sv c EvClose = handle_close sv c"
| "ev_handler ev sv c EvOther = Some ([], sv)"

text \<open>\<open>server_init\<close> fails when the listener cannot be created; the URL is cut to 127 bytes.\<close>

definition server_init :: "(string \<Rightarrow> bool) \<Rightarrow> config \<Rightarrow> bool" where
  "server_init listen_ok cfg = listen_ok (snprintf_s 128 (''http://'' @ cf_listen_addr cfg))"

text \<open>
  \<open>server_destroy\<close>: \<open>mg_mgr_free\<close> closes every connection, which delivers \<open>MG_EV_CLOSE\<close> to it.
\<close>

fun server_destroy :: "server \<Rightarrow> nat list \<Rightarrow> server option" where
  "server_destroy sv [] = Some sv"
| "server_destroy sv (c # cs) = Option.bind (handle_close sv c) (\<lambda>(outs, sv'). server_destroy sv' cs)"

text \<open>The message of \<open>log_access\<close>, which is written at the level of information.\<close>

definition log_access :: "string \<Rightarrow> string \<Rightarrow> string \<Rightarrow> int \<Rightarrow> int \<Rightarrow> int \<Rightarrow> int \<Rightarrow> string" where
  "log_access ip method path status latency_ms prompt_tok comp_tok =
     ''[access] '' @ ip @ '' '' @ method @ '' '' @ path @ '' '' @ dec_int status @ '' '' @ dec_int latency_ms @ ''ms'' @
     (if 0 \<le> prompt_tok then '' prompt='' @ dec_int prompt_tok @ '' comp='' @ dec_int comp_tok else [])"

text \<open>One iteration of \<open>server_run\<close> after the poll: the generating flag and the report.\<close>

definition server_tick :: "server \<Rightarrow> timespec \<Rightarrow> timespec \<Rightarrow> timespec \<Rightarrow> (string option \<times> server) option" where
  "server_tick sv now now2 later = (case worker_is_busy (sv_heap sv) (sv_worker sv) of
     None \<Rightarrow> None
   | Some busy \<Rightarrow> map_option (\<lambda>(line, st). (line, sv\<lparr>sv_stats := st\<rparr>))
       (stats_check_report ((sv_stats sv)\<lparr>st_generating := busy\<rparr>) now now2 later))"

section \<open>Authentication compares exactly, in constant time\<close>

lemma xor_zero_iff: "xor a b = (0 :: int) \<longleftrightarrow> a = b"
proof
  assume "xor a b = 0"
  then have "xor (xor a b) b = b" by simp
  then show "a = b" by (simp add: xor.assoc)
qed simp

lemma cmp_loop_zero:
  "length as = length es \<Longrightarrow> fst (cmp_loop as es (d, n)) = 0 \<longleftrightarrow> d = 0 \<and> as = es"
  by (induction as es arbitrary: d n rule: list_induct2) (auto simp: or_eq_0_iff xor_zero_iff)

lemma cmp_loop_nonzero: "d \<noteq> 0 \<Longrightarrow> fst (cmp_loop as es (d, n)) \<noteq> 0"
  by (induction as es "(d, n)" arbitrary: d n rule: cmp_loop.induct) (auto simp: or_eq_0_iff)

lemma cmp_loop_steps: "snd (cmp_loop as es (d, n)) = n + length es"
  by (induction as es "(d, n)" arbitrary: d n rule: cmp_loop.induct) auto

lemma auth_compare_zero: "fst (auth_compare a e) = 0 \<longleftrightarrow> a = e"
  using cmp_loop_nonzero [of 1 a e 0]
  by (cases "length a = length e") (auto simp: auth_compare_def cmp_loop_zero)

text \<open>
  C10. With a key configured, a request passes \<open>check_auth\<close> exactly when its Authorization
  header is "Bearer " followed by the key, byte for byte; without a key every request
  passes. The comparison makes the same number of iterations whatever the client sends.
\<close>

theorem check_auth_exact:
  assumes "is_cstr (cf_api_key cfg)" and "length (cf_api_key cfg) < PROF_KEY_MAX"
  shows "(check_auth cfg auth = 0 \<longleftrightarrow> cf_api_key cfg = [] \<or> auth = Some (''Bearer '' @ cf_api_key cfg)) \<and>
    snd (auth_compare a (expected_auth cfg)) = length (cf_api_key cfg) + 7"
proof -
  have "is_cstr (''Bearer '' @ cf_api_key cfg)" using assms(1) by (simp add: is_cstr_def NUL_def)
  then have "expected_auth cfg = ''Bearer '' @ cf_api_key cfg"
    using assms(2) by (simp add: expected_auth_def snprintf_s_def cstr_id)
  then show ?thesis
    by (auto simp: check_auth_def auth_compare_zero cmp_loop_steps auth_compare_def [of a] split: option.split)
qed

theorem check_auth_exact_witness:
  "check_auth (config_defaults\<lparr>cf_api_key := ''sesame''\<rparr>) (Some ''Bearer sesama'') \<noteq> 0"
proof -
  have "is_cstr (cf_api_key (config_defaults\<lparr>cf_api_key := ''sesame''\<rparr>))"
    "length (cf_api_key (config_defaults\<lparr>cf_api_key := ''sesame''\<rparr>)) < PROF_KEY_MAX"
    by (simp_all add: is_cstr_def NUL_def)
  from check_auth_exact [OF this, of "Some ''Bearer sesama''"] show ?thesis by simp
qed


section \<open>The connection limit\<close>

text \<open>
  A history of connections: identifiers are never reused while open, every accepted or
  refused connection is closed once. The list records what is open, with a flag for the
  connections that were not told to close at once.
\<close>

datatype conn_event = Open nat string | Shut nat

fun conn_step :: "conn_event \<Rightarrow> server \<times> (nat \<times> bool) list \<Rightarrow> (server \<times> (nat \<times> bool) list) option" where
  "conn_step (Open c ip) (sv, op) =
     (if c \<in> fst ` set op then None
      else let (outs, sv') = handle_accept sv ip in Some (sv', (c, outs = []) # op))"
| "conn_step (Shut c) (sv, op) =
     (if c \<notin> fst ` set op then None
      else map_option (\<lambda>(outs, sv'). (sv', filter (\<lambda>p. fst p \<noteq> c) op)) (handle_close sv c))"

fun conn_run :: "conn_event list \<Rightarrow> server \<times> (nat \<times> bool) list \<Rightarrow> (server \<times> (nat \<times> bool) list) option" where
  "conn_run [] x = Some x"
| "conn_run (e # es) x = Option.bind (conn_step e x) (conn_run es)"

definition admitted :: "(nat \<times> bool) list \<Rightarrow> nat" where
  "admitted op = length (filter snd op)"

lemma admitted_Cons: "admitted ((c, b) # op) = (if b then Suc (admitted op) else admitted op)"
  by (simp add: admitted_def)

lemma admitted_le: "admitted op \<le> length op"
  by (simp add: admitted_def)

lemma admitted_filter: "admitted (filter P op) \<le> admitted op"
  by (induction op) (auto simp: admitted_def)

lemma conn_run_append: "conn_run (es @ fs) x = Option.bind (conn_run es x) (conn_run fs)"
  by (induction es arbitrary: x) (auto split: Option.bind_splits)

lemma sv_with_stats [simp]:
  "sv_cfg (with_stats f sv) = sv_cfg sv" "sv_active (with_stats f sv) = sv_active sv"
  "sv_conns (with_stats f sv) = sv_conns sv" "sv_heap (with_stats f sv) = sv_heap sv"
  "sv_worker (with_stats f sv) = sv_worker sv" "sv_next (with_stats f sv) = sv_next sv"
  "sv_model_id (with_stats f sv) = sv_model_id sv" "sv_stats (with_stats f sv) = f (sv_stats sv)"
  by (simp_all add: with_stats_def)

lemma handle_close_fields:
  "handle_close sv c = Some (outs, sv') \<Longrightarrow>
   sv_cfg sv' = sv_cfg sv \<and> sv_active sv' = (if 0 < sv_active sv then sv_active sv - 1 else sv_active sv)"
  by (auto simp: handle_close_def Let_def split: option.splits)

lemma handle_accept_open:
  "cf_acl (sv_cfg sv) = [] \<Longrightarrow>
   handle_accept sv ip = (outs, sv') \<Longrightarrow>
   sv_cfg sv' = sv_cfg sv \<and> sv_active sv' = sv_active sv + 1 \<and> (outs = [] \<longleftrightarrow> sv_active sv < 32)"
  by (auto simp: handle_accept_def Let_def split: if_splits)

definition limit_inv :: "server \<times> (nat \<times> bool) list \<Rightarrow> bool" where
  "limit_inv x \<longleftrightarrow> (case x of (sv, op) \<Rightarrow> cf_acl (sv_cfg sv) = [] \<and> distinct (map fst op) \<and>
     sv_active sv = int (length op) \<and> admitted op \<le> 32)"

lemma length_filter_fst:
  "distinct (map fst op) \<Longrightarrow> c \<in> fst ` set op \<Longrightarrow> length op = Suc (length (filter (\<lambda>p. fst p \<noteq> c) op))"
proof (induction op)
  case (Cons a op)
  then show ?case
  proof (cases "fst a = c")
    case True
    with Cons.prems(1) have "filter (\<lambda>p. fst p \<noteq> c) op = op"
      by (auto simp: filter_id_conv image_iff)
    with True show ?thesis by simp
  qed auto
qed simp

lemma limit_inv_step:
  assumes i: "limit_inv x" and st: "conn_step e x = Some y"
  shows "limit_inv y"
proof -
  obtain sv op where x: "x = (sv, op)" by (cases x)
  show ?thesis
  proof (cases e)
    case (Open c ip)
    obtain outs sv' where a: "handle_accept sv ip = (outs, sv')" by fastforce
    with i st a Open handle_accept_open [of sv ip outs sv'] admitted_le [of op] show ?thesis
      by (auto simp: x limit_inv_def admitted_Cons split: if_splits)
  next
    case (Shut c)
    with st x obtain outs sv' where h: "handle_close sv c = Some (outs, sv')" and c: "c \<in> fst ` set op"
      and y: "y = (sv', filter (\<lambda>p. fst p \<noteq> c) op)" by (auto split: if_splits)
    note f = admitted_filter [of "\<lambda>p. fst p \<noteq> c" op]
    with i f handle_close_fields [OF h] length_filter_fst [OF _ c] show ?thesis
      by (auto simp: x y limit_inv_def distinct_map_filter)
  qed
qed

text \<open>
  C21. Without an access list the connection limit holds: along every history of accepted
  and closed connections \<open>active_connections\<close> is the number of open connections, and never
  more than 32 of them are served.
\<close>

theorem connection_limit_holds:
  assumes "cf_acl (sv_cfg sv) = []" and "sv_active sv = 0"
    and "conn_run es (sv, []) = Some (sv', op)"
  shows "sv_active sv' = int (length op) \<and> admitted op \<le> 32"
proof -
  have run: "conn_run es x = Some y \<Longrightarrow> limit_inv x \<Longrightarrow> limit_inv y" for x y
    by (induction es arbitrary: x) (auto simp: option_bind_Some_iff dest: limit_inv_step)
  have "limit_inv (sv, [])" using assms(1,2) by (simp add: limit_inv_def admitted_def)
  from run [OF assms(3) this] show ?thesis by (simp add: limit_inv_def)
qed

definition sample_server :: "config \<Rightarrow> server" where
  "sample_server cfg = \<lparr>sv_cfg = cfg, sv_worker = \<lparr>wk_current = None, wk_running = True\<rparr>,
     sv_model_id = ''local-model'', sv_stats = stats_init 60 (0, 0), sv_active = 0,
     sv_heap = (\<lambda>j. None), sv_next = 0, sv_conns = (\<lambda>c. None)\<rparr>"

theorem connection_limit_holds_witness:
  "\<exists>sv' op. conn_run [Open 1 ''10.0.0.1'', Open 2 ''10.0.0.2'', Shut 1] (sample_server config_defaults, []) =
     Some (sv', op) \<and> sv_active sv' = 1 \<and> length op = 1"
proof -
  have "\<exists>sv' op. conn_run [Open 1 ''10.0.0.1'', Open 2 ''10.0.0.2'', Shut 1]
      (sample_server config_defaults, []) = Some (sv', op) \<and> length op = 1"
    by (simp add: handle_accept_def handle_close_def Let_def sample_server_def with_stats_def config_defaults_def)
  then obtain sv' op where run: "conn_run [Open 1 ''10.0.0.1'', Open 2 ''10.0.0.2'', Shut 1]
      (sample_server config_defaults, []) = Some (sv', op)" "length op = 1" by blast
  have "cf_acl (sv_cfg (sample_server config_defaults)) = []" "sv_active (sample_server config_defaults) = 0"
    by (simp_all add: sample_server_def config_defaults_def)
  from connection_limit_holds [OF this run(1)] run show ?thesis by auto
qed

subsection \<open>With an access list the counter drifts\<close>

lemma refused_pair:
  assumes "cf_acl (sv_cfg sv) \<noteq> []" and "\<not> acl_allows (cf_acl (sv_cfg sv)) bad"
    and "sv_conns sv c = None" and "c \<notin> fst ` set op"
  shows "\<exists>sv'. conn_run [Open c bad, Shut c] (sv, op) = Some (sv', op) \<and> sv_cfg sv' = sv_cfg sv \<and>
     sv_conns sv' = sv_conns sv \<and> sv_active sv' = (if 0 < sv_active sv then sv_active sv - 1 else sv_active sv)"
proof -
  have "filter (\<lambda>p. fst p \<noteq> c) op = op" using assms(4) by (auto simp: filter_id_conv image_iff)
  with assms show ?thesis by (simp add: handle_accept_def handle_close_def Let_def)
qed

lemma allowed_open:
  assumes "acl_allows (cf_acl (sv_cfg sv)) good" and "sv_active sv < 32" and "c \<notin> fst ` set op"
  shows "\<exists>sv'. conn_run [Open c good] (sv, op) = Some (sv', (c, True) # op) \<and> sv_cfg sv' = sv_cfg sv \<and>
     sv_conns sv' = sv_conns sv \<and> sv_active sv' = sv_active sv + 1"
  using assms by (simp add: handle_accept_def Let_def)

text \<open>
  C22. With an access list the limit is void: a refused connection is not counted when it is
  accepted but is subtracted when it closes, so that alternating refused and allowed clients
  get any number of connections served at once.
\<close>

theorem refused_connections_defeat_limit:
  assumes "cf_acl (sv_cfg sv) \<noteq> []" and "\<not> acl_allows (cf_acl (sv_cfg sv)) bad"
    and "acl_allows (cf_acl (sv_cfg sv)) good" and "sv_active sv = 0" and "\<forall>c. sv_conns sv c = None"
  shows "\<exists>es sv' op. conn_run es (sv, []) = Some (sv', op) \<and> admitted op = n \<and> sv_active sv' \<le> 1"
proof -
  have "\<exists>es sv' op. conn_run es (sv, []) = Some (sv', op) \<and> admitted op = n \<and> 0 \<le> sv_active sv' \<and>
     sv_active sv' \<le> 1 \<and> sv_cfg sv' = sv_cfg sv \<and> sv_conns sv' = sv_conns sv"
  proof (induction n)
    case 0
    show ?case by (rule exI [of _ "[]"]) (simp add: admitted_def assms(4))
  next
    case (Suc n)
    then obtain es sv1 op where es: "conn_run es (sv, []) = Some (sv1, op)" "admitted op = n"
      "0 \<le> sv_active sv1" "sv_active sv1 \<le> 1" "sv_cfg sv1 = sv_cfg sv" "sv_conns sv1 = sv_conns sv" by blast
    obtain c where c: "c \<notin> fst ` set op"
      using ex_new_if_finite [of "fst ` set op"] infinite_UNIV_nat by blast
    have "cf_acl (sv_cfg sv1) \<noteq> []" "\<not> acl_allows (cf_acl (sv_cfg sv1)) bad" "sv_conns sv1 c = None"
      using es(5,6) assms by simp_all
    from refused_pair [OF this c] obtain sv2 where r: "conn_run [Open c bad, Shut c] (sv1, op) = Some (sv2, op)"
      "sv_cfg sv2 = sv_cfg sv" "sv_conns sv2 = sv_conns sv" "sv_active sv2 = 0"
      using es by auto
    have "acl_allows (cf_acl (sv_cfg sv2)) good" "sv_active sv2 < 32" using r assms by simp_all
    from allowed_open [OF this c] obtain sv3 where o: "conn_run [Open c good] (sv2, op) = Some (sv3, (c, True) # op)"
      "sv_cfg sv3 = sv_cfg sv" "sv_conns sv3 = sv_conns sv" "sv_active sv3 = 1"
      using r by auto
    have final: "conn_run (es @ [Open c bad, Shut c] @ [Open c good]) (sv, []) = Some (sv3, (c, True) # op)"
      by (simp only: conn_run_append es(1) r(1) o(1) Option.bind.bind_lunit)
    have "admitted ((c, True) # op) = Suc n \<and> 0 \<le> sv_active sv3 \<and> sv_active sv3 \<le> 1 \<and>
        sv_cfg sv3 = sv_cfg sv \<and> sv_conns sv3 = sv_conns sv"
      using o(2-4) es(2) by (simp add: admitted_Cons)
    with final show ?case by blast
  qed
  then show ?thesis by blast
qed

theorem refused_connections_defeat_limit_witness:
  "\<exists>es sv' op. conn_run es (sample_server (config_defaults\<lparr>cf_acl := [''10.0.0.1'']\<rparr>), []) = Some (sv', op) \<and>
     admitted op = 64 \<and> sv_active sv' \<le> 1"
  by (rule refused_connections_defeat_limit [where bad = "''10.0.0.2''" and good = "''::ffff:10.0.0.1''"])
     (simp_all add: sample_server_def acl_allows_def norm_ip_def strncmp_eq_def cstr_def NUL_def)

section \<open>A request becomes a job, or nothing\<close>

lemma stops_ok_copy_stop: "stops_ok ss \<Longrightarrow> copy_stop ss = ss"
  by (auto simp: stops_ok_def copy_stop_def map_idI snprintf_s_id)

text \<open>What every accepted job satisfies.\<close>

definition fresh_job_ok :: "config \<Rightarrow> job_type \<Rightarrow> nat \<Rightarrow> worker_job \<Rightarrow> bool" where
  "fresh_job_ok cfg type c job \<longleftrightarrow> wj_type job = type \<and> wj_state job = JobIdle \<and> \<not> wj_cancel job \<and>
     \<not> wj_orphaned job \<and> wj_mgr job \<and> wj_wakeup_id job = c \<and> wj_ring job = ring_init \<and>
     wj_response_buf job = None \<and> params_in_range cfg (wj_params job) \<and>
     wj_stop job = sp_stop (wj_params job) \<and>
     (type = JobChat \<longrightarrow> chat_request_ok (wj_chat_req job)) \<and>
     (type = JobCompletion \<longrightarrow> completion_request_ok (wj_comp_req job))"

lemma parse_job_ok:
  assumes cfg: "config_validate cfg = None" and J: "cjson_strings_ok (ev_json ev)"
    and p: "parse_job ev cfg type body
      (worker_job_init\<lparr>wj_type := type, wj_mgr := True, wj_wakeup_id := c\<rparr>) = ParseOk job"
  shows "fresh_job_ok cfg type c job"
proof (cases type)
  case JobChat
  with p obtain r where r: "chat_request_parse (ev_json ev) (ev_alloc_messages ev) body = ParseOk r"
    and job: "job = worker_job_init\<lparr>wj_type := JobChat, wj_mgr := True, wj_wakeup_id := c, wj_chat_req := r,
       wj_stream := cr_stream r, wj_params := inference_resolve_params cfg r, wj_stop := copy_stop (cr_stop r)\<rparr>"
    by (auto simp: parse_job_def split: parse_result.splits)
  note ok = parsed_chat_ok [OF J r]
  then have st: "stops_ok (cr_stop r)" by (simp add: chat_request_ok_def)
  from resolved_chat_params [OF cfg ok] JobChat ok stops_ok_copy_stop [OF st] show ?thesis
    by (simp add: fresh_job_ok_def job worker_job_init_def)
next
  case JobCompletion
  with p obtain r where r: "completion_request_parse (ev_json ev) body = ParseOk r"
    and job: "job = worker_job_init\<lparr>wj_type := JobCompletion, wj_mgr := True, wj_wakeup_id := c, wj_comp_req := r,
       wj_stream := pr_stream r, wj_params := inference_resolve_params_completion cfg r,
       wj_stop := copy_stop (pr_stop r)\<rparr>"
    by (auto simp: parse_job_def split: parse_result.splits)
  note ok = parsed_completion_ok [OF J r]
  then have st: "stops_ok (pr_stop r)" by (simp add: completion_request_ok_def)
  from resolved_completion_params [OF cfg ok] JobCompletion ok stops_ok_copy_stop [OF st] show ?thesis
    by (simp add: fresh_job_ok_def job worker_job_init_def)
qed

text \<open>A refusal: one error response, and nothing changes but counters.\<close>

definition refused_reply :: "server \<Rightarrow> out list \<Rightarrow> server \<Rightarrow> bool" where
  "refused_reply sv outs sv' \<longleftrightarrow>
     (\<exists>status hdr body. outs = [Reply status hdr body] \<and> status \<in> {400, 401, 404, 405, 500, 503}) \<and>
     sv_worker sv' = sv_worker sv \<and> sv_heap sv' = sv_heap sv \<and> sv_conns sv' = sv_conns sv \<and>
     sv_active sv' = sv_active sv"

lemma refused_send_error:
  "send_error ev sv1 status msg type = (outs, sv') \<Longrightarrow> status \<in> {400, 401, 404, 405, 500, 503} \<Longrightarrow>
   sv_worker sv1 = sv_worker sv \<Longrightarrow> sv_heap sv1 = sv_heap sv \<Longrightarrow> sv_conns sv1 = sv_conns sv \<Longrightarrow>
   sv_active sv1 = sv_active sv \<Longrightarrow> refused_reply sv outs sv'"
  by (auto simp: send_error_def refused_reply_def split: option.splits)

definition accepted_reply :: "server \<Rightarrow> nat \<Rightarrow> job_type \<Rightarrow> out list \<Rightarrow> server \<Rightarrow> bool" where
  "accepted_reply sv c type outs sv' \<longleftrightarrow> (\<exists>job cd. sv_heap sv' = (sv_heap sv)(sv_next sv := Some job) \<and>
     sv_worker sv' = (sv_worker sv)\<lparr>wk_current := Some (sv_next sv)\<rparr> \<and>
     sv_conns sv' = (sv_conns sv)(c := Some cd) \<and> cd_job cd = sv_next sv \<and>
     fresh_job_ok (sv_cfg sv) type c job \<and> outs = (if wj_stream job then [Raw sse_headers] else []))"

lemma accepted_replyI:
  "sv_heap sv' = (sv_heap sv)(sv_next sv := Some job) \<Longrightarrow>
   sv_worker sv' = (sv_worker sv)\<lparr>wk_current := Some (sv_next sv)\<rparr> \<Longrightarrow>
   sv_conns sv' = (sv_conns sv)(c := Some cd) \<Longrightarrow> cd_job cd = sv_next sv \<Longrightarrow>
   fresh_job_ok (sv_cfg sv) type c job \<Longrightarrow> outs = (if wj_stream job then [Raw sse_headers] else []) \<Longrightarrow>
   accepted_reply sv c type outs sv'"
  unfolding accepted_reply_def by blast

lemma submit_worker_cases:
  assumes "h j = Some job" and "worker_submit h w j = Some (rc, h', w')"
  shows "rc = - 1 \<and> h' = h \<and> w' = w \<or>
    rc = 0 \<and> h' = h(j := Some (job\<lparr>wj_state := JobIdle, wj_cancel := False\<rparr>)) \<and> w' = w\<lparr>wk_current := Some j\<rparr>"
  using assms by (auto simp: worker_submit_def set_current_def split: option.splits if_splits)

lemma fresh_job_submitted:
  "fresh_job_ok cfg type c job \<Longrightarrow> job\<lparr>wj_state := JobIdle, wj_cancel := False\<rparr> = job"
  by (cases job) (simp add: fresh_job_ok_def)

lemma fresh_job_named:
  "fresh_job_ok cfg type c (job\<lparr>wj_request_id := i, wj_model_id := m\<rparr>) = fresh_job_ok cfg type c job"
  by (simp add: fresh_job_ok_def)

lemma submit_outcome:
  assumes cfg: "config_validate (sv_cfg sv) = None" and J: "cjson_strings_ok (ev_json ev)"
    and st: "submit_inference_job ev sv c type body = Some (outs, sv')"
  shows "refused_reply sv outs sv' \<or> accepted_reply sv c type outs sv'"
proof -
  from st obtain busy where b: "worker_is_busy (sv_heap sv) (sv_worker sv) = Some busy"
    by (auto simp: submit_inference_job_def split: option.splits)
  consider "busy" | "\<not> busy" "\<not> ev_alloc ev" | "\<not> busy" "ev_alloc ev" by blast
  then show ?thesis
  proof cases
    case 3
    let ?job0 = "worker_job_init\<lparr>wj_type := type, wj_mgr := True, wj_wakeup_id := c\<rparr>"
    let ?sv1 = "with_stats (count_request type) sv"
    show ?thesis
    proof (cases "parse_job ev (sv_cfg sv) type body ?job0")
      case ParseUndef
      with st b 3 show ?thesis by (simp add: submit_inference_job_def Let_def)
    next
      case ParseFail
      with st b 3 have "send_error ev ?sv1 400 ''Invalid request body'' ''invalid_json'' = (outs, sv')"
        by (simp add: submit_inference_job_def Let_def)
      then show ?thesis by (intro disjI1, rule refused_send_error) simp_all
    next
      case (ParseOk job1)
      define job where "job = job1\<lparr>wj_request_id := generate_request_id PROF_ID_MAX
          (if type = JobChat then ''chatcmpl'' else ''cmpl'') (ev_urandom ev) (ev_ts_bytes ev),
        wj_model_id := snprintf_s PROF_MODEL_MAX (sv_model_id sv)\<rparr>"
      note ok = parse_job_ok [OF cfg J ParseOk]
      then have okj: "fresh_job_ok (sv_cfg sv) type c job" by (simp add: job_def fresh_job_named)
      let ?h = "(sv_heap sv)(sv_next sv := Some job)"
      from st b 3 ParseOk obtain rc h w where
        w: "worker_submit ?h (sv_worker sv) (sv_next sv) = Some (rc, h, w)"
        by (auto simp: submit_inference_job_def Let_def job_def [symmetric] split: option.splits)
      have h: "?h (sv_next sv) = Some job" by simp
      have bad: "rc \<noteq> 0 \<Longrightarrow> send_error ev (?sv1\<lparr>sv_next := sv_next sv + 1\<rparr>) 503
          ''Server busy, try again'' ''server_busy'' = (outs, sv')"
        using st b 3 ParseOk w by (simp add: submit_inference_job_def Let_def job_def [symmetric])
      have good: "rc = 0 \<Longrightarrow> outs = (if wj_stream job then [Raw sse_headers] else []) \<and>
          sv' = ?sv1\<lparr>sv_next := sv_next sv + 1, sv_heap := h, sv_worker := w,
              sv_conns := (sv_conns sv)(c := Some \<lparr>cd_job = sv_next sv, cd_start_time_ms = now_ms (ev_clock ev), cd_method = ''POST'',
                 cd_path = (if type = JobChat then ''/v1/chat/completions'' else ''/v1/completions''),
                 cd_headers_sent = wj_stream job\<rparr>)\<rparr>"
        using st b 3 ParseOk w
        by (auto simp: submit_inference_job_def Let_def job_def [symmetric] split del: if_split)
      from submit_worker_cases [OF h w] show ?thesis
      proof
        assume "rc = - 1 \<and> h = ?h \<and> w = sv_worker sv"
        with bad have "send_error ev (?sv1\<lparr>sv_next := sv_next sv + 1\<rparr>) 503
          ''Server busy, try again'' ''server_busy'' = (outs, sv')" by simp
        then show ?thesis by (intro disjI1, rule refused_send_error) simp_all
      next
        assume "rc = 0 \<and> h = ?h(sv_next sv := Some (job\<lparr>wj_state := JobIdle, wj_cancel := False\<rparr>)) \<and>
          w = (sv_worker sv)\<lparr>wk_current := Some (sv_next sv)\<rparr>"
        then have rc: "rc = 0" and h: "h = ?h" and w: "w = (sv_worker sv)\<lparr>wk_current := Some (sv_next sv)\<rparr>"
          by (simp_all add: fresh_job_submitted [OF okj])
        note g = good [OF rc]
        show ?thesis
          by (intro disjI2, rule accepted_replyI [where job = job and cd = "\<lparr>cd_job = sv_next sv, cd_start_time_ms = now_ms (ev_clock ev), cd_method = ''POST'',
                 cd_path = (if type = JobChat then ''/v1/chat/completions'' else ''/v1/completions''),
                 cd_headers_sent = wj_stream job\<rparr>"])
             (use g okj in \<open>simp_all add: h w\<close>)
      qed
    qed
  qed (use st b in \<open>auto simp: submit_inference_job_def intro: refused_send_error\<close>)
qed


section \<open>Results\<close>

lemma is_cstr_Nil: "is_cstr []"
  by (simp add: is_cstr_def)

lemma is_cstr_delivered: "is_cstr (delivered L (\<lambda>t. t) toks)"
  by (induction toks) (simp_all add: is_cstr_Nil)

lemma sent_is_cstr: "sent L (\<lambda>t. t) n m [] buf \<Longrightarrow> is_cstr buf"
  by (auto simp: sent_def is_cstr_delivered)

lemma job_text_whole:
  "buffer_ok job \<Longrightarrow> wj_response_buf job = Some buf \<Longrightarrow> job_text job = buf"
  by (auto simp: buffer_ok_def job_text_def snprintf_s_id)

lemma finished_response:
  assumes "sv_conns sv c = Some cd" and "sv_heap sv (cd_job cd) = Some job" and "\<not> wj_stream job"
    and "wj_state job \<in> {JobDone, JobError}" and "\<And>v. ev_print ev v \<noteq> None" and "ev_root_ok ev"
  shows "\<exists>body outs sv'. drain_stream_ring ev sv c = Some (Reply
      (if wj_state job = JobDone then 200 else if wj_finish_reason job = ''context_overflow'' then 400 else 500)
      json_headers body # outs, sv') \<and>
    (wj_state job = JobDone \<longrightarrow> Some body = ev_print ev (if wj_type job = JobChat
       then chat_response_json (chat_response_of ev job)
       else completion_response_json (completion_response_of ev job))) \<and>
    sv_heap sv' (cd_job cd) = None \<and> sv_conns sv' c = None \<and>
    st_inferences_total (sv_stats sv') = st_inferences_total (sv_stats sv) + 1"
proof -
  obtain t1 where t1: "ev_print ev (chat_response_json (chat_response_of ev job)) = Some t1"
    using assms(5) by blast
  obtain t2 where t2: "ev_print ev (completion_response_json (completion_response_of ev job)) = Some t2"
    using assms(5) by blast
  have err: "\<exists>body. send_error ev sv st msg ty = ([Reply st json_headers body], with_stats (count_error st) sv)"
    for st msg ty
    using assms(5) [of "error_json st msg ty"] assms(6) by (auto simp: send_error_def to_json_def)
  have cnt: "st_inferences_total (count_error st x) = st_inferences_total x" for st x
    by (simp add: count_error_def)
  show ?thesis
  proof (cases "wj_state job = JobDone")
    case True
    with assms t1 t2 show ?thesis
      by (simp add: drain_stream_ring_def final_response_def send_json_def to_json_def forget_job_def
          count_inference_def)
  next
    case False
    then have e: "wj_state job = JobError" using assms(4) by simp
    obtain b1 where b1: "send_error ev sv 400 ''Prompt too long for context window'' ''invalid_request'' =
      ([Reply 400 json_headers b1], with_stats (count_error 400) sv)" using err by blast
    obtain b2 where b2: "send_error ev sv 500 ''Inference failed'' ''backend_error'' =
      ([Reply 500 json_headers b2], with_stats (count_error 500) sv)" using err by blast
    from e assms b1 b2 show ?thesis
      by (simp add: drain_stream_ring_def final_response_def forget_job_def count_inference_def cnt)
  qed
qed


section \<open>Counting errors\<close>

definition known_paths :: "string list" where
  "known_paths = [''/health'', ''/v1/health'', ''/whatif'', ''/v1/stats'', ''/v1/models'',
     ''/v1/chat/completions'', ''/v1/completions'']"

text \<open>
  An unknown path is answered with 404 but counted as a server error: the statistics
  report it as \<open>backend_error\<close>.
\<close>

theorem not_found_counts_as_500:
  assumes "\<forall>p \<in> set known_paths. \<not> ev_match ev (rq_uri rq) p"
    and "check_auth (sv_cfg sv) (rq_auth rq) = 0" and "length (rq_body rq) \<le> PROF_MAX_BODY_BYTES"
    and "\<And>v. ev_print ev v \<noteq> None" and "ev_root_ok ev"
  shows "\<exists>body. ev_handler ev sv c (EvHttp rq) = Some ([Reply 404 json_headers body],
    sv\<lparr>sv_stats := (sv_stats sv)\<lparr>st_err_500 := st_err_500 (sv_stats sv) + 1\<rparr>\<rparr>)"
proof -
  obtain t where "ev_print ev (error_json 404 ''Not Found'' ''not_found'') = Some t"
    using assms(4) by blast
  with assms show ?thesis
    by (simp add: handle_http_def known_paths_def send_error_def with_stats_def count_error_def to_json_def)
qed

section \<open>A sample environment\<close>

definition sample_ev :: "doc env" where
  "sample_ev = \<lparr>ev_match = (\<lambda>u p. u = p), ev_strcmp = (\<lambda>a b. if a = b then 0 else 1),
     ev_esc = (\<lambda>t. t), ev_json = doc_json (\<lambda>_. Some hello_doc), ev_print = (\<lambda>v. Some ''{}''),
     ev_root_ok = True, ev_alloc = True, ev_alloc_messages = True, ev_time = 0, ev_nsec = 0,
     ev_clock = (1, 0), ev_urandom = None, ev_ts_bytes = replicate 16 0\<rparr>"

definition sample_cfg :: config where
  "sample_cfg = config_defaults\<lparr>cf_model_path := ''m.gguf'', cf_api_key := ''sesame''\<rparr>"

lemma sample_cfg_valid: "config_validate sample_cfg = None"
  by (simp add: sample_cfg_def config_validate_def config_defaults_def)

definition sample_rq :: "string \<Rightarrow> string option \<Rightarrow> http_request" where
  "sample_rq uri auth = \<lparr>rq_method = ''POST'', rq_uri = uri, rq_auth = auth, rq_body = ''{}''\<rparr>"


theorem not_found_counts_as_500_witness:
  "\<exists>outs sv'. ev_handler sample_ev (sample_server config_defaults) 1 (EvHttp (sample_rq ''/nothing'' None)) =
     Some (outs, sv') \<and> st_err_500 (sv_stats sv') = 1"
proof -
  have "\<forall>p \<in> set known_paths. \<not> ev_match sample_ev (rq_uri (sample_rq ''/nothing'' None)) p"
    "check_auth (sv_cfg (sample_server config_defaults)) (rq_auth (sample_rq ''/nothing'' None)) = 0"
    "length (rq_body (sample_rq ''/nothing'' None)) \<le> PROF_MAX_BODY_BYTES"
    "\<And>v. ev_print sample_ev v \<noteq> None" "ev_root_ok sample_ev"
    by (simp_all add: known_paths_def check_auth_def sample_server_def config_defaults_def sample_rq_def sample_ev_def)
  from not_found_counts_as_500 [OF this, of 1] show ?thesis
    by (auto simp: sample_server_def stats_init_def)
qed



section \<open>The What-If page\<close>

lemma escape_quote_whole:
  "length acc + 2 * length q \<le> 1022 \<Longrightarrow> escape_quote q acc =
     acc @ concat (map (\<lambda>c. (if c = CHR 0x22 \<or> c = CHR 0x5C then [CHR 0x5C] else []) @ [c]) q)"
  by (induction q arbitrary: acc) auto

lemma length_escaped:
  "length (concat (map (\<lambda>c. (if c = CHR 0x22 \<or> c = CHR 0x5C then [CHR 0x5C] else []) @ [c]) q)) \<le> 2 * length q"
  by (induction q) auto

lemma quotes_short: "list_all (\<lambda>q. length q \<le> 150) farnsworth_quotes \<and> length farnsworth_quotes = 20"
  by (simp add: farnsworth_quotes_def)

end
