(* ===== verification/Daemon.thy ===== *)
theory Daemon
  imports Clib
begin

text \<open>
  src/src/daemon.h and src/src/daemon.c: signal dispositions, the detachment from the
  terminal, and the PID file. The calls to the operating system are modelled on explicit
  state: dispositions of signals, a table of open descriptors, and a file system whose
  entries are regular files or symbolic links.
\<close>

section \<open>Signals\<close>

datatype signo = SIGTERM | SIGINT | SIGPIPE | SIGOTHER

datatype disposition = SigDefault | SigIgnore | SigHandler

record signals =
  sg_disp :: "signo \<Rightarrow> disposition"
  sg_shutdown_requested :: bool

definition signal_handler :: "signals \<Rightarrow> signals" where
  "signal_handler sg = sg\<lparr>sg_shutdown_requested := True\<rparr>"

definition daemon_install_signals :: "signals \<Rightarrow> signals" where
  "daemon_install_signals sg =
     sg\<lparr>sg_disp := (sg_disp sg)(SIGTERM := SigHandler, SIGINT := SigHandler, SIGPIPE := SigIgnore)\<rparr>"

text \<open>Delivery of a signal: \<open>None\<close> when the default action ends the process.\<close>

definition deliver :: "signals \<Rightarrow> signo \<Rightarrow> signals option" where
  "deliver sg s = (case sg_disp sg s of
     SigHandler \<Rightarrow> Some (signal_handler sg) | SigIgnore \<Rightarrow> Some sg | SigDefault \<Rightarrow> None)"

fun deliver_all :: "signals \<Rightarrow> signo list \<Rightarrow> signals option" where
  "deliver_all sg [] = Some sg"
| "deliver_all sg (s # ss) = Option.bind (deliver sg s) (\<lambda>sg'. deliver_all sg' ss)"

lemma deliver_disp: "deliver sg s = Some sg' \<Longrightarrow> sg_disp sg' = sg_disp sg"
  by (auto simp: deliver_def signal_handler_def split: disposition.splits)

lemma signals_request_shutdown:
  assumes "set ss \<subseteq> {SIGTERM, SIGINT, SIGPIPE}" and "sg_disp sg SIGTERM = SigHandler"
    and "sg_disp sg SIGINT = SigHandler" and "sg_disp sg SIGPIPE = SigIgnore"
  shows "\<exists>sg'. deliver_all sg ss = Some sg' \<and>
    sg_shutdown_requested sg' = (sg_shutdown_requested sg \<or> SIGTERM \<in> set ss \<or> SIGINT \<in> set ss)"
  using assms
proof (induction ss arbitrary: sg)
  case (Cons s ss)
  then obtain sg1 where d: "deliver sg s = Some sg1"
    and f: "sg_shutdown_requested sg1 = (sg_shutdown_requested sg \<or> s = SIGTERM \<or> s = SIGINT)"
    by (cases s) (auto simp: deliver_def signal_handler_def)
  have "set ss \<subseteq> {SIGTERM, SIGINT, SIGPIPE}" using Cons.prems(1) by simp
  from Cons.IH [OF this, of sg1] Cons.prems(2-4) d f deliver_disp [OF d] show ?case by auto
qed simp

section \<open>Detaching from the terminal\<close>

text \<open>The outcomes of the system calls, and the open descriptors as names of files.\<close>

record detach_env =
  de_fork1 :: bool
  de_setsid :: bool
  de_fork2 :: bool
  de_devnull :: bool

type_synonym fds = "nat \<Rightarrow> string option"

definition first_free :: "fds \<Rightarrow> nat option" where
  "first_free t = List.find (\<lambda>n. t n = None) [0..<1024]"

definition dup2 :: "nat \<Rightarrow> nat \<Rightarrow> fds \<Rightarrow> fds" where
  "dup2 a b t = t(b := t a)"

text \<open>The redirection to \<open>/dev/null\<close>; \<open>None\<close> when it cannot be opened.\<close>

definition redirect_null :: "bool \<Rightarrow> fds \<Rightarrow> fds option" where
  "redirect_null open_ok t = (if \<not> open_ok then None else case first_free t of
     None \<Rightarrow> None
   | Some d \<Rightarrow>
       let t1 = t(d \<mapsto> ''/dev/null''); t2 = dup2 d 2 (dup2 d 1 (dup2 d 0 t1))
       in Some (if 2 < d then t2(d := None) else t2))"

text \<open>
  \<open>daemon_daemonize\<close>: the exit codes of the processes that leave through \<open>_exit\<close>, and the
  return value and descriptors of the process that goes on.
\<close>

definition daemon_daemonize :: "detach_env \<Rightarrow> fds \<Rightarrow> int list \<times> int \<times> fds" where
  "daemon_daemonize de t =
     (if \<not> de_fork1 de then ([], - 1, t)
      else if \<not> de_setsid de then ([0], - 1, t)
      else if \<not> de_fork2 de then ([0], - 1, t)
      else (case redirect_null (de_devnull de) t of
          None \<Rightarrow> ([0, 0], - 1, t)
        | Some t' \<Rightarrow> ([0, 0], 0, t')))"

lemma first_free_Some: "first_free t = Some d \<Longrightarrow> t d = None"
  by (auto simp: first_free_def find_Some_iff)

text \<open>A successful detachment leaves the three standard descriptors on \<open>/dev/null\<close>, keeps
  every other one as it was, and leaks none.\<close>

lemma daemonize_redirects:
  assumes "daemon_daemonize de t = (exits, 0, t')"
  shows "exits = [0, 0] \<and> (\<forall>n. t' n = (if n < 3 then Some ''/dev/null'' else t n))"
proof -
  from assms obtain d u where d: "first_free t = Some d"
    and u: "u = dup2 d 2 (dup2 d 1 (dup2 d 0 (t(d \<mapsto> ''/dev/null''))))"
    and t': "t' = (if 2 < d then u(d := None) else u)" and e: "exits = [0, 0]"
    by (auto simp: daemon_daemonize_def redirect_null_def Let_def split: if_splits option.splits)
  have free: "t d = None" by (rule first_free_Some [OF d])
  have "u n = (if n < 3 \<or> n = d then Some ''/dev/null'' else t n)" for n
    unfolding u by (auto simp: dup2_def numeral_3_eq_3 less_Suc_eq numeral_2_eq_2)
  with free have "t' n = (if n < 3 then Some ''/dev/null'' else t n)" for n
    unfolding t' by (cases "2 < d") auto
  with e show ?thesis by blast
qed

section \<open>The PID file\<close>

datatype node = File string | Symlink

record os =
  os_node :: "string \<Rightarrow> node option"
  os_writable :: "string \<Rightarrow> bool"
  os_readable :: "string \<Rightarrow> bool"
  os_alive :: "int \<Rightarrow> bool"

text \<open>
  \<open>open\<close> with \<open>O_CREAT | O_EXCL\<close>, \<open>open\<close> with \<open>O_RDONLY | O_NOFOLLOW\<close> together with the
  \<open>read\<close> after it, \<open>unlink\<close>, and \<open>kill(pid, 0)\<close>, which is 0 for the processes of \<open>os_alive\<close>.
  \<open>os_writable\<close> says whether an entry of that name can be made or removed.
\<close>

definition open_excl :: "os \<Rightarrow> string \<Rightarrow> os option" where
  "open_excl s path = (if os_node s path = None \<and> os_writable s path
     then Some (s\<lparr>os_node := (os_node s)(path \<mapsto> File [])\<rparr>) else None)"

definition open_read :: "os \<Rightarrow> string \<Rightarrow> string option" where
  "open_read s path = (case os_node s path of
     Some (File bytes) \<Rightarrow> if os_readable s path then Some bytes else None | _ \<Rightarrow> None)"

definition unlink :: "os \<Rightarrow> string \<Rightarrow> os" where
  "unlink s path = (if os_writable s path then s\<lparr>os_node := (os_node s)(path := None)\<rparr> else s)"

definition write_pid :: "os \<Rightarrow> string \<Rightarrow> int \<Rightarrow> bool \<Rightarrow> int \<times> os" where
  "write_pid s path pid write_ok =
     (if write_ok then (0, s\<lparr>os_node := (os_node s)(path \<mapsto> File (dec_int pid @ [NL]))\<rparr>)
      else (- 1, unlink s path))"

definition pid_running :: "os \<Rightarrow> string \<Rightarrow> bool" where
  "pid_running s bytes = (let pidbuf = take 31 bytes in
     0 < length pidbuf \<and> 0 < strtol (cstr pidbuf) \<and> os_alive s (to_i32 (strtol (cstr pidbuf))))"

definition daemon_write_pidfile :: "os \<Rightarrow> int \<Rightarrow> bool \<Rightarrow> string option \<Rightarrow> int \<times> os" where
  "daemon_write_pidfile s pid write_ok path0 = (case path0 of
     None \<Rightarrow> (0, s)
   | Some path \<Rightarrow>
       if path = [] then (0, s)
       else (case open_excl s path of
           Some s1 \<Rightarrow> write_pid s1 path pid write_ok
         | None \<Rightarrow> (case open_read s path of
               None \<Rightarrow> (- 1, s)
             | Some bytes \<Rightarrow>
                 if pid_running s bytes then (- 1, s)
                 else let s1 = unlink s path in
                   (case open_excl s1 path of
                      None \<Rightarrow> (- 1, s1)
                    | Some s2 \<Rightarrow> write_pid s2 path pid write_ok))))"

definition daemon_remove_pidfile :: "os \<Rightarrow> string option \<Rightarrow> os" where
  "daemon_remove_pidfile s path0 = (case path0 of
     None \<Rightarrow> s | Some path \<Rightarrow> if path \<noteq> [] then unlink s path else s)"

lemma open_excl_Some [step_simps]: "open_excl s path = Some s1 \<longleftrightarrow>
   os_node s path = None \<and> os_writable s path \<and> s1 = s\<lparr>os_node := (os_node s)(path \<mapsto> File [])\<rparr>"
  by (auto simp: open_excl_def)

lemma unlink_simps [simp]: "os_writable (unlink s path) = os_writable s" "os_alive (unlink s path) = os_alive s"
  "os_readable (unlink s path) = os_readable s"
  "os_node (unlink s path) q = (if q = path \<and> os_writable s path then None else os_node s q)"
  by (simp_all add: unlink_def)

lemma write_pid_ok: "write_pid s path pid ok = (0, s') \<Longrightarrow> os_node s' path = Some (File (dec_int pid @ [NL]))"
  by (auto simp: write_pid_def split: if_splits)

lemma write_pidfile_ok:
  "daemon_write_pidfile s pid ok (Some path) = (0, s') \<Longrightarrow> path \<noteq> [] \<Longrightarrow>
   os_node s' path = Some (File (dec_int pid @ [NL]))"
  by (auto simp: daemon_write_pidfile_def Let_def split: option.splits if_splits dest: write_pid_ok)

text \<open>The file names its writer.\<close>

lemma pid_running_written:
  assumes "0 < pid" and "in_i32 pid"
  shows "pid_running s (dec_int pid @ [NL]) \<longleftrightarrow> os_alive s pid"
proof -
  have d: "dec_int pid = dec_pos pid" "length (dec_pos pid) \<le> 10" "list_all isdigit (dec_pos pid)" "dec_pos pid \<noteq> []"
    using assms length_dec_pos [of pid 9] dec_pos_digits [of pid] by (simp_all add: dec_int_def in_i32_def INT32_MAX_def)
  have "is_cstr (dec_int pid @ [NL])" using isdigit_is_cstr [OF d(3)] d(1) by (simp add: is_cstr_def NL_def NUL_def)
  moreover have "take 31 (dec_int pid @ [NL]) = dec_int pid @ [NL]" using d by simp
  moreover have "strtol (dec_int pid @ [NL]) = pid"
    using assms by (intro strtol_dec_int) (simp_all add: in_i32_def INT32_MAX_def LONG_MAX_def isdigit_def NL_def)
  ultimately show ?thesis using assms d(1,4) by (simp add: pid_running_def cstr_id to_i32_id)
qed

text \<open>
  C25. The PID file keeps a second instance out, and only a running one: after a process wrote
  the file, another instance that finds it readable is refused and leaves it untouched if
  the process is still alive, and replaces it with its own number if not.
\<close>

theorem pidfile_guards_instance:
  assumes "daemon_write_pidfile s pid ok (Some path) = (0, s1)" and "path \<noteq> []" and "0 < pid" and "in_i32 pid"
    and "os_node s2 path = os_node s1 path" and "os_readable s2 path" and "os_writable s2 path"
  shows "if os_alive s2 pid then daemon_write_pidfile s2 pid2 True (Some path) = (- 1, s2)
    else \<exists>s3. daemon_write_pidfile s2 pid2 True (Some path) = (0, s3) \<and>
      os_node s3 = (os_node s2)(path \<mapsto> File (dec_int pid2 @ [NL]))"
proof -
  have n: "os_node s2 path = Some (File (dec_int pid @ [NL]))"
    using write_pidfile_ok [OF assms(1,2)] assms(5) by simp
  with assms(6) have r: "open_read s2 path = Some (dec_int pid @ [NL])" "open_excl s2 path = None"
    by (simp_all add: open_read_def open_excl_def)
  have "open_excl (unlink s2 path) path \<noteq> None" using assms(7) by (simp add: open_excl_def)
  then obtain s3 where o: "open_excl (unlink s2 path) path = Some s3" by blast
  have "os_node s3 = (os_node s2)(path \<mapsto> File [])"
    using o assms(7) by (auto simp: step_simps unlink_def)
  then show ?thesis
    using assms(2) r o pid_running_written [OF assms(3,4)] by (auto simp: daemon_write_pidfile_def write_pid_def Let_def)
qed

definition empty_os :: "int set \<Rightarrow> os" where
  "empty_os alive = \<lparr>os_node = (\<lambda>p. None), os_writable = (\<lambda>p. True), os_readable = (\<lambda>p. True),
     os_alive = (\<lambda>n. n \<in> alive)\<rparr>"

lemma first_instance:
  "path \<noteq> [] \<Longrightarrow> daemon_write_pidfile (empty_os A) pid True (Some path) =
     (0, (empty_os A)\<lparr>os_node := [path \<mapsto> File (dec_int pid @ [NL])]\<rparr>)"
  by (simp add: daemon_write_pidfile_def open_excl_def write_pid_def empty_os_def)

theorem pidfile_guards_instance_witness:
  "\<exists>s1. daemon_write_pidfile (empty_os {42}) 42 True (Some ''/run/p.pid'') = (0, s1) \<and>
     daemon_write_pidfile s1 77 True (Some ''/run/p.pid'') = (- 1, s1)"
proof -
  let ?s = "(empty_os {42})\<lparr>os_node := [''/run/p.pid'' \<mapsto> File (dec_int 42 @ [NL])]\<rparr>"
  have f: "daemon_write_pidfile (empty_os {42}) 42 True (Some ''/run/p.pid'') = (0, ?s)"
    by (simp add: first_instance)
  have "in_i32 42" "os_readable ?s ''/run/p.pid''" "os_writable ?s ''/run/p.pid''" "os_alive ?s 42"
    by (simp_all add: in_i32_def INT32_MIN_def INT32_MAX_def empty_os_def)
  with pidfile_guards_instance [OF f, of ?s 77] have "daemon_write_pidfile ?s 77 True (Some ''/run/p.pid'') = (- 1, ?s)"
    by simp
  with f show ?thesis by blast
qed

end
