(* ===== verification/Logger.thy ===== *)
theory Logger
  imports Clib
begin

text \<open>
  src/src/logger.h and src/src/logger.c: the level filter and the three sinks (stderr, syslog,
  log file), and the callback of src/src/inference.c that routes the messages of llama.cpp
  into the logger. What a call writes is a list of outputs; the formatted message, the clock
  and the outcomes of \<open>isatty\<close>, \<open>fopen\<close> and \<open>pthread_mutex_init\<close> are arguments.
\<close>

section \<open>Levels\<close>

datatype log_level = LvTrace | LvDebug | LvInfo | LvWarn | LvError | LvFatal

primrec level_code :: "log_level \<Rightarrow> int" where
  "level_code LvTrace = 0"
| "level_code LvDebug = 1"
| "level_code LvInfo = 2"
| "level_code LvWarn = 3"
| "level_code LvError = 4"
| "level_code LvFatal = 5"

lemma level_code_inj [simp]: "level_code a = level_code b \<longleftrightarrow> a = b"
  by (cases a; cases b) simp_all

lemma level_code_bounds [bounds]: "0 \<le> level_code a" "level_code a \<le> 5"
  by (cases a; simp)+

text \<open>The levels are ordered as the constants of the enumeration.\<close>

instantiation log_level :: linorder
begin

definition less_eq_log_level :: "log_level \<Rightarrow> log_level \<Rightarrow> bool" where
  "less_eq_log_level a b \<longleftrightarrow> level_code a \<le> level_code b"

definition less_log_level :: "log_level \<Rightarrow> log_level \<Rightarrow> bool" where
  "less_log_level a b \<longleftrightarrow> level_code a < level_code b"

instance
  by standard (auto simp: less_eq_log_level_def less_log_level_def intro: level_code_inj [THEN iffD1])

end

text \<open>
  No constant of \<open>log_level_t\<close> is negative, so gcc, for which the project is built, makes it
  an unsigned 32-bit type: the conversion \<open>(log_level_t)cfg.log_level\<close> wraps.
\<close>

type_synonym level_t = "32 word"

definition level_word :: "log_level \<Rightarrow> level_t" where
  "level_word l = word_of_int (level_code l)"

definition level_names :: "string list" where
  "level_names = [''TRACE'', ''DEBUG'', ''INFO'', ''WARN'', ''ERROR'', ''FATAL'']"

definition level_colors :: "string list" where
  "level_colors = map (\<lambda>n. CHR 0x1B # ''['' @ n @ ''m'') [''90'', ''36'', ''32'', ''33'', ''31'', ''35'']"

definition color_reset :: string where
  "color_reset = CHR 0x1B # ''[0m''"

text \<open>The priorities of syslog: \<open>LOG_CRIT\<close> 2, \<open>LOG_ERR\<close> 3, \<open>LOG_WARNING\<close> 4, \<open>LOG_NOTICE\<close> 5,
  \<open>LOG_INFO\<close> 6, \<open>LOG_DEBUG\<close> 7.\<close>

definition level_to_syslog :: "int list" where
  "level_to_syslog = [7, 7, 6, 4, 3, 2]"

section \<open>The logger\<close>

record logger =
  lg_level :: level_t
  lg_log_file :: bool
  lg_use_color :: bool
  lg_use_stderr :: bool
  lg_use_syslog :: bool

datatype sink = ToStderr string | ToSyslog int string | ToFile string

definition logger_init :: "level_t \<Rightarrow> string option \<Rightarrow> bool \<Rightarrow> bool \<Rightarrow> bool \<Rightarrow> bool \<Rightarrow> int \<times> logger" where
  "logger_init level log_path use_syslog tty fopen_ok mutex_ok =
     (let lg = \<lparr>lg_level = level, lg_log_file = False, lg_use_color = tty, lg_use_stderr = True,
                lg_use_syslog = use_syslog\<rparr>
      in if log_path \<noteq> None \<and> log_path \<noteq> Some [] then
           if \<not> fopen_ok then (- 1, lg)
           else if \<not> mutex_ok then (- 1, lg)
           else (0, lg\<lparr>lg_log_file := True\<rparr>)
         else if \<not> mutex_ok then (- 1, lg)
         else (0, lg))"

definition logger_enable_syslog :: "logger \<Rightarrow> logger" where
  "logger_enable_syslog lg = (if \<not> lg_use_syslog lg then lg\<lparr>lg_use_syslog := True\<rparr> else lg)
     \<lparr>lg_use_stderr := False, lg_use_color := False\<rparr>"

definition logger_destroy :: "logger \<Rightarrow> logger" where
  "logger_destroy lg = lg\<lparr>lg_log_file := False, lg_use_syslog := False\<rparr>"

definition logger_announce :: "logger \<Rightarrow> string \<Rightarrow> sink list" where
  "logger_announce lg msg =
     (if lg_use_stderr lg then [ToStderr (msg @ [NL])] else []) @
     (if lg_use_syslog lg then [ToSyslog 5 msg] else []) @
     (if lg_log_file lg then [ToFile (msg @ [NL])] else [])"

section \<open>Time stamps\<close>

text \<open>\<open>gmtime_r\<close>: the civil date of a day number counted from 1970-01-01, through the day of
  an era of 400 years that begins in March.\<close>

definition civil_of_days :: "int \<Rightarrow> int \<times> int \<times> int" where
  "civil_of_days z = (let z1 = z + 719468; era = z1 div 146097; doe = z1 mod 146097;
     yoe = (doe - doe div 1460 + doe div 36524 - doe div 146096) div 365;
     doy = doe - (365 * yoe + yoe div 4 - yoe div 100);
     mp = (5 * doy + 2) div 153;
     m = (if mp < 10 then mp + 3 else mp - 9)
     in (yoe + era * 400 + (if m \<le> 2 then 1 else 0), m, doy - (153 * mp + 2) div 5 + 1))"

text \<open>\<open>strftime\<close> with \<open>%Y-%m-%dT%H:%M:%S\<close>, then the milliseconds and a Z.\<close>

definition timestamp :: "timespec \<Rightarrow> string" where
  "timestamp ts = (case civil_of_days (fst ts div 86400) of (y, mo, d) \<Rightarrow>
     let s = fst ts mod 86400 in
     dec_int y @ ''-'' @ zpad 2 mo @ ''-'' @ zpad 2 d @ ''T'' @ zpad 2 (s div 3600) @ '':'' @
     zpad 2 (s div 60 mod 60) @ '':'' @ zpad 2 (s mod 60) @ ''.'' @ zpad 3 (snd ts div 1000000) @ ''Z'')"

lemma timestamp_samples:
  "timestamp (0, 0) = ''1970-01-01T00:00:00.000Z''"
  "timestamp (1709209805, 70999999) = ''2024-02-29T12:30:05.070Z''"
  by code_simp+

section \<open>Writing a message\<close>

text \<open>The part of a path after its last slash.\<close>

definition basename :: "string \<Rightarrow> string" where
  "basename file = rev (takeWhile (\<lambda>c. c \<noteq> CHR ''/'') (rev file))"

definition log_text :: "nat \<Rightarrow> bool \<Rightarrow> string \<Rightarrow> int \<Rightarrow> string \<Rightarrow> string" where
  "log_text k color base line msgbuf =
     (if color then level_colors ! k @ rpad 5 (level_names ! k) @ color_reset
      else rpad 5 (level_names ! k)) @ '' '' @ base @ '':'' @ dec_int line @ '': '' @ msgbuf"

definition log_line :: "nat \<Rightarrow> bool \<Rightarrow> string \<Rightarrow> int \<Rightarrow> string \<Rightarrow> timespec \<Rightarrow> string" where
  "log_line k color base line msgbuf ts = timestamp ts @ '' '' @ log_text k color base line msgbuf @ [NL]"

text \<open>\<open>ts1\<close> and \<open>ts2\<close> are the two readings of the clock, for stderr and for the file.\<close>

definition logger_log :: "logger \<Rightarrow> level_t \<Rightarrow> string \<Rightarrow> int \<Rightarrow> string \<Rightarrow> timespec \<Rightarrow> timespec \<Rightarrow> sink list" where
  "logger_log lg level file line msg ts1 ts2 =
     (if level < lg_level lg \<or> level < level_word LvTrace \<or> level_word LvFatal < level then []
      else let k = unat level; msgbuf = snprintf_s 2048 msg; base = basename file in
        (if lg_use_stderr lg then [ToStderr (log_line k (lg_use_color lg) base line msgbuf ts1)] else []) @
        (if lg_use_syslog lg then [ToSyslog (level_to_syslog ! k) (log_text k False base line msgbuf)] else []) @
        (if lg_log_file lg then [ToFile (log_line k False base line msgbuf ts2)] else []))"

section \<open>The messages of llama.cpp\<close>

datatype ggml_log_level = GgDebug | GgInfo | GgCont | GgWarn | GgError | GgOther

text \<open>The call that \<open>llama_log_cb\<close> makes, if any: level and message.\<close>

definition llama_log_cb :: "bool \<Rightarrow> ggml_log_level \<Rightarrow> string \<Rightarrow> (log_level \<times> string) option" where
  "llama_log_cb has_logger level text0 =
     (if \<not> has_logger then None
      else let len = length text0;
               buf = (if 0 < len \<and> len < 2048
                      then if text0 ! (len - 1) = NL then take (len - 1) text0 else text0
                      else [])
        in if buf = [] then None
           else Some (case level of GgDebug \<Rightarrow> LvDebug | GgInfo \<Rightarrow> LvInfo | GgCont \<Rightarrow> LvInfo
                        | GgWarn \<Rightarrow> LvWarn | GgError \<Rightarrow> LvError | GgOther \<Rightarrow> LvDebug,
                      ''[llama] '' @ buf))"

section \<open>What reaches the sinks\<close>

datatype sink_kind = KStderr | KSyslog | KFile

fun kind_of :: "sink \<Rightarrow> sink_kind" where
  "kind_of (ToStderr s) = KStderr"
| "kind_of (ToSyslog n s) = KSyslog"
| "kind_of (ToFile s) = KFile"

fun enabled :: "logger \<Rightarrow> sink_kind \<Rightarrow> bool" where
  "enabled lg KStderr = lg_use_stderr lg"
| "enabled lg KSyslog = lg_use_syslog lg"
| "enabled lg KFile = lg_log_file lg"

text \<open>The line without its newline.\<close>

fun line_of :: "sink \<Rightarrow> string" where
  "line_of (ToStderr s) = butlast s"
| "line_of (ToSyslog n s) = s"
| "line_of (ToFile s) = butlast s"

definition sinks :: "logger \<Rightarrow> sink_kind list" where
  "sinks lg = filter (enabled lg) [KStderr, KSyslog, KFile]"

lemma level_word_less [simp]: "level_word a < level_word b \<longleftrightarrow> a < b"
  by (cases a; cases b) (simp_all add: level_word_def less_log_level_def)

lemma level_range [simp]: "\<not> m < LvTrace" "\<not> LvFatal < m"
  by (cases m; simp add: less_log_level_def)+

lemma level_word_below_cast:
  assumes "in_i32 n"
  shows "level_word m < (word_of_int n :: level_t) \<longleftrightarrow> \<not> (0 \<le> n \<and> n \<le> level_code m)"
proof -
  have "uint (level_word m) = level_code m"
    by (cases m) (simp_all add: level_word_def)
  moreover have "uint (word_of_int n :: level_t) = (if 0 \<le> n then n else n + 2 ^ 32)"
    using assms by (auto simp: uint_word_of_int in_i32_def INT32_MIN_def INT32_MAX_def mod_pos_pos_trivial
        intro!: int_mod_pos_eq [where q = "- 1"])
  ultimately show ?thesis
    using assms level_code_bounds [of m] by (auto simp: word_less_def in_i32_def INT32_MIN_def)
qed

lemma log_kinds:
  "\<not> level_word m < lg_level lg \<Longrightarrow> map kind_of (logger_log lg (level_word m) file line msg ts1 ts2) = sinks lg"
  by (auto simp: logger_log_def sinks_def Let_def)

lemma butlast_log_line: "butlast (log_line k color base line msgbuf ts) =
   timestamp ts @ '' '' @ log_text k color base line msgbuf"
  by (simp add: log_line_def butlast_append)

lemma log_text_suffix: "suffix msgbuf (log_text k color base line msgbuf)"
  by (simp add: log_text_def suffix_def)

lemma log_lines:
  "s \<in> set (logger_log lg level file line msg ts1 ts2) \<Longrightarrow> suffix (snprintf_s 2048 msg) (line_of s)"
  by (auto simp: logger_log_def butlast_log_line Let_def split: if_splits
      intro!: suffix_ConsI suffix_appendI log_text_suffix)

text \<open>
  C35. The configured level selects what is written. After a successful \<open>logger_init\<close> with the
  converted \<open>log_level\<close> of the configuration, a message is written once to every enabled
  sink, with at most 2047 bytes of its text at the end of the line, exactly when the number
  is between 0 and the level of the message. With a number outside 0 to 5, which nothing
  rejects, not even fatal errors are written.
\<close>

theorem log_level_selects:
  assumes "in_i32 n" and "logger_init (word_of_int n) path use_syslog tty fopen_ok mutex_ok = (0, lg)"
  shows "map kind_of (logger_log lg (level_word m) file line msg ts1 ts2) =
      (if 0 \<le> n \<and> n \<le> level_code m then sinks lg else []) \<and>
    (\<forall>s \<in> set (logger_log lg (level_word m) file line msg ts1 ts2). suffix (snprintf_s 2048 msg) (line_of s))"
proof -
  have l: "lg_level lg = word_of_int n" using assms(2) by (auto simp: logger_init_def Let_def split: if_splits)
  have "map kind_of (logger_log lg (level_word m) file line msg ts1 ts2) =
      (if 0 \<le> n \<and> n \<le> level_code m then sinks lg else [])"
    using level_word_below_cast [OF assms(1), of m] log_kinds [of m lg]
    by (cases "level_word m < lg_level lg") (auto simp: l logger_log_def)
  then show ?thesis using log_lines by blast
qed

theorem log_level_selects_witness:
  "map kind_of (logger_log \<lparr>lg_level = 6, lg_log_file = True, lg_use_color = False, lg_use_stderr = True,
     lg_use_syslog = False\<rparr> (level_word LvFatal) ''src/main.c'' 132 ''failed'' (0, 0) (0, 0)) = []"
proof -
  have i: "in_i32 6" by (simp add: in_i32_def INT32_MIN_def INT32_MAX_def)
  have g: "logger_init (word_of_int 6) (Some ''/tmp/log'') False False True True =
    (0, \<lparr>lg_level = 6, lg_log_file = True, lg_use_color = False, lg_use_stderr = True, lg_use_syslog = False\<rparr>)"
    by (simp add: logger_init_def)
  from log_level_selects [OF i g, of LvFatal] show ?thesis by simp
qed

text \<open>After \<open>logger_enable_syslog\<close> nothing goes to the closed stderr, and syslog is on.\<close>

lemma daemon_sinks:
  "sinks (logger_enable_syslog lg) = KSyslog # (if lg_log_file lg then [KFile] else [])"
  by (simp add: sinks_def logger_enable_syslog_def)

lemma strip_last: "text0 \<noteq> [] \<Longrightarrow> text0 ! (length text0 - 1) = c \<Longrightarrow> take (length text0 - 1) text0 @ [c] = text0"
  by (metis append_butlast_last_id butlast_conv_take last_conv_nth One_nat_def)

lemma llama_log_cb_some:
  assumes "llama_log_cb True level text0 = Some (l, msg)"
  shows "\<exists>t. msg = ''[llama] '' @ t \<and> t \<noteq> [] \<and> (text0 = t \<or> text0 = t @ [NL]) \<and> length text0 < 2048"
  using assms strip_last [of text0 NL]
  by (auto simp: llama_log_cb_def Let_def split: if_splits)

end
