(* ===== verification/Recommend.thy ===== *)
theory Recommend
  imports Cfloat
begin

text \<open>
  src/src/recommend.h and src/src/recommend.c: reading the hardware from \<open>/sys\<close> and \<open>/proc\<close>,
  the estimates derived from it, and the recommendation of a model and a context size. The
  file system is given by the contents of its readable files, the entries of its directories
  in the order of \<open>readdir\<close>, and which paths exist. What is printed is a string.
\<close>

section \<open>Reading files\<close>

record sys =
  sy_file :: "string \<Rightarrow> string option"
  sy_dir :: "string \<Rightarrow> string list option"
  sy_exists :: "string \<Rightarrow> bool"

definition strip_nl :: "string \<Rightarrow> string" where
  "strip_nl s = (if s \<noteq> [] \<and> last s = NL then butlast s else s)"

text \<open>\<open>strtoll(buf, NULL, 10)\<close> is \<open>strtol\<close>, both being 64 bits wide.\<close>

definition read_sysfs_int64 :: "sys \<Rightarrow> string \<Rightarrow> int" where
  "read_sysfs_int64 sy path = (case sy_file sy path of
     None \<Rightarrow> - 1
   | Some bytes \<Rightarrow> (case fgets_all 64 bytes of [] \<Rightarrow> - 1 | buf # _ \<Rightarrow> strtol (cstr buf)))"

definition read_sysfs_str :: "sys \<Rightarrow> string \<Rightarrow> nat \<Rightarrow> string option" where
  "read_sysfs_str sy path out_len = (case sy_file sy path of
     None \<Rightarrow> None
   | Some bytes \<Rightarrow> (case fgets_all out_len bytes of [] \<Rightarrow> None | buf # _ \<Rightarrow> Some (strip_nl (cstr buf))))"

text \<open>The value of the first line (or piece of 511 bytes) that begins with the key.\<close>

fun find_field :: "string \<Rightarrow> nat \<Rightarrow> string list \<Rightarrow> string option" where
  "find_field key out_len [] = None"
| "find_field key out_len (buf # bufs) = (let line = cstr buf in
     if strncmp_eq (length key) line key
     then Some (snprintf_s out_len (strip_nl
            (dropWhile (\<lambda>c. c = CHR '' '' \<or> c = CHR '':'' \<or> c = CHR 0x09) (drop (length key) line))))
     else find_field key out_len bufs)"

definition read_proc_field :: "sys \<Rightarrow> string \<Rightarrow> string \<Rightarrow> nat \<Rightarrow> string option" where
  "read_proc_field sy path key out_len = (case sy_file sy path of
     None \<Rightarrow> None | Some bytes \<Rightarrow> find_field key out_len (fgets_all 512 bytes))"

text \<open>The product is a signed 64-bit multiplication: \<open>None\<close> if it overflows.\<close>

definition mul_i64 :: "int \<Rightarrow> int \<Rightarrow> int option" where
  "mul_i64 a b = (if - (2 ^ 63) \<le> a * b \<and> a * b < 2 ^ 63 then Some (a * b) else None)"

definition read_proc_meminfo_kb :: "sys \<Rightarrow> string \<Rightarrow> int option" where
  "read_proc_meminfo_kb sy key = (case read_proc_field sy ''/proc/meminfo'' key 64 of
     None \<Rightarrow> Some (- 1) | Some val \<Rightarrow> mul_i64 (strtol val) 1024)"

section \<open>Detection\<close>

record hw_info =
  hw_cpu_model :: string
  hw_cpu_cores :: int
  hw_cpu_threads :: int
  hw_gpu_name :: string
  hw_gpu_arch :: string
  hw_ram_total :: int
  hw_ram_available :: int
  hw_vram :: int
  hw_gtt :: int
  hw_has_npu :: bool
  hw_npu_name :: string
  hw_is_uma :: bool
  hw_effective_gpu_mem :: int
  hw_bandwidth :: int

definition hw_zero :: hw_info where
  "hw_zero = \<lparr>hw_cpu_model = [], hw_cpu_cores = 0, hw_cpu_threads = 0, hw_gpu_name = [], hw_gpu_arch = [],
     hw_ram_total = 0, hw_ram_available = 0, hw_vram = 0, hw_gtt = 0, hw_has_npu = False, hw_npu_name = [],
     hw_is_uma = False, hw_effective_gpu_mem = 0, hw_bandwidth = 0\<rparr>"

abbreviation GB :: int where "GB \<equiv> 1073741824"

text \<open>The first directory entry \<open>card<n>\<close> whose vendor is AMD.\<close>

fun find_card :: "sys \<Rightarrow> string list \<Rightarrow> string option" where
  "find_card sy [] = None"
| "find_card sy (d # ds) =
     (if \<not> strncmp_eq 4 d ''card'' \<or> CHR ''-'' \<in> set (drop 4 d) then find_card sy ds
      else if read_sysfs_str sy (snprintf_s 512 (''/sys/class/drm/'' @ d @ ''/device/vendor'')) 16 = Some ''0x1002''
      then Some (snprintf_s 512 (''/sys/class/drm/'' @ d @ ''/device''))
      else find_card sy ds)"

definition find_gpu_drm_card :: "sys \<Rightarrow> string option" where
  "find_gpu_drm_card sy = (case sy_dir sy ''/sys/class/drm'' of None \<Rightarrow> None | Some ds \<Rightarrow> find_card sy ds)"

text \<open>The loop over \<open>uevent\<close> has no effect.\<close>

definition detect_gpu :: "sys \<Rightarrow> hw_info \<Rightarrow> hw_info" where
  "detect_gpu sy hw = (case find_gpu_drm_card sy of
     None \<Rightarrow> hw\<lparr>hw_gpu_name := ''Not detected''\<rparr>
   | Some dev \<Rightarrow>
       let vram = read_sysfs_int64 sy (snprintf_s 600 (dev @ ''/mem_info_vram_total''));
           gtt = read_sysfs_int64 sy (snprintf_s 600 (dev @ ''/mem_info_gtt_total''));
           hw1 = hw\<lparr>hw_vram := vram, hw_gtt := gtt\<rparr>
       in if 0 < vram \<and> vram < 4 * GB \<and> 4 * GB < gtt
          then hw1\<lparr>hw_is_uma := True, hw_effective_gpu_mem := gtt\<rparr>
          else if 0 < vram then hw1\<lparr>hw_is_uma := False, hw_effective_gpu_mem := vram\<rparr>
          else hw1)"

definition detect_cpu :: "sys \<Rightarrow> hw_info \<Rightarrow> hw_info" where
  "detect_cpu sy hw =
     (let model = (case read_proc_field sy ''/proc/cpuinfo'' ''model name'' 256 of
            None \<Rightarrow> hw_cpu_model hw | Some s \<Rightarrow> s);
          threads = (case sy_file sy ''/proc/cpuinfo'' of
            None \<Rightarrow> hw_cpu_threads hw
          | Some bytes \<Rightarrow> int (length (filter (\<lambda>b. strncmp_eq 9 (cstr b) ''processor'') (fgets_all 256 bytes))));
          cores = (case read_proc_field sy ''/proc/cpuinfo'' ''cpu cores'' 32 of
            Some val \<Rightarrow> to_i32 (strtol val)
          | None \<Rightarrow> if threads div 2 < 1 then 1 else threads div 2)
      in hw\<lparr>hw_cpu_model := model, hw_cpu_threads := threads, hw_cpu_cores := cores\<rparr>)"

text \<open>The name from the \<open>uevent\<close> file of the first accelerator: its last \<open>DRIVER=\<close> line.\<close>

fun driver_name :: "string list \<Rightarrow> string \<Rightarrow> string" where
  "driver_name [] name = name"
| "driver_name (buf # bufs) name = (let line = cstr buf in
     driver_name bufs (if strncmp_eq 7 line ''DRIVER='' then snprintf_s 128 (drop 7 (strip_nl line)) else name))"

definition npu_driver :: "sys \<Rightarrow> string \<Rightarrow> string" where
  "npu_driver sy name = (case sy_dir sy ''/sys/class/accel'' of
     None \<Rightarrow> name
   | Some ds \<Rightarrow> (case filter (\<lambda>d. strncmp_eq 5 d ''accel'') ds of
       [] \<Rightarrow> name
     | d # _ \<Rightarrow> (case sy_file sy (snprintf_s 512 (''/sys/class/accel/'' @ d @ ''/device/uevent'')) of
         None \<Rightarrow> name | Some bytes \<Rightarrow> driver_name (fgets_all 128 bytes) name)))"

definition detect_npu :: "sys \<Rightarrow> hw_info \<Rightarrow> hw_info" where
  "detect_npu sy hw = (if sy_exists sy ''/dev/accel0''
     then let name = npu_driver sy (hw_npu_name hw)
          in hw\<lparr>hw_has_npu := True, hw_npu_name := (if name = [] then ''detected'' else name)\<rparr>
     else hw)"

definition name_gpu :: "sys \<Rightarrow> hw_info \<Rightarrow> hw_info" where
  "name_gpu sy hw =
     (if hw_gpu_name hw = [] \<or> hw_gpu_name hw = ''Not detected''
      then (case find_gpu_drm_card sy of
          None \<Rightarrow> hw
        | Some dev \<Rightarrow> (case read_sysfs_str sy (snprintf_s 576 (dev @ ''/product_name'')) 256 of
              None \<Rightarrow> hw | Some s \<Rightarrow> hw\<lparr>hw_gpu_name := s\<rparr>))
      else hw)"

definition infer_arch :: "hw_info \<Rightarrow> hw_info" where
  "infer_arch hw =
     (if hw_gpu_arch hw \<noteq> [] then hw
      else let apu = (if hw_gpu_name hw = [] then ''Integrated RDNA 3.5 APU'' else hw_gpu_name hw) in
        if strstr (hw_cpu_model hw) ''Ryzen AI MAX'' \<or> strstr (hw_cpu_model hw) ''RYZEN AI MAX''
        then hw\<lparr>hw_gpu_name := apu, hw_gpu_arch := ''gfx1151'', hw_bandwidth := 192\<rparr>
        else if strstr (hw_cpu_model hw) ''Ryzen AI'' \<or> strstr (hw_cpu_model hw) ''RYZEN AI''
        then hw\<lparr>hw_gpu_name := apu, hw_gpu_arch := ''gfx1150'', hw_bandwidth := 96\<rparr>
        else if 0 < hw_vram hw \<and> hw_gpu_name hw = [] then hw\<lparr>hw_gpu_name := ''AMD GPU''\<rparr>
        else hw)"

definition guess_bandwidth :: "hw_info \<Rightarrow> hw_info" where
  "guess_bandwidth hw =
     (if hw_bandwidth hw = 0 \<and> \<not> hw_is_uma hw \<and> 0 < hw_vram hw
      then let vram_gb = hw_vram hw div GB in
        if 80 \<le> vram_gb then hw\<lparr>hw_bandwidth := 2000\<rparr>
        else if 48 \<le> vram_gb then hw\<lparr>hw_bandwidth := 800\<rparr>
        else if 24 \<le> vram_gb then hw\<lparr>hw_bandwidth := 600\<rparr>
        else if 16 \<le> vram_gb then hw\<lparr>hw_bandwidth := 400\<rparr>
        else if 8 \<le> vram_gb then hw\<lparr>hw_bandwidth := 250\<rparr>
        else hw
      else hw)"

definition hw_detect :: "sys \<Rightarrow> hw_info option" where
  "hw_detect sy = (let hw1 = detect_cpu sy hw_zero in
     case (read_proc_meminfo_kb sy ''MemTotal'', read_proc_meminfo_kb sy ''MemAvailable'') of
       (Some ram_total, Some ram_avail) \<Rightarrow>
         Some (guess_bandwidth (infer_arch (name_gpu sy (detect_npu sy (detect_gpu sy
           (hw1\<lparr>hw_ram_total := ram_total, hw_ram_available := ram_avail\<rparr>))))))
     | _ \<Rightarrow> None)"

section \<open>Summary\<close>

definition put_line :: "string \<Rightarrow> string" where
  "put_line s = s @ [NL]"

definition in_gb :: "int \<Rightarrow> fl" where
  "in_gb n = fl_div (dbl n) (dbl GB)"

definition hw_print_summary :: "hw_info \<Rightarrow> string" where
  "hw_print_summary hw =
     put_line ''  Good news, everyone! I've analyzed your hardware.'' @ [NL] @
     put_line ''=== System Hardware ==='' @ [NL] @
     put_line (''  CPU:          '' @ hw_cpu_model hw) @
     put_line (''  Cores:        '' @ dec_int (hw_cpu_cores hw) @ '' cores / '' @ dec_int (hw_cpu_threads hw) @
       '' threads'') @ [NL] @
     (if hw_gpu_name hw \<noteq> []
      then put_line (''  GPU:          '' @ hw_gpu_name hw) @
           (if hw_gpu_arch hw \<noteq> [] then put_line (''  GPU arch:     '' @ hw_gpu_arch hw) else [])
      else []) @
     (if hw_is_uma hw then put_line ''  Architecture: UMA (APU -- GPU shares system RAM)'' else []) @
     put_line (''  System RAM:   '' @ fmt_fixed 1 (in_gb (hw_ram_total hw)) @ '' GB total, '' @
       fmt_fixed 1 (in_gb (hw_ram_available hw)) @ '' GB available'') @
     (if 0 < hw_vram hw then put_line (''  Dedicated VRAM: '' @ fmt_fixed 1 (in_gb (hw_vram hw)) @ '' GB'') else []) @
     (if 0 < hw_gtt hw
      then put_line (''  GTT (GPU-accessible RAM): '' @ fmt_fixed 1 (in_gb (hw_gtt hw)) @ '' GB'') else []) @
     (if 0 < hw_effective_gpu_mem hw
      then put_line (''  Effective GPU memory: '' @ fmt_fixed 0 (in_gb (hw_effective_gpu_mem hw)) @ '' GB'') else []) @
     (if 0 < hw_bandwidth hw
      then put_line (''  Memory bandwidth: ~'' @ dec_int (hw_bandwidth hw) @ '' GB/s (estimated effective)'') else []) @
     (if hw_has_npu hw then put_line (''  NPU:          '' @ hw_npu_name hw @ '' (not used by llama.cpp)'') else []) @
     [NL]"

section \<open>The models\<close>

record model_entry =
  md_name :: string
  md_quant :: string
  md_size_gb :: fl
  md_max_ctx :: int
  md_kv_bytes_per_tok :: int
  md_notes :: string

definition model :: "string \<Rightarrow> string \<Rightarrow> rat \<Rightarrow> int \<Rightarrow> int \<Rightarrow> string \<Rightarrow> model_entry" where
  "model name quant sz max_ctx kv notes = \<lparr>md_name = name, md_quant = quant, md_size_gb = f64 sz,
     md_max_ctx = max_ctx, md_kv_bytes_per_tok = kv, md_notes = notes\<rparr>"

definition hermes_models :: "model_entry list" where
  "hermes_models = [
     model ''Hermes-3-Llama-3.1-8B'' ''Q4_K_M'' (49 / 10) 131072 65536 ''Fast, good quality'',
     model ''Hermes-3-Llama-3.1-8B'' ''Q6_K'' (66 / 10) 131072 65536 ''Higher quality'',
     model ''Hermes-3-Llama-3.1-8B'' ''Q8_0'' (85 / 10) 131072 65536 ''Near-lossless 8B'',
     model ''Hermes-3-Llama-3.1-8B'' ''F16'' 16 131072 65536 ''Full precision 8B'',
     model ''Hermes-3-Llama-3.1-70B'' ''Q3_K_M'' 33 131072 163840 ''Aggressive quant, usable'',
     model ''Hermes-3-Llama-3.1-70B'' ''Q4_K_M'' 40 131072 163840 ''Best balance for 70B'',
     model ''Hermes-3-Llama-3.1-70B'' ''Q5_K_M'' 50 131072 163840 ''High quality 70B'',
     model ''Hermes-3-Llama-3.1-70B'' ''Q6_K'' 58 131072 163840 ''Very high quality 70B'',
     model ''Hermes-3-Llama-3.1-70B'' ''Q8_0'' 74 131072 163840 ''Near-lossless 70B'']"

definition other_models :: "model_entry list" where
  "other_models = [
     model ''Qwen2.5-72B-Instruct'' ''Q4_K_M'' 42 131072 163840 ''Strong multilingual'',
     model ''Qwen2.5-32B-Instruct'' ''Q6_K'' 25 131072 131072 ''Good mid-size option'',
     model ''Qwen2.5-14B-Instruct'' ''Q8_0'' 15 131072 98304 ''Fast and capable'',
     model ''Llama-3.3-70B-Instruct'' ''Q4_K_M'' 40 131072 163840 ''Meta's latest 70B'',
     model ''Mistral-Large-2411'' ''Q4_K_M'' 38 32768 180224 ''Strong reasoning'',
     model ''DeepSeek-R1-Distill-70B'' ''Q4_K_M'' 40 131072 163840 ''Reasoning focused'',
     model ''Phi-4-14B'' ''Q8_0'' 15 16384 76800 ''Microsoft, fast'']"

definition estimate_tps :: "fl \<Rightarrow> int \<Rightarrow> fl" where
  "estimate_tps sz bw = (if bw \<le> 0 \<or> fl_le sz (Fin 0) then Fin 0
     else fl_div (fl_mul (dbl bw) (f64 (8 / 10))) sz)"

datatype fit = Easy | Good | Tight | Spill | NoFit

primrec fit_name :: "fit \<Rightarrow> string" where
  "fit_name Easy = ''Easy''"
| "fit_name Good = ''Good''"
| "fit_name Tight = ''Tight''"
| "fit_name Spill = ''Spill''"
| "fit_name NoFit = ''No''"

text \<open>\<open>size_gb <= (double)budget_gb * factor\<close>.\<close>

definition fits_in :: "fl \<Rightarrow> int \<Rightarrow> rat \<Rightarrow> bool" where
  "fits_in sz budget_gb factor = fl_le sz (fl_mul (dbl budget_gb) (f64 factor))"

definition model_fit :: "fl \<Rightarrow> int \<Rightarrow> fit" where
  "model_fit sz budget_gb =
     (if fits_in sz budget_gb (65 / 100) then Easy
      else if fits_in sz budget_gb (85 / 100) then Good
      else if fits_in sz budget_gb (95 / 100) then Tight
      else if fits_in sz budget_gb (13 / 10) then Spill
      else NoFit)"

definition fit_marker :: "fit \<Rightarrow> string" where
  "fit_marker f = (if f = Easy \<or> f = Good then ''*'' else '' '')"

definition model_row :: "int \<Rightarrow> int \<Rightarrow> model_entry \<Rightarrow> string" where
  "model_row budget_gb bw m =
     (let f = model_fit (md_size_gb m) budget_gb; tps = estimate_tps (md_size_gb m) bw;
          tps_str = snprintf_s 16 (if fl_le (md_size_gb m) (dbl budget_gb) then ''~'' @ fmt_fixed 1 tps
            else ''< '' @ fmt_fixed 1 (fl_mul tps (f64 (3 / 10))))
      in put_line (''  '' @ fit_marker f @ '' '' @ rpad 34 (md_name m) @ '' '' @ rpad 8 (md_quant m) @ '' '' @
           lpad 5 (fmt_fixed 0 (md_size_gb m)) @ '' GB  '' @ rpad 5 (fit_name f) @ ''  '' @
           (if 0 < bw then lpad 8 tps_str @ ''  '' else []) @ md_notes m))"

definition print_model_table :: "model_entry list \<Rightarrow> int \<Rightarrow> int \<Rightarrow> string \<Rightarrow> string" where
  "print_model_table models budget_gb bw header =
     (let row = (\<lambda>a b c d e f. put_line (''  '' @ rpad 35 a @ '' '' @ rpad 8 b @ '' '' @ lpad 6 c @ ''  '' @
            rpad 5 d @ ''  '' @ (if 0 < bw then lpad 8 e @ ''  '' else []) @ f));
          dash = (\<lambda>n. replicate n (CHR ''-''))
      in put_line header @ row ''Model'' ''Quant'' ''Size'' ''Fit'' ''~tok/s'' ''Notes'' @
         row (dash 35) (dash 8) (dash 6) (dash 5) (dash 8) (dash 30) @
         concat (map (model_row budget_gb bw) models) @ [NL] @
         put_line ''  * = recommended for your hardware'' @
         (if 0 < bw
          then put_line ''  tok/s estimates assume full GPU offload (model fits in GPU memory)'' @
               put_line ''  Models marked 'Spill': To shreds, you say? (runs partially on CPU)''
          else []) @ [NL])"

section \<open>The recommendation\<close>

text \<open>Division of a signed number by a positive one, truncated as in C.\<close>

definition cdiv :: "int \<Rightarrow> int \<Rightarrow> int" where
  "cdiv a b = (if a < 0 then - ((- a) div b) else a div b)"

definition budget_gb :: "hw_info \<Rightarrow> int" where
  "budget_gb hw = cdiv (if hw_effective_gpu_mem hw \<le> 0 then hw_ram_available hw else hw_effective_gpu_mem hw) GB"

text \<open>The operand of the conversion to \<open>int64_t\<close> is at most \<open>2 ^ 33\<close>.\<close>

definition model_budget_gb :: "hw_info \<Rightarrow> int" where
  "model_budget_gb hw = (if hw_is_uma hw
     then (case fl_mul (dbl (budget_gb hw)) (f64 (85 / 100)) of Fin x \<Rightarrow> trunc_rat x | _ \<Rightarrow> 0)
     else budget_gb hw)"

definition pickable :: "int \<Rightarrow> model_entry \<Rightarrow> bool" where
  "pickable budget m \<longleftrightarrow> fits_in (md_size_gb m) budget (85 / 100) \<and> fl_lt (Fin 10) (md_size_gb m)"

definition top_pick :: "int \<Rightarrow> model_entry" where
  "top_pick budget =
     (case foldl (\<lambda>best m. if pickable budget m then Some m else best) None hermes_models of
        Some m \<Rightarrow> m | None \<Rightarrow> hd hermes_models)"

definition remaining_gb :: "int \<Rightarrow> model_entry \<Rightarrow> fl" where
  "remaining_gb budget best = (let r = fl_sub (dbl budget) (md_size_gb best) in
     if fl_lt r (Fin (1 / 2)) then Fin (1 / 2) else r)"

definition ctx_options :: "int list" where
  "ctx_options = [4096, 8192, 16384, 32768, 65536, 131072]"

definition kv_gb :: "model_entry \<Rightarrow> int \<Rightarrow> fl" where
  "kv_gb m ctx = fl_div (fl_mul (dbl (md_kv_bytes_per_tok m)) (dbl ctx)) (Fin (of_int GB))"

definition ctx_fit :: "fl \<Rightarrow> fl \<Rightarrow> fit" where
  "ctx_fit kv remaining =
     (if fl_le kv (fl_mul remaining (Fin (1 / 2))) then Easy
      else if fl_le kv (fl_mul remaining (f64 (85 / 100))) then Good
      else if fl_le kv remaining then Tight
      else NoFit)"

definition usecase :: "int \<Rightarrow> string" where
  "usecase ctx =
     (if ctx \<le> 4096 then ''Basic chat''
      else if ctx \<le> 8192 then ''Chat + small tool sets''
      else if ctx \<le> 16384 then ''Agents, tool calling (recommended)''
      else if ctx \<le> 32768 then ''Many tools, long conversations''
      else ''Long documents, RAG'')"

text \<open>The loop over the context sizes: the rows printed and the size recommended.\<close>

fun ctx_loop :: "model_entry \<Rightarrow> fl \<Rightarrow> int list \<Rightarrow> int \<Rightarrow> string \<times> int" where
  "ctx_loop m remaining [] rec_ctx = ([], rec_ctx)"
| "ctx_loop m remaining (ctx # cs) rec_ctx =
     (if md_max_ctx m < ctx then ([], rec_ctx)
      else let kv = kv_gb m ctx; f = ctx_fit kv remaining;
               (rows, r) = ctx_loop m remaining cs (if f = Easy \<or> f = Good then ctx else rec_ctx)
        in (put_line (''  '' @ rpad 10 (dec_int ctx) @ '' '' @ lpad 8 (fmt_fixed 1 kv) @ '' GB  '' @
              rpad 6 (fit_name f) @ ''  '' @ usecase ctx) @ rows, r))"

definition recommended_ctx :: "int \<Rightarrow> int" where
  "recommended_ctx budget =
     snd (ctx_loop (top_pick budget) (remaining_gb budget (top_pick budget)) ctx_options 4096)"

text \<open>The sections of \<open>hw_print_recommendations\<close>, in order.\<close>

definition print_budget :: "hw_info \<Rightarrow> string" where
  "print_budget hw =
     put_line ''=== Model Recommendations ==='' @
     put_line (''  '' @ [CHR 0x22] @ ''I suppose I could part with one recommendation and still be feared.'' @ [CHR 0x22]) @ [NL] @
     put_line (''  GPU memory budget: '' @ dec_int (budget_gb hw) @ '' GB'' @
       (if hw_is_uma hw then '' (UMA -- shared with system)'' else [])) @
     put_line (''  Model size budget: ~'' @ dec_int (model_budget_gb hw) @
       '' GB (reserving headroom for KV cache)'') @ [NL] @
     (if 0 < hw_bandwidth hw
      then put_line (''  Memory bandwidth: ~'' @ dec_int (hw_bandwidth hw) @ '' GB/s (estimated effective)'') else []) @ [NL]"

definition print_top_pick :: "hw_info \<Rightarrow> model_entry \<Rightarrow> string" where
  "print_top_pick hw best =
     put_line ''  === Top Pick ==='' @ put_line (''  '' @ [CHR 0x22] @ ''Good news, everyone!'' @ [CHR 0x22]) @ [NL] @
     put_line (''  '' @ md_name best @ '' '' @ md_quant best @ '' ('' @ fmt_fixed 0 (md_size_gb best) @ '' GB)'') @
     (if 0 < hw_bandwidth hw
      then put_line (''  Expected throughput: ~'' @ fmt_fixed 1 (estimate_tps (md_size_gb best) (hw_bandwidth hw)) @
        '' tok/s'') else []) @
     put_line ''  Best balance of quality and speed for your hardware.'' @ [NL]"

definition print_contexts :: "int \<Rightarrow> model_entry \<Rightarrow> string" where
  "print_contexts budget best =
     (let remaining = remaining_gb budget best;
          row = (\<lambda>a b c d. put_line (''  '' @ rpad 10 a @ '' '' @ lpad 10 b @ ''  '' @ rpad 6 c @ ''  '' @ d));
          dash = (\<lambda>n. replicate n (CHR ''-''));
          (rows, r) = ctx_loop best remaining ctx_options 4096
      in put_line ''  === Recommended --n-ctx ==='' @ [NL] @
         put_line (''  Memory remaining after model load: ~'' @ fmt_fixed 1 remaining @ '' GB'') @
         put_line (''  KV cache (Q8_0): '' @
           fmt_fixed 0 (fl_div (fl_mul (dbl (md_kv_bytes_per_tok best)) (Fin 1024)) (Fin 1048576)) @
           '' KB per 1K context tokens'') @ [NL] @
         row ''--n-ctx'' ''KV cache'' ''Fit'' ''Use case'' @
         row (dash 10) (dash 10) (dash 6) (dash 30) @ rows @ [NL] @
         put_line (''  Recommended: --n-ctx '' @ dec_int r) @
         (if r < 8192
          then put_line ''  Warning: contexts below 8192 may be too small for tool-calling'' @
               put_line ''  agents (e.g., Hermes). Consider a smaller model to free memory.''
          else []) @ [NL])"

definition print_launch :: "model_entry \<Rightarrow> int \<Rightarrow> string" where
  "print_launch best ctx =
     put_line ''  Download from Hugging Face:'' @
     put_line (''  huggingface-cli download NousResearch/'' @ md_name best @ ''-GGUF '' @ md_name best @ ''.'' @
       md_quant best @ ''.gguf'') @ [NL] @
     put_line ''  Example launch:'' @
     put_line (''  professord --model '' @ md_name best @ ''.'' @ md_quant best @ ''.gguf --n-ctx '' @ dec_int ctx @
       '' --n-gpu-layers 999'') @ [NL] @
     put_line ''  Now go! And don't come back until you've generated at least one token!'' @ [NL]"

definition print_notes :: "hw_info \<Rightarrow> string" where
  "print_notes hw =
     (if hw_is_uma hw
      then put_line ''  Note: This is a UMA/APU system. The GPU shares system RAM.'' @
           put_line (''  '' @ [CHR 0x22] @ ''Our crew is replaceable, your package isn't.'' @ [CHR 0x22]) @
           put_line (''  Models fitting in GTT ('' @ fmt_fixed 0 (in_gb (hw_gtt hw)) @ '' GB) get full GPU acceleration.'') @
           put_line ''  Larger models spill to CPU RAM and run slower.'' @ [NL]
      else []) @
     (if hw_has_npu hw
      then put_line (''  Note: NPU detected ('' @ hw_npu_name hw @ '') but llama.cpp does not currently'') @
           put_line ''  support AMD XDNA/NPU acceleration. GPU is used instead.'' @ [NL]
      else []) @
     (if 0 < hw_bandwidth hw
      then put_line ''  === Performance Notes ==='' @
           put_line (''  '' @ [CHR 0x22] @ ''Now I don't say this often, but this is actually important.'' @ [CHR 0x22]) @ [NL] @
           put_line ''  LLM token generation is memory-bandwidth bound. Each token'' @
           put_line ''  requires reading the full model weights from memory once.'' @ [NL] @
           put_line ''  Formula: tok/s ~ memory_bandwidth / model_size'' @
           put_line (''  Your bandwidth: ~'' @ dec_int (hw_bandwidth hw) @ '' GB/s -> '' @
             ''larger model = slower, smaller model = faster'') @ [NL] @
           put_line ''  To increase tok/s:'' @
           put_line ''    - Use a smaller quantization (Q3_K_M < Q4_K_M < Q6_K < Q8_0)'' @
           put_line ''    - Use a smaller model (8B >> 14B >> 32B >> 70B)'' @
           put_line ''    - Ensure model fits fully in GPU memory (avoid CPU spill)'' @ [NL] @
           (if hw_is_uma hw
            then put_line ''  UMA/APU note: GPU shares memory bandwidth with CPU.'' @
                 put_line ''  Actual throughput may be 10-20% lower than estimates'' @
                 put_line ''  when CPU is also active.'' @ [NL]
            else [])
      else [])"

definition hw_print_recommendations :: "hw_info \<Rightarrow> string" where
  "hw_print_recommendations hw =
     (let budget = model_budget_gb hw; best = top_pick budget in
      print_budget hw @
      print_model_table hermes_models budget (hw_bandwidth hw) ''  Hermes Models (NousResearch):'' @
      print_model_table other_models budget (hw_bandwidth hw) ''  Other Recommended Models:'' @
      print_top_pick hw best @ print_contexts budget best @ print_launch best (recommended_ctx budget) @
      print_notes hw)"

text \<open>What \<open>professord --recommend\<close> prints.\<close>

definition run_recommend :: "sys \<Rightarrow> string option" where
  "run_recommend sy = map_option (\<lambda>hw. [NL] @ hw_print_summary hw @ hw_print_recommendations hw) (hw_detect sy)"

section \<open>The recommended model and context fit\<close>

lemma hermes_sizes: "map md_size_gb hermes_models = map f64 [49 / 10, 66 / 10, 85 / 10, 16, 33, 40, 50, 58, 74]"
  by (simp add: hermes_models_def model_def)

lemma small_not_above_10: "0 \<le> q \<Longrightarrow> q \<le> 10 \<Longrightarrow> \<not> fl_lt (Fin 10) (f64 q)"
  using f64_mono [of q 10] f64_numeral by (auto dest: fl_le_lt)

lemma sorted_hermes: "sorted_wrt (\<lambda>a b. fl_le (md_size_gb a) (md_size_gb b)) hermes_models"
  by (simp add: hermes_models_def model_def f64_mono)

lemma foldl_last: "foldl (\<lambda>best m. if P m then Some m else best) b xs =
   (if filter P xs = [] then b else Some (last (filter P xs)))"
  by (induction xs arbitrary: b) auto

lemma top_pick_eq: "top_pick b = (if filter (pickable b) hermes_models = [] then hd hermes_models
   else last (filter (pickable b) hermes_models))"
  by (simp add: top_pick_def foldl_last)

lemma sorted_last: "sorted_wrt R xs \<Longrightarrow> (\<And>x. R x x) \<Longrightarrow> x \<in> set xs \<Longrightarrow> R x (last xs)"
  by (induction xs) auto

lemma fl_le_refl_f64: "fl_le (f64 q) (f64 q)"
  by (simp add: fl_le_def f64_def fl_round_not_nan)

lemma size_f64: "m \<in> set hermes_models \<Longrightarrow> \<exists>q. md_size_gb m = f64 q"
  by (auto simp: hermes_models_def model_def)

lemma hermes_hd: "hermes_models = hd hermes_models # tl hermes_models" "md_size_gb (hd hermes_models) = f64 (49 / 10)"
  by (simp_all add: hermes_models_def model_def)

lemma top_pick_in: "top_pick b \<in> set hermes_models"
proof (cases "filter (pickable b) hermes_models = []")
  case True
  then show ?thesis using hermes_hd(1) by (simp add: top_pick_eq) (metis list.set_intros(1))
next
  case False
  then have "last (filter (pickable b) hermes_models) \<in> set (filter (pickable b) hermes_models)" by (rule last_in_set)
  with False show ?thesis by (simp add: top_pick_eq)
qed

lemma top_pick_largest:
  assumes "m \<in> set hermes_models" and "pickable b m"
  shows "pickable b (top_pick b) \<and> fl_le (md_size_gb m) (md_size_gb (top_pick b))"
proof -
  let ?ms = "filter (pickable b) hermes_models"
  have m: "m \<in> set ?ms" using assms by simp
  then have ne: "?ms \<noteq> []" by (metis empty_iff list.set(1))
  have p: "top_pick b = last ?ms" using ne by (simp add: top_pick_eq)
  have so: "sorted_wrt (\<lambda>x y. fl_le (md_size_gb x) (md_size_gb y)) ?ms" using sorted_hermes by (rule sorted_wrt_filter)
  have "fl_le (md_size_gb m) (md_size_gb (last ?ms))"
  proof (cases "m = last ?ms")
    case True
    then show ?thesis using size_f64 [OF assms(1)] fl_le_refl_f64 by auto
  next
    case False
    have "?ms = butlast ?ms @ [last ?ms]" using ne by simp
    with False m have "m \<in> set (butlast ?ms)" by (metis in_set_conv_decomp_last set_ConsD rotate1.simps(2) set_rotate1 Un_iff empty_iff list.set(1) set_append)
    then show ?thesis using so \<open>?ms = _\<close> by (metis sorted_wrt_append list.set_intros(1))
  qed
  moreover have "pickable b (last ?ms)" using last_in_set [OF ne] by simp
  ultimately show ?thesis unfolding p by simp
qed

lemma budget_bound:
  assumes "0 \<le> b" and "b < 2 ^ 40"
  shows "fits_in sz b (17 / 20) \<longleftrightarrow> fl_le sz (f64 (of_int b * (7656119366529843 / 9007199254740992)))"
  using assms by (simp add: fits_in_def dbl_int fl_mul_Fin f64_085)

lemma smallest_fits: 
  assumes "0 \<le> b" and "b < 2 ^ 40"
  shows "fits_in (f64 (49 / 10)) b (17 / 20) \<longleftrightarrow> 6 \<le> b"
proof (cases "6 \<le> b")
  case True
  then have "(6 :: rat) \<le> of_int b" by simp
  then have "(49 / 10 :: rat) \<le> of_int b * (7656119366529843 / 9007199254740992)" by simp
  then show ?thesis using True f64_mono by (simp add: budget_bound [OF assms])
next
  case False
  then have "of_int b \<le> (5 :: rat)" by simp
  then have "of_int b * (7656119366529843 / 9007199254740992) \<le> (9 / 2 :: rat)" by simp
  then have "fl_le (f64 (of_int b * (7656119366529843 / 9007199254740992))) (Fin (9 / 2))"
    using f64_mono [of "of_int b * (7656119366529843 / 9007199254740992)" "9 / 2"] assms(1) f64_halves by simp
  moreover have "fl_le (Fin (19 / 4)) (f64 (49 / 10))" using f64_mono [of "19 / 4" "49 / 10"] f64_halves by simp
  ultimately have "\<not> fl_le (f64 (49 / 10)) (f64 (of_int b * (7656119366529843 / 9007199254740992)))"
    by (meson fl_le_trans fl_le_Fin divide_le_eq) (auto dest: fl_le_trans simp: fl_le_Fin)
  then show ?thesis using False by (simp add: budget_bound [OF assms])
qed

lemma large_not_below_6:
  assumes "pickable b m" and "0 \<le> b" and "b < 2 ^ 40"
  shows "6 \<le> b"
proof (rule ccontr)
  assume "\<not> 6 \<le> b"
  then have "of_int b \<le> (5 :: rat)" by simp
  then have "fl_le (f64 (of_int b * (7656119366529843 / 9007199254740992))) (Fin 10)"
    using assms(2) f64_mono [of "of_int b * (7656119366529843 / 9007199254740992)" 10] f64_numeral by simp
  moreover have "fl_le (md_size_gb m) (f64 (of_int b * (7656119366529843 / 9007199254740992)))"
    using assms(1) budget_bound [OF assms(2,3)] by (simp add: pickable_def)
  ultimately have "fl_le (md_size_gb m) (Fin 10)" by (blast intro: fl_le_trans)
  with assms(1) show False by (simp add: pickable_def fl_le_lt)
qed

text \<open>The context sizes.\<close>

definition roomy :: "model_entry \<Rightarrow> fl \<Rightarrow> int \<Rightarrow> bool" where
  "roomy m remaining ctx \<longleftrightarrow> ctx_fit (kv_gb m ctx) remaining \<in> {Easy, Good}"

lemma ctx_loop_snd: "snd (ctx_loop m rem (c # cs) r) = (if md_max_ctx m < c then r
   else snd (ctx_loop m rem cs (if roomy m rem c then c else r)))"
  by (auto simp: roomy_def Let_def split: prod.split)

lemma ctx_loop_last: "snd (ctx_loop m rem cs r) =
   last (r # filter (roomy m rem) (takeWhile (\<lambda>c. c \<le> md_max_ctx m) cs))"
  by (induction cs arbitrary: r) (simp_all add: ctx_loop_snd not_less del: ctx_loop.simps(2))

lemma hermes_ctx: "m \<in> set hermes_models \<Longrightarrow> md_max_ctx m = 131072 \<and>
   (md_kv_bytes_per_tok m = 65536 \<or> md_kv_bytes_per_tok m = 163840 \<and> fl_le (Fin 33) (md_size_gb m))"
  using f64_mono [of 33] f64_numeral by (auto simp: hermes_models_def model_def fl_le_Fin)

lemma recommended_ctx_eq: "recommended_ctx b =
   last (4096 # filter (roomy (top_pick b) (remaining_gb b (top_pick b))) ctx_options)"
proof -
  have "takeWhile (\<lambda>c. c \<le> md_max_ctx (top_pick b)) ctx_options = ctx_options"
    using hermes_ctx [OF top_pick_in, of b] by (simp add: ctx_options_def)
  then show ?thesis by (simp only: recommended_ctx_def ctx_loop_last)
qed

lemma recommended_ctx_max:
  assumes "c \<in> set ctx_options" and "roomy (top_pick b) (remaining_gb b (top_pick b)) c"
  shows "c \<le> recommended_ctx b \<and> roomy (top_pick b) (remaining_gb b (top_pick b)) (recommended_ctx b)"
proof -
  let ?P = "roomy (top_pick b) (remaining_gb b (top_pick b))"
  let ?cs = "filter ?P ctx_options"
  have c: "c \<in> set ?cs" using assms by simp
  then have ne: "?cs \<noteq> []" by (metis empty_iff list.set(1))
  have r: "recommended_ctx b = last ?cs" using ne by (simp add: recommended_ctx_eq)
  have "sorted ctx_options" by (simp add: ctx_options_def)
  then have "sorted ?cs" by (rule sorted_wrt_filter)
  then have "c \<le> last ?cs" using c by (simp add: sorted_last)
  moreover have "?P (last ?cs)" using last_in_set [OF ne] by simp
  ultimately show ?thesis unfolding r by simp
qed

lemma kv_4096: "kv_gb m 4096 = (if md_kv_bytes_per_tok m = 65536 then Fin (1 / 4)
    else if md_kv_bytes_per_tok m = 163840 then Fin (5 / 8) else kv_gb m 4096)"
  using f64_int [of "268435456"] f64_int [of "671088640"]
  by (simp add: kv_gb_def dbl_int fl_mul_Fin fl_div_def f64_halves)

lemma size_Fin: "m \<in> set hermes_models \<Longrightarrow> \<exists>c. md_size_gb m = Fin c \<and> 4 \<le> c \<and> c \<le> 74"
proof -
  assume "m \<in> set hermes_models"
  then obtain q where q: "md_size_gb m = f64 q" "4 \<le> q" "q \<le> 74"
    by (auto simp: hermes_models_def model_def)
  have "f64 4 = Fin 4" "f64 74 = Fin 74" using f64_int [of 4] f64_int [of 74] by simp_all
  with f64_between [of 4 q 74] q show ?thesis by simp
qed

text \<open>What remains is a finite number, at least one half, and at least \<open>k\<close> if \<open>k\<close> is free.\<close>

lemma remaining_Fin:
  assumes "0 \<le> b" and "b < 2 ^ 40" and "md_size_gb m = Fin c" and "0 \<le> c"
  shows "\<exists>x. remaining_gb b m = Fin x \<and> 1 / 2 \<le> x \<and> (0 \<le> k \<longrightarrow> k < 2 ^ 40 \<longrightarrow> of_int k \<le> of_int b - c \<longrightarrow> of_int k \<le> x)"
proof (cases "of_int b - c < 0")
  case True
  then have "remaining_gb b m = Fin (1 / 2)"
    using assms f64_negative by (simp add: remaining_gb_def dbl_int fl_sub_def Let_def)
  moreover have "\<not> (0 \<le> k \<and> of_int k \<le> of_int b - c)" using True by (meson not_le of_int_0_le_iff order_trans)
  ultimately show ?thesis by (intro exI [of _ "1 / 2"]) auto
next
  case False
  have "f64 (of_int b) = Fin (of_int b)" "f64 0 = Fin 0" using f64_int [of b] f64_int [of 0] assms(1,2) by simp_all
  with f64_between [of 0 "of_int b - c" "of_int b"] False assms(4) obtain x where x: "f64 (of_int b - c) = Fin x" by auto
  have "of_int k \<le> x" if "0 \<le> k" "k < 2 ^ 40" "of_int k \<le> of_int b - c"
    using f64_mono [of "of_int k" "of_int b - c"] f64_int [of k] that x by (simp add: fl_le_Fin)
  moreover have "remaining_gb b m = Fin (max x (1 / 2))"
    using x assms by (simp add: remaining_gb_def dbl_int fl_sub_def Let_def max_def)
  ultimately show ?thesis by (intro exI [of _ "max x (1 / 2)"]) (auto simp: le_max_iff_disj)
qed

lemma half_mul: "1 / 2 * a \<le> 1 / 2 * x \<Longrightarrow> 0 \<le> a \<Longrightarrow> f64 (a / 2) = Fin (a / 2) \<Longrightarrow>
   ctx_fit (Fin (a / 2)) (Fin x) = Easy"
  using f64_mono [of "a / 2" "x / 2"] by (simp add: ctx_fit_def fl_mul_Fin)

lemma big_budget:
  assumes "pickable b m" and "md_size_gb m = Fin c" and "33 \<le> c" and "0 \<le> b" and "b < 2 ^ 40"
  shows "5 \<le> of_int b - c"
proof -
  let ?q = "of_int b * (7656119366529843 / 9007199254740992) :: rat"
  have le: "fl_le (Fin c) (f64 ?q)" using assms(1,2) budget_bound [OF assms(4,5)] by (simp add: pickable_def)
  have b34: "34 \<le> b"
  proof (rule ccontr)
    assume "\<not> 34 \<le> b"
    then have "of_int b \<le> (33 :: rat)" by simp
    then have "?q \<le> 32" by simp
    then have "fl_le (f64 ?q) (Fin 32)" using f64_mono [of ?q 32] f64_int [of 32] assms(4) by simp
    with le have "fl_le (Fin c) (Fin 32)" by (rule fl_le_trans)
    with assms(3) show False by (simp add: fl_le_Fin)
  qed
  then have "(34 :: rat) \<le> of_int b" by simp
  then have "?q \<le> of_int (b - 5)" by simp
  then have "fl_le (f64 ?q) (Fin (of_int (b - 5)))"
    using f64_mono [of ?q "of_int (b - 5)"] f64_int [of "b - 5"] assms(4,5) b34 by simp
  with le have "fl_le (Fin c) (Fin (of_int (b - 5)))" by (rule fl_le_trans)
  then show ?thesis by (simp add: fl_le_Fin)
qed

lemma first_option_roomy:
  assumes "0 \<le> b" and "b < 2 ^ 40"
  shows "roomy (top_pick b) (remaining_gb b (top_pick b)) 4096"
proof -
  obtain c where c: "md_size_gb (top_pick b) = Fin c" "4 \<le> c" "c \<le> 74" using size_Fin [OF top_pick_in] by blast
  from hermes_ctx [OF top_pick_in, of b] consider (small) "md_kv_bytes_per_tok (top_pick b) = 65536"
    | (big) "md_kv_bytes_per_tok (top_pick b) = 163840" "33 \<le> c"
    using c(1) by (auto simp: fl_le_Fin)
  then show ?thesis
  proof cases
    case small
    obtain x where x: "remaining_gb b (top_pick b) = Fin x" "1 / 2 \<le> x"
      using remaining_Fin [OF assms c(1)] c(2) by auto
    have "ctx_fit (Fin (1 / 4)) (Fin x) = Easy" using half_mul [of "1 / 2" x] x(2) f64_halves by simp
    with small x(1) show ?thesis by (simp add: roomy_def kv_4096)
  next
    case big
    have "top_pick b \<noteq> hd hermes_models"
    proof
      assume "top_pick b = hd hermes_models"
      then have "md_kv_bytes_per_tok (top_pick b) = 65536" by (simp add: hermes_models_def model_def)
      with big(1) show False by simp
    qed
    then have "filter (pickable b) hermes_models \<noteq> []" by (auto simp: top_pick_eq)
    then have "pickable b (top_pick b)" using last_in_set by (fastforce simp: top_pick_eq)
    from big_budget [OF this c(1) big(2) assms] have f: "5 \<le> of_int b - c" .
    obtain x where x: "remaining_gb b (top_pick b) = Fin x" "5 \<le> x"
      using remaining_Fin [OF assms c(1), of 5] c(2) f by auto
    have "ctx_fit (Fin (5 / 8)) (Fin x) = Easy" using half_mul [of "5 / 4" x] x(2) f64_halves by simp
    with big(1) x(1) show ?thesis by (simp add: roomy_def kv_4096)
  qed
qed

text \<open>
  C37. The recommended model. For every memory budget it comes from the table; it takes at most
  85 percent of the budget exactly when the budget is at least 6 GB (below that a model is
  recommended although none fits), and no model above 10 GB that fits is larger.
\<close>

theorem top_pick_fits:
  assumes "0 \<le> b" and "b < 2 ^ 40"
  shows "top_pick b \<in> set hermes_models \<and> (fits_in (md_size_gb (top_pick b)) b (85 / 100) \<longleftrightarrow> 6 \<le> b) \<and>
    (\<forall>m \<in> set hermes_models. pickable b m \<longrightarrow> fl_le (md_size_gb m) (md_size_gb (top_pick b)))"
proof (cases "filter (pickable b) hermes_models = []")
  case True
  then have "top_pick b = hd hermes_models" "\<forall>m \<in> set hermes_models. \<not> pickable b m"
    by (simp_all add: top_pick_eq filter_empty_conv)
  then show ?thesis using top_pick_in [of b] smallest_fits [OF assms] hermes_hd(2) by auto
next
  case False
  then obtain m where "m \<in> set hermes_models" "pickable b m" by (auto simp: filter_empty_conv)
  with top_pick_largest have p: "pickable b (top_pick b)" by blast
  then have "fits_in (md_size_gb (top_pick b)) b (85 / 100)" unfolding pickable_def by (rule conjunct1)
  moreover have "6 \<le> b" by (rule large_not_below_6 [OF p assms])
  moreover have "\<forall>m \<in> set hermes_models. pickable b m \<longrightarrow> fl_le (md_size_gb m) (md_size_gb (top_pick b))"
    using top_pick_largest by blast
  ultimately show ?thesis using top_pick_in [of b] by blast
qed

theorem top_pick_fits_witness:
  "fits_in (md_size_gb (top_pick 6)) 6 (85 / 100) \<and> \<not> fits_in (md_size_gb (top_pick 5)) 5 (85 / 100)"
  using top_pick_fits [of 6] top_pick_fits [of 5] by simp

text \<open>
  C36. The recommended context is the largest that fits: its cache takes at most 85 percent of the
  memory left beside the recommended model, and every larger size of the list takes more.
  In particular the smallest size always fits, so the initial value 4096 is never a guess.
\<close>

theorem recommended_ctx_largest:
  assumes "0 \<le> b" and "b < 2 ^ 40"
  shows "recommended_ctx b \<in> set ctx_options \<and>
    roomy (top_pick b) (remaining_gb b (top_pick b)) (recommended_ctx b) \<and>
    (\<forall>c \<in> set ctx_options. roomy (top_pick b) (remaining_gb b (top_pick b)) c \<longrightarrow> c \<le> recommended_ctx b)"
proof -
  let ?P = "roomy (top_pick b) (remaining_gb b (top_pick b))"
  have four: "4096 \<in> set ctx_options" by (simp add: ctx_options_def)
  have "recommended_ctx b \<in> insert 4096 (set (filter ?P ctx_options))"
    unfolding recommended_ctx_eq using last_in_set [of "4096 # filter ?P ctx_options"] by simp
  then have "recommended_ctx b \<in> set ctx_options" using four by auto
  with recommended_ctx_max [OF four first_option_roomy [OF assms]] recommended_ctx_max show ?thesis by blast
qed

theorem recommended_ctx_largest_witness:
  "roomy (top_pick 64) (remaining_gb 64 (top_pick 64)) (recommended_ctx 64)"
  using recommended_ctx_largest [of 64] by simp

text \<open>Detection on a small machine: an AMD card of 1 GB beside 64 GB of shared memory.\<close>

definition sample_sys :: sys where
  "sample_sys = \<lparr>
     sy_file = [''/proc/cpuinfo'' \<mapsto> concat (map (\<lambda>s. s @ [NL]) [''processor : 0'', ''model name : AMD RYZEN AI MAX+ 395'',
          ''cpu cores : 16'', ''processor : 1'']),
        ''/proc/meminfo'' \<mapsto> ''MemTotal:       131072 kB'' @ [NL] @ ''MemAvailable:   65536 kB'' @ [NL],
        ''/sys/class/drm/card1/device/vendor'' \<mapsto> ''0x1002'' @ [NL],
        ''/sys/class/drm/card1/device/mem_info_vram_total'' \<mapsto> ''1073741824'' @ [NL],
        ''/sys/class/drm/card1/device/mem_info_gtt_total'' \<mapsto> ''68719476736'' @ [NL]],
     sy_dir = [''/sys/class/drm'' \<mapsto> [''.'', ''card1-DP-1'', ''card1'']],
     sy_exists = (\<lambda>p. p = ''/dev/accel0'')\<rparr>"

lemma sample_detected:
  "map_option (\<lambda>hw. (hw_cpu_cores hw, hw_cpu_threads hw, hw_gpu_name hw, hw_gpu_arch hw, hw_ram_total hw, hw_is_uma hw,
     budget_gb hw, hw_npu_name hw, hw_bandwidth hw)) (hw_detect sample_sys) =
   Some (16, 2, ''Integrated RDNA 3.5 APU'', ''gfx1151'', 134217728, True, 64, ''detected'', 192)"
  by code_simp

end
