(* ===== verification/Lifecycle.thy ===== *)
theory Lifecycle
  imports Server Daemon Logger Recommend
begin

text \<open>
  src/src/main.c: the early-exit flags, the configuration pipeline (defaults, file, command
  line, validation), and the start and the shutdown of the daemon with the clean-up of every
  failing step. A run yields its exit code, the exit codes of the processes left behind by
  daemonizing, the sequence of its actions and the file system with the PID file. The
  outcomes of libraries and system calls are the environment.
\<close>

section \<open>Environment and actions\<close>

text \<open>
  \<open>me_prog\<close> and \<open>me_args\<close> are \<open>argv[0]\<close> and the arguments after it, \<open>me_files\<close> the contents of readable
  files, \<open>me_random\<close> what reading 32 bytes from \<open>/dev/urandom\<close> gives (\<open>None\<close> if it cannot be
  opened), \<open>me_serving\<close> what other processes do to the file system while the event loop runs.
\<close>

record main_env =
  me_prog :: string
  me_args :: "string list"
  me_files :: "string \<Rightarrow> string option"
  me_random :: "8 word list option"
  me_sys :: sys
  me_tty :: bool
  me_logfile_ok :: bool
  me_mutex_ok :: bool
  me_model_ok :: bool
  me_ctx_ok :: bool
  me_template :: "string option"
  me_nproc :: int
  me_detach :: detach_env
  me_fds :: fds
  me_pid :: int
  me_write_ok :: bool
  me_worker_mutex :: bool
  me_worker_cond :: bool
  me_worker_thread :: bool
  me_now :: timespec
  me_listen :: "string \<Rightarrow> bool"
  me_serving :: "os \<Rightarrow> os"

datatype act = PrintVersion string | RunRecommend "string option" | PrintApiKey string | RandomFailed
  | LoadFailed string | PrintUsage string | PrintError string
  | InitLogger logger | Log log_level string | InstallSignals | InitEngine engine int
  | Detach fds | EnableSyslog | WritePid int | StartWorker | InitManager | Announce string
  | ServerRun server | DestroyServer | CancelWorker | DestroyWorker | DestroyEngine | RemovePid
  | DestroyLogger

section \<open>Flags that end the program early\<close>

fun early_exit :: "sys \<Rightarrow> 8 word list option \<Rightarrow> string list \<Rightarrow> (int \<times> act list) option" where
  "early_exit sy random [] = None"
| "early_exit sy random (a # as) =
     (if a = ''--version'' \<or> a = ''-v'' then Some (0, [PrintVersion (''professord v'' @ PROF_VERSION @ [NL])])
      else if a = ''--recommend'' then Some (0, [RunRecommend (run_recommend sy)])
      else if a = ''--gen-api-key''
      then (case random of
          None \<Rightarrow> Some (1, [RandomFailed])
        | Some buf \<Rightarrow> if length buf \<noteq> 32 then Some (1, [RandomFailed])
                      else Some (0, [PrintApiKey (concat (map hex2 buf) @ [NL])]))
      else early_exit sy random as)"

section \<open>The configuration\<close>

fun config_arg :: "string list \<Rightarrow> string option" where
  "config_arg (a # v # as) = (if a = ''--config'' then Some v else config_arg (v # as))"
| "config_arg as = None"

datatype config_stage = Ready config | Stop int "act list"

definition config_with_file :: "(string \<Rightarrow> string option) \<Rightarrow> string list \<Rightarrow> config option" where
  "config_with_file files args =
     (let cfg = (case config_arg args of
            None \<Rightarrow> config_defaults
          | Some v \<Rightarrow> config_defaults\<lparr>cf_config_file := snprintf_s PROF_PATH_MAX v\<rparr>)
      in if cf_config_file cfg \<noteq> [] then config_load_file cfg (files (cf_config_file cfg)) else Some cfg)"

definition read_config :: "(string \<Rightarrow> string option) \<Rightarrow> string \<Rightarrow> string list \<Rightarrow> config_stage" where
  "read_config files prog args = (case config_with_file files args of
     None \<Rightarrow> Stop 1 [LoadFailed (case config_arg args of None \<Rightarrow> [] | Some v \<Rightarrow> snprintf_s PROF_PATH_MAX v)]
   | Some cfg1 \<Rightarrow> (case config_parse_cli cfg1 args of
       CliHelp \<Rightarrow> Stop 0 [PrintUsage (config_print_help prog)]
     | CliMissing a \<Rightarrow> Stop 1 [PrintError (''Missing value for '' @ a)]
     | CliUnknown a \<Rightarrow> Stop 1 [PrintError (''Unknown option: '' @ a)]
     | CliOk cfg \<Rightarrow> (case config_validate cfg of
           Some err \<Rightarrow> Stop 1 [PrintError (config_error_text err)]
         | None \<Rightarrow> Ready cfg)))"

section \<open>The daemon\<close>

record main_run =
  mr_exit :: int
  mr_parents :: "int list"
  mr_acts :: "act list"
  mr_os :: os

definition banner :: "act list" where
  \<open>banner = map (Log LvInfo) [[], ''  ======================================================'',
     ''    professord v'' @ PROF_VERSION @ '' -- Planet Express Inference Division'',
     ''    "Our crew is replaceable, your package isn't."'',
     ''  ======================================================'', []]\<close>

definition remove_pid :: "config \<Rightarrow> os \<Rightarrow> act list \<times> os" where
  "remove_pid cfg s = (if cf_daemonize cfg \<noteq> 0
     then ([RemovePid], daemon_remove_pidfile s (Some (cf_pid_file cfg))) else ([], s))"

definition initial_server :: "config \<Rightarrow> worker \<Rightarrow> timespec \<Rightarrow> server" where
  "initial_server cfg w now = \<lparr>sv_cfg = cfg, sv_worker = w,
     sv_model_id = snprintf_s PROF_MODEL_MAX (cf_model_alias cfg),
     sv_stats = stats_init (cf_stats_interval cfg) now, sv_active = 0, sv_heap = (\<lambda>j. None),
     sv_next = 0, sv_conns = (\<lambda>c. None)\<rparr>"

text \<open>What \<open>server_init\<close> logs once it listens.\<close>

definition listen_messages :: "config \<Rightarrow> act list" where
  "listen_messages cfg = Log LvInfo (''listening on '' @ cf_listen_addr cfg) #
     (if cf_acl cfg \<noteq> []
      then Log LvInfo (''IP ACL enabled: '' @ dec_int (int (length (cf_acl cfg))) @ '' allowed addresses'') #
           map (\<lambda>a. Log LvInfo (''  ACL allow: '' @ a)) (cf_acl cfg)
      else [])"

text \<open>From the worker thread on; \<open>acts\<close> has been done before.\<close>

definition serve :: "main_env \<Rightarrow> config \<Rightarrow> int list \<Rightarrow> act list \<Rightarrow> os \<Rightarrow> main_run" where
  "serve e cfg parents acts s =
     (let (rc, w) = worker_init (me_worker_mutex e) (me_worker_cond e) (me_worker_thread e) in
      if rc \<noteq> 0
      then let (rm, s1) = remove_pid cfg s in
        \<lparr>mr_exit = 1, mr_parents = parents,
         mr_acts = acts @ [Log LvFatal ''failed to start worker thread'', DestroyEngine] @ rm @ [DestroyLogger],
         mr_os = s1\<rparr>
      else if \<not> server_init (me_listen e) cfg
      then let (rm, s1) = remove_pid cfg s in
        \<lparr>mr_exit = 1, mr_parents = parents,
         mr_acts = acts @ [StartWorker, InitManager, Log LvFatal (''failed to bind: '' @ cf_listen_addr cfg),
           Log LvFatal ''failed to start HTTP server'', DestroyWorker, DestroyEngine] @ rm @ [DestroyLogger],
         mr_os = s1\<rparr>
      else let (rm, s1) = remove_pid cfg (me_serving e s) in
        \<lparr>mr_exit = 0, mr_parents = parents,
         mr_acts = acts @ [StartWorker, InitManager] @ listen_messages cfg @
          [Announce ''Good news, everyone! professord is ready!'',
           ServerRun (initial_server cfg w (me_now e)),
           Log LvInfo ''I don't want to live on this planet anymore. Shutting down.'',
           DestroyServer, CancelWorker, DestroyWorker, DestroyEngine] @ rm @
           [Log LvInfo (''So that's what things would be like if I'd shut down. '' @
              ''A man can dream though. A man can dream...''), DestroyLogger],
         mr_os = s1\<rparr>)"

definition detach_and_serve :: "main_env \<Rightarrow> config \<Rightarrow> act list \<Rightarrow> os \<Rightarrow> main_run" where
  "detach_and_serve e cfg acts s =
     (if cf_daemonize cfg = 0 then serve e cfg [] acts s
      else let acts1 = acts @ [Log LvInfo ''daemonizing -- switching to syslog''] in
        case daemon_daemonize (me_detach e) (me_fds e) of (parents, rc, t) \<Rightarrow>
          if rc \<noteq> 0
          then \<lparr>mr_exit = 1, mr_parents = parents,
                mr_acts = acts1 @ [Log LvFatal ''failed to daemonize'', DestroyEngine, DestroyLogger], mr_os = s\<rparr>
          else case daemon_write_pidfile s (me_pid e) (me_write_ok e) (Some (cf_pid_file cfg)) of (prc, s1) \<Rightarrow>
            serve e cfg parents (acts1 @ [Detach t, EnableSyslog, WritePid prc] @
              (if prc \<noteq> 0 then [Log LvWarn (''failed to write PID file: '' @ cf_pid_file cfg)] else [])) s1)"

definition run_daemon :: "main_env \<Rightarrow> config \<Rightarrow> os \<Rightarrow> main_run" where
  "run_daemon e cfg s =
     (let log_path = (if cf_log_file cfg \<noteq> [] then Some (cf_log_file cfg) else None);
          (rc, lg) = logger_init (word_of_int (cf_log_level cfg)) log_path False (me_tty e)
            (me_logfile_ok e) (me_mutex_ok e)
      in if rc \<noteq> 0 then \<lparr>mr_exit = 1, mr_parents = [], mr_acts = [PrintError ''Error: failed to init logger''], mr_os = s\<rparr>
         else let acts = [InitLogger lg] @ banner @
                  [Log LvInfo ''Good news, everyone! professord is starting up!'', InstallSignals] in
           case inference_init cfg (me_model_ok e) (me_ctx_ok e) (me_template e) (me_nproc e) of
             Inl err \<Rightarrow> \<lparr>mr_exit = 1, mr_parents = [],
               mr_acts = acts @ [Log LvFatal ''failed to initialize inference engine'', DestroyLogger], mr_os = s\<rparr>
           | Inr (eng, threads) \<Rightarrow> detach_and_serve e cfg (acts @ [InitEngine eng threads]) s)"

definition main :: "main_env \<Rightarrow> os \<Rightarrow> main_run" where
  "main e s = (case early_exit (me_sys e) (me_random e) (me_args e) of
     Some (rc, acts) \<Rightarrow> \<lparr>mr_exit = rc, mr_parents = [], mr_acts = acts, mr_os = s\<rparr>
   | None \<Rightarrow> (case read_config (me_files e) (me_prog e) (me_args e) of
       Stop rc acts \<Rightarrow> \<lparr>mr_exit = rc, mr_parents = [], mr_acts = acts, mr_os = s\<rparr>
     | Ready cfg \<Rightarrow> run_daemon e cfg s))"

section \<open>Every exit path cleans up\<close>

text \<open>
  What the process holds. An action is refused (\<open>None\<close>) when it uses something not held, when
  it starts something twice, when a fork would lose the worker thread, or when it destroys
  what is still used: the engine while the worker runs, the logger while anything runs.
\<close>

record held =
  h_logger :: bool
  h_engine :: bool
  h_worker :: bool
  h_manager :: bool

definition nothing :: held where
  "nothing = \<lparr>h_logger = False, h_engine = False, h_worker = False, h_manager = False\<rparr>"

definition guarded :: "bool \<Rightarrow> held \<Rightarrow> held option" where
  "guarded b h = (if b then Some h else None)"

fun track :: "act \<Rightarrow> held \<Rightarrow> held option" where
  "track (InitLogger lg) h = guarded (\<not> h_logger h) (h\<lparr>h_logger := True\<rparr>)"
| "track (Log l msg) h = guarded (h_logger h) h"
| "track (Announce msg) h = guarded (h_logger h) h"
| "track EnableSyslog h = guarded (h_logger h) h"
| "track (Detach t) h = guarded (\<not> h_worker h \<and> \<not> h_manager h) h"
| "track (InitEngine eng n) h = guarded (h_logger h \<and> \<not> h_engine h) (h\<lparr>h_engine := True\<rparr>)"
| "track StartWorker h = guarded (h_logger h \<and> h_engine h \<and> \<not> h_worker h) (h\<lparr>h_worker := True\<rparr>)"
| "track InitManager h = guarded (\<not> h_manager h) (h\<lparr>h_manager := True\<rparr>)"
| "track (ServerRun sv) h = guarded (h_logger h \<and> h_engine h \<and> h_worker h \<and> h_manager h) h"
| "track DestroyServer h = guarded (h_manager h) (h\<lparr>h_manager := False\<rparr>)"
| "track CancelWorker h = guarded (h_worker h) h"
| "track DestroyWorker h = guarded (h_worker h) (h\<lparr>h_worker := False\<rparr>)"
| "track DestroyEngine h = guarded (h_engine h \<and> \<not> h_worker h) (h\<lparr>h_engine := False\<rparr>)"
| "track DestroyLogger h = guarded (h_logger h \<and> \<not> h_engine h \<and> \<not> h_worker h) (h\<lparr>h_logger := False\<rparr>)"
| "track a h = Some h"

fun track_all :: "act list \<Rightarrow> held \<Rightarrow> held option" where
  "track_all [] h = Some h"
| "track_all (a # as) h = Option.bind (track a h) (track_all as)"

lemma track_all_append [simp]: "track_all (as @ bs) h = Option.bind (track_all as h) (track_all bs)"
  by (induction as arbitrary: h) (auto split: Option.bind_splits)

lemma track_logs: "\<forall>a \<in> set as. \<exists>l m. a = Log l m \<Longrightarrow> h_logger h \<Longrightarrow> track_all as h = Some h"
  by (induction as) (auto simp: guarded_def)

lemma track_banner: "h_logger h \<Longrightarrow> track_all banner h = Some h"
  by (rule track_logs) (auto simp: banner_def)

lemma track_listen: "h_logger h \<Longrightarrow> track_all (listen_messages cfg) h = Some h"
  by (rule track_logs) (auto simp: listen_messages_def)

lemma track_remove_pid: "remove_pid cfg s = (rm, s1) \<Longrightarrow> track_all rm h = Some h"
  by (auto simp: remove_pid_def split: if_splits)

definition bind_failed :: "act list \<Rightarrow> bool" where
  "bind_failed as \<longleftrightarrow> InitManager \<in> set as \<and> DestroyServer \<notin> set as"

definition started :: held where
  "started = \<lparr>h_logger = True, h_engine = True, h_worker = False, h_manager = False\<rparr>"

lemma remove_pid_acts: "remove_pid cfg s = (rm, s1) \<Longrightarrow> set rm \<subseteq> {RemovePid}"
  by (auto simp: remove_pid_def split: if_splits)

lemma serve_tracked:
  assumes "track_all acts nothing = Some started" and "InitManager \<notin> set acts" and "DestroyServer \<notin> set acts"
  shows "track_all (mr_acts (serve e cfg parents acts s)) nothing =
    Some (nothing\<lparr>h_manager := bind_failed (mr_acts (serve e cfg parents acts s))\<rparr>)"
proof -
  obtain rm s1 rm2 s2 where rm: "remove_pid cfg s = (rm, s1)" "remove_pid cfg (me_serving e s) = (rm2, s2)"
    by fastforce
  note facts = assms track_remove_pid [OF rm(1)] track_remove_pid [OF rm(2)] remove_pid_acts [OF rm(1)]
    remove_pid_acts [OF rm(2)]
  show ?thesis
    using facts
    by (auto simp: serve_def rm guarded_def started_def nothing_def track_listen bind_failed_def
        split: prod.split)
qed

lemma logs_only: "set banner \<inter> {InitManager, DestroyServer} = {}"
  by (auto simp: banner_def)

lemma detach_tracked:
  assumes "track_all acts nothing = Some started" and "InitManager \<notin> set acts" and "DestroyServer \<notin> set acts"
  shows "track_all (mr_acts (detach_and_serve e cfg acts s)) nothing =
    Some (nothing\<lparr>h_manager := bind_failed (mr_acts (detach_and_serve e cfg acts s))\<rparr>)"
proof (cases "cf_daemonize cfg = 0")
  case True
  then show ?thesis using serve_tracked [OF assms] by (simp add: detach_and_serve_def)
next
  case False
  obtain parents rc t where d: "daemon_daemonize (me_detach e) (me_fds e) = (parents, rc, t)"
    by (cases "daemon_daemonize (me_detach e) (me_fds e)")
  obtain prc s1 where p: "daemon_write_pidfile s (me_pid e) (me_write_ok e) (Some (cf_pid_file cfg)) = (prc, s1)"
    by fastforce
  let ?acts = "(acts @ [Log LvInfo ''daemonizing -- switching to syslog'']) @ [Detach t, EnableSyslog, WritePid prc] @
    (if prc \<noteq> 0 then [Log LvWarn (''failed to write PID file: '' @ cf_pid_file cfg)] else [])"
  show ?thesis
  proof (cases "rc = 0")
    case True
    have "track_all ?acts nothing = Some started" "InitManager \<notin> set ?acts" "DestroyServer \<notin> set ?acts"
      using assms by (auto simp: guarded_def started_def)
    from serve_tracked [OF this] True False d p show ?thesis by (simp add: detach_and_serve_def Let_def)
  next
    case rc: False
    with False d assms show ?thesis
      by (simp add: detach_and_serve_def Let_def guarded_def started_def nothing_def bind_failed_def)
  qed
qed

lemma run_daemon_tracked:
  "track_all (mr_acts (run_daemon e cfg s)) nothing =
    Some (nothing\<lparr>h_manager := bind_failed (mr_acts (run_daemon e cfg s))\<rparr>)"
proof -
  obtain rc lg where lg: "logger_init (word_of_int (cf_log_level cfg))
      (if cf_log_file cfg \<noteq> [] then Some (cf_log_file cfg) else None) False (me_tty e)
      (me_logfile_ok e) (me_mutex_ok e) = (rc, lg)" by fastforce
  let ?acts = "[InitLogger lg] @ banner @
    [Log LvInfo ''Good news, everyone! professord is starting up!'', InstallSignals]"
  have init: "track_all ?acts nothing = Some (nothing\<lparr>h_logger := True\<rparr>)"
    by (simp add: guarded_def nothing_def track_banner)
  have no: "InitManager \<notin> set ?acts" "DestroyServer \<notin> set ?acts" using logs_only by auto
  show ?thesis
  proof (cases "rc = 0")
    case False
    with lg show ?thesis by (simp add: run_daemon_def nothing_def bind_failed_def)
  next
    case True
    show ?thesis
    proof (cases "inference_init cfg (me_model_ok e) (me_ctx_ok e) (me_template e) (me_nproc e)")
      case (Inl err)
      with True lg init no show ?thesis
        by (simp add: run_daemon_def Let_def bind_failed_def guarded_def nothing_def track_banner)
    next
      case (Inr et)
      obtain eng n where et: "et = (eng, n)" by fastforce
      have "track_all (?acts @ [InitEngine eng n]) nothing = Some started"
        unfolding track_all_append [of ?acts] init by (simp add: guarded_def started_def nothing_def)
      moreover have "InitManager \<notin> set (?acts @ [InitEngine eng n])" "DestroyServer \<notin> set (?acts @ [InitEngine eng n])"
        using no by auto
      ultimately have "track_all (mr_acts (detach_and_serve e cfg (?acts @ [InitEngine eng n]) s)) nothing =
          Some (nothing\<lparr>h_manager := bind_failed (mr_acts (detach_and_serve e cfg (?acts @ [InitEngine eng n]) s))\<rparr>)"
        by (rule detach_tracked)
      with True lg Inr et show ?thesis by (simp add: run_daemon_def Let_def)
    qed
  qed
qed

lemma early_exit_tracked: "early_exit sy random as = Some (rc, acts) \<Longrightarrow> track_all acts h = Some h \<and> \<not> bind_failed acts"
  by (induction sy random as rule: early_exit.induct) (auto simp: bind_failed_def split: if_splits option.splits)

lemma read_config_tracked: "read_config files prog args = Stop rc acts \<Longrightarrow> track_all acts h = Some h \<and> \<not> bind_failed acts"
  by (auto simp: read_config_def bind_failed_def split: option.splits cli_result.splits if_splits)

text \<open>
  C16. Every exit path cleans up in order. Whatever the arguments, the files and the outcomes of
  the libraries, a run never uses what it does not hold, never starts or destroys anything
  twice, forks only before its threads exist, joins the worker before it frees the engine,
  logs only between creation and destruction of the logger, and ends holding nothing, with
  one exception: when the listener cannot be created the event manager is not freed.
\<close>

theorem main_cleans_up:
  "track_all (mr_acts (main e s)) nothing = Some (nothing\<lparr>h_manager := bind_failed (mr_acts (main e s))\<rparr>)"
proof -
  have n: "nothing\<lparr>h_manager := False\<rparr> = nothing" by (simp add: nothing_def)
  show ?thesis
  proof (cases "early_exit (me_sys e) (me_random e) (me_args e)")
    case (Some ra)
    then obtain rc acts where "early_exit (me_sys e) (me_random e) (me_args e) = Some (rc, acts)" by (cases ra) auto
    with early_exit_tracked [OF this] n show ?thesis by (simp add: main_def)
  next
    case None
    show ?thesis
    proof (cases "read_config (me_files e) (me_prog e) (me_args e)")
      case (Ready cfg)
      with None run_daemon_tracked show ?thesis by (simp add: main_def)
    next
      case (Stop rc acts)
      with read_config_tracked [OF Stop] None n show ?thesis by (simp add: main_def)
    qed
  qed
qed

section \<open>The server runs with the configuration that was asked for\<close>

lemma serve_server:
  "ServerRun sv \<in> set (mr_acts (serve e cfg parents acts s)) \<Longrightarrow>
   ServerRun sv \<in> set acts \<or> sv = initial_server cfg \<lparr>wk_current = None, wk_running = True\<rparr> (me_now e)"
  by (auto simp: serve_def worker_init_def listen_messages_def remove_pid_def Let_def split: if_splits)

lemma detach_server:
  "ServerRun sv \<in> set (mr_acts (detach_and_serve e cfg acts s)) \<Longrightarrow>
   ServerRun sv \<in> set acts \<or> sv = initial_server cfg \<lparr>wk_current = None, wk_running = True\<rparr> (me_now e)"
  by (auto simp: detach_and_serve_def Let_def split: if_splits prod.splits dest!: serve_server)

lemma run_daemon_server:
  "ServerRun sv \<in> set (mr_acts (run_daemon e cfg s)) \<Longrightarrow>
   sv = initial_server cfg \<lparr>wk_current = None, wk_running = True\<rparr> (me_now e)"
  by (auto simp: run_daemon_def Let_def banner_def split: if_splits prod.splits sum.splits dest!: detach_server)

lemma early_exit_server: "early_exit sy random as = Some (rc, acts) \<Longrightarrow> ServerRun sv \<notin> set acts"
  by (induction sy random as rule: early_exit.induct) (auto split: if_splits option.splits)

lemma read_config_stop: "read_config files prog args = Stop rc acts \<Longrightarrow> ServerRun sv \<notin> set acts"
  by (auto simp: read_config_def split: option.splits cli_result.splits if_splits)

lemma read_config_ready:
  assumes "read_config files prog args = Ready cfg"
  obtains cfg1 where "config_with_file files args = Some cfg1" and "config_parse_cli cfg1 args = CliOk cfg"
    and "config_validate cfg = None"
  using assms by (auto simp: read_config_def split: option.splits cli_result.splits if_splits)

lemma config_with_file_wf: "config_with_file files args = Some cfg \<Longrightarrow> config_wf cfg"
proof -
  have "config_wf (case config_arg args of None \<Rightarrow> config_defaults
      | Some v \<Rightarrow> config_defaults\<lparr>cf_config_file := snprintf_s PROF_PATH_MAX v\<rparr>)"
    using config_wf_defaults length_snprintf_s [of PROF_PATH_MAX]
    by (auto split: option.split intro!: config_wf_upd(7) le_imp_less_Suc [of _ 511, simplified])
  then show "config_with_file files args = Some cfg \<Longrightarrow> config_wf cfg"
    by (auto simp: config_with_file_def Let_def split: if_splits dest: config_wf_load)
qed

text \<open>
  C17. If \<open>main\<close> gets as far as the event loop, then with the configuration that the pipeline
  prescribes: the defaults, overridden by the file named by the first \<open>--config\<close>, overridden
  by the command line, every string and number inside its C type, validated. The server
  starts without connections or jobs, with an idle worker and the configured model name.
\<close>

theorem server_runs_configured:
  assumes "ServerRun sv \<in> set (mr_acts (main e s))"
  shows "\<exists>cfg1. config_with_file (me_files e) (me_args e) = Some cfg1 \<and>
      config_parse_cli cfg1 (me_args e) = CliOk (sv_cfg sv) \<and>
      config_validate (sv_cfg sv) = None \<and> config_wf (sv_cfg sv) \<and>
      sv_model_id sv = cf_model_alias (sv_cfg sv) \<and> sv_active sv = 0 \<and>
      (sv_worker sv = \<lparr>wk_current = None, wk_running = True\<rparr>) \<and> sv_conns sv = (\<lambda>c. None)"
proof -
  obtain cfg where cfg: "read_config (me_files e) (me_prog e) (me_args e) = Ready cfg"
    and run: "ServerRun sv \<in> set (mr_acts (run_daemon e cfg s))"
    using assms by (auto simp: main_def split: option.splits config_stage.splits
        dest: early_exit_server read_config_stop)
  note sv = run_daemon_server [OF run]
  from read_config_ready [OF cfg] obtain cfg1 where c: "config_with_file (me_files e) (me_args e) = Some cfg1"
    "config_parse_cli cfg1 (me_args e) = CliOk cfg" "config_validate cfg = None" .
  have wf: "config_wf cfg" using config_wf_cli [OF config_with_file_wf [OF c(1)] c(2)] .
  then have "snprintf_s PROF_MODEL_MAX (cf_model_alias cfg) = cf_model_alias cfg"
    by (simp add: config_wf_def snprintf_s_id)
  with c wf show ?thesis by (simp add: sv initial_server_def)
qed

text \<open>A plain start in the foreground, and one that daemonizes.\<close>

definition plain_env :: "string list \<Rightarrow> main_env" where
  "plain_env args = \<lparr>me_prog = ''professord'', me_args = args, me_files = [''/etc/p.ini'' \<mapsto> ''n_ctx = 8192'' @ [NL] @ ''max_tokens = 64'' @ [NL]],
     me_random = None, me_sys = sample_sys, me_tty = True, me_logfile_ok = True, me_mutex_ok = True, me_model_ok = True,
     me_ctx_ok = True, me_template = None, me_nproc = 8,
     me_detach = \<lparr>de_fork1 = True, de_setsid = True, de_fork2 = True, de_devnull = True\<rparr>,
     me_fds = [0 \<mapsto> ''tty'', 1 \<mapsto> ''tty'', 2 \<mapsto> ''tty''], me_pid = 77, me_write_ok = True,
     me_worker_mutex = True, me_worker_cond = True, me_worker_thread = True, me_now = (0, 0),
     me_listen = (\<lambda>url. True), me_serving = (\<lambda>s. s)\<rparr>"

definition plain_args :: "string list" where
  "plain_args = [''--config'', ''/etc/p.ini'', ''--model'', ''m.gguf'', ''--max-tokens'', ''128'']"

lemma plain_config:
  "case read_config (me_files (plain_env plain_args)) ''professord'' plain_args of
     Ready cfg \<Rightarrow> cf_n_ctx cfg = 8192 \<and> cf_max_tokens cfg = 128 \<and> cf_daemonize cfg = 0 \<and> cf_log_file cfg = []
   | Stop rc acts \<Rightarrow> False"
  by code_simp

lemma plain_runs:
  assumes "me_args e = args" and "early_exit (me_sys e) (me_random e) args = None"
    and "read_config (me_files e) (me_prog e) args = Ready cfg" and "cf_daemonize cfg = 0" and "me_mutex_ok e"
    and "cf_log_file cfg = []" and "me_model_ok e" and "me_ctx_ok e"
    and "me_worker_mutex e" and "me_worker_cond e" and "me_worker_thread e" and "\<And>u. me_listen e u"
  shows "ServerRun (initial_server cfg \<lparr>wk_current = None, wk_running = True\<rparr> (me_now e)) \<in> set (mr_acts (main e s)) \<and>
    mr_exit (main e s) = 0"
  using assms
  by (simp add: main_def run_daemon_def logger_init_def inference_init_def detach_and_serve_def serve_def
      worker_init_def server_init_def remove_pid_def Let_def)

theorem server_runs_configured_witness:
  "\<exists>sv. ServerRun sv \<in> set (mr_acts (main (plain_env plain_args) (empty_os {}))) \<and>
     cf_n_ctx (sv_cfg sv) = 8192 \<and> cf_max_tokens (sv_cfg sv) = 128 \<and> config_validate (sv_cfg sv) = None"
proof -
  obtain cfg where cfg: "read_config (me_files (plain_env plain_args)) ''professord'' plain_args = Ready cfg"
    "cf_n_ctx cfg = 8192" "cf_max_tokens cfg = 128" "cf_daemonize cfg = 0" "cf_log_file cfg = []"
    using plain_config by (auto split: config_stage.splits)
  let ?sv = "initial_server cfg \<lparr>wk_current = None, wk_running = True\<rparr> (0, 0)"
  have "ServerRun ?sv \<in> set (mr_acts (main (plain_env plain_args) (empty_os {})))"
    using plain_runs [of "plain_env plain_args" plain_args cfg "empty_os {}"] cfg(1,4,5)
    by (simp add: plain_env_def plain_args_def)
  from server_runs_configured [OF this] this cfg(2,3) show ?thesis by (auto simp: initial_server_def)
qed

section \<open>A second daemon\<close>

lemma running_pidfile_kept:
  assumes "os_node s path = Some (File (dec_int pid @ [NL]))" and "path \<noteq> []" and "0 < pid" and "in_i32 pid"
    and "os_alive s pid" and "os_readable s path"
  shows "daemon_write_pidfile s pid2 ok (Some path) = (- 1, s)"
  using assms pid_running_written [OF assms(3,4), of s]
  by (simp add: daemon_write_pidfile_def open_excl_def open_read_def)

lemma serve_refused:
  assumes "cf_daemonize cfg \<noteq> 0" and "cf_pid_file cfg \<noteq> []" and "os_writable s (cf_pid_file cfg)"
    and "\<not> server_init (me_listen e) cfg"
  shows "mr_exit (serve e cfg parents acts s) = 1 \<and> mr_parents (serve e cfg parents acts s) = parents \<and>
    set acts \<subseteq> set (mr_acts (serve e cfg parents acts s)) \<and>
    os_node (mr_os (serve e cfg parents acts s)) (cf_pid_file cfg) = None"
  using assms by (auto simp: serve_def remove_pid_def daemon_remove_pidfile_def Let_def split: prod.split)

lemma logger_init_succeeds:
  "mutex_ok \<Longrightarrow> fopen_ok \<Longrightarrow> fst (logger_init level path use_syslog tty fopen_ok mutex_ok) = 0"
  by (simp add: logger_init_def Let_def)

text \<open>
  C18. A second daemon deletes the PID file of the first. While the first one runs, the second
  is not stopped by the PID file: it only warns, goes on, fails to bind the address in use
  and removes the file on its way out, although the file names the first daemon. The process
  that was started by the user has by then reported success (exit code 0).
\<close>

theorem second_daemon_removes_pidfile:
  assumes "early_exit (me_sys e) (me_random e) (me_args e) = None" and "read_config (me_files e) (me_prog e) (me_args e) = Ready cfg"
    and "cf_daemonize cfg \<noteq> 0" and "cf_pid_file cfg \<noteq> []"
    and "me_mutex_ok e" and "me_logfile_ok e" and "me_model_ok e" and "me_ctx_ok e"
    and "daemon_daemonize (me_detach e) (me_fds e) = ([0, 0], 0, t)"
    and "os_node s (cf_pid_file cfg) = Some (File (dec_int pid @ [NL]))" and "0 < pid" and "in_i32 pid"
    and "os_alive s pid" and "os_readable s (cf_pid_file cfg)" and "os_writable s (cf_pid_file cfg)"
    and "\<not> server_init (me_listen e) cfg"
  shows "mr_exit (main e s) = 1 \<and> mr_parents (main e s) = [0, 0] \<and> WritePid (- 1) \<in> set (mr_acts (main e s)) \<and>
    os_node (mr_os (main e s)) (cf_pid_file cfg) = None"
proof -
  obtain lg where lg: "logger_init (word_of_int (cf_log_level cfg))
      (if cf_log_file cfg \<noteq> [] then Some (cf_log_file cfg) else None) False (me_tty e)
      (me_logfile_ok e) (me_mutex_ok e) = (0, lg)"
    using logger_init_succeeds [OF assms(5,6)] by (metis prod.collapse)
  obtain eng n where eng: "inference_init cfg (me_model_ok e) (me_ctx_ok e) (me_template e) (me_nproc e) = Inr (eng, n)"
    using assms(7,8) by (simp add: inference_init_def)
  note w = running_pidfile_kept [OF assms(10,4,11,12,13,14), of "me_pid e" "me_write_ok e"]
  obtain acts where m: "main e s = serve e cfg [0, 0] acts s" and a: "WritePid (- 1) \<in> set acts"
    using assms(1,2,3,9) lg eng w
    by (simp add: main_def run_daemon_def detach_and_serve_def Let_def)
  from serve_refused [OF assms(3,4,15,16), of "[0, 0]" acts] a show ?thesis unfolding m by blast
qed

definition daemon_args :: "string list" where
  "daemon_args = [''--daemonize'', ''--model'', ''m.gguf'', ''--pid-file'', ''/run/p.pid'']"

lemma daemon_config:
  "case read_config (me_files (plain_env daemon_args)) ''professord'' daemon_args of
     Ready cfg \<Rightarrow> cf_daemonize cfg = 1 \<and> cf_pid_file cfg = ''/run/p.pid'' | Stop rc acts \<Rightarrow> False"
  by code_simp

lemma first_free_std: "first_free [0 \<mapsto> ''tty'', 1 \<mapsto> ''tty'', 2 \<mapsto> ''tty''] = Some 3"
  unfolding first_free_def find_Some_iff
  by (rule exI [of _ 3]) (auto simp: less_Suc_eq numeral_3_eq_3 numeral_2_eq_2)

theorem second_daemon_removes_pidfile_witness:
  "\<exists>s1. daemon_write_pidfile (empty_os {42}) 42 True (Some ''/run/p.pid'') = (0, s1) \<and>
     os_node s1 ''/run/p.pid'' \<noteq> None \<and>
     os_node (mr_os (main ((plain_env daemon_args)\<lparr>me_listen := (\<lambda>u. False)\<rparr>) s1)) ''/run/p.pid'' = None"
proof -
  let ?e = "(plain_env daemon_args)\<lparr>me_listen := (\<lambda>u. False)\<rparr>"
  let ?s = "(empty_os {42})\<lparr>os_node := [''/run/p.pid'' \<mapsto> File (dec_int 42 @ [NL])]\<rparr>"
  obtain cfg where cfg: "read_config (me_files (plain_env daemon_args)) ''professord'' daemon_args = Ready cfg"
    "cf_daemonize cfg = 1" "cf_pid_file cfg = ''/run/p.pid''"
    using daemon_config by (auto split: config_stage.splits)
  have f: "daemon_write_pidfile (empty_os {42}) 42 True (Some ''/run/p.pid'') = (0, ?s)"
    by (simp add: first_instance)
  obtain t where t: "daemon_daemonize (me_detach ?e) (me_fds ?e) = ([0, 0], 0, t)"
    using first_free_std by (auto simp: plain_env_def daemon_daemonize_def redirect_null_def Let_def)
  have o: "os_node ?s (cf_pid_file cfg) = Some (File (dec_int 42 @ [NL]))" "os_alive ?s 42"
    "os_readable ?s (cf_pid_file cfg)" "os_writable ?s (cf_pid_file cfg)" "in_i32 42"
    using cfg by (simp_all add: empty_os_def in_i32_def INT32_MIN_def INT32_MAX_def)
  have e: "early_exit (me_sys ?e) (me_random ?e) (me_args ?e) = None" "read_config (me_files ?e) (me_prog ?e) (me_args ?e) = Ready cfg"
    "me_mutex_ok ?e" "me_logfile_ok ?e" "me_model_ok ?e" "me_ctx_ok ?e" "\<not> server_init (me_listen ?e) cfg"
    using cfg by (simp_all add: plain_env_def daemon_args_def server_init_def)
  have c: "cf_daemonize cfg \<noteq> 0" "cf_pid_file cfg \<noteq> []" using cfg by simp_all
  from second_daemon_removes_pidfile [OF e(1,2) c e(3,4,5,6) t o(1) _ o(5,2,3,4) e(7)] cfg(3)
  have "os_node (mr_os (main ?e ?s)) ''/run/p.pid'' = None" by simp
  with f show ?thesis by simp
qed

end
