(* ===== verification/Spec2Isabelle.thy ===== *)
theory Spec2Isabelle
  imports Worker_Order Lifecycle
begin

text \<open>
  A model of professord (Professor_AI), an HTTP daemon in C that serves chat and text
  completions from one local language model, with the theorems about it.

  \<^bold>\<open>The program.\<close> \<open>main\<close> (src/src/main.c) reads a configuration, loads the model through
  llama.cpp, optionally detaches from the terminal, starts one worker thread and runs an event
  loop (mongoose). A request that passes the access list, the connection limit and the API key
  is parsed (cJSON) into a job on the heap, which the event loop hands to the worker through
  one shared pointer, \<open>current_job\<close>. The worker generates tokens and either appends them to a
  buffer of the job or puts them into a ring of the job, from which the event loop writes a
  stream of events; it wakes the event loop, which finishes the response and frees the job.

  \<^bold>\<open>Theories.\<close> Each one names its source; definitions carry the names of the C functions, record
  fields those of the struct members with a prefix.
    \<^item> Prelude, Clib, Cfloat: lists, machine integers, C strings (\<open>snprintf\<close>, \<open>strtok_r\<close>, \<open>fgets\<close>,
      \<open>strtol\<close>), and floating point: rationals rounded to binary32 and binary64, with
      monotonicity and exactness of the rounding, \<open>strtof\<close> and \<open>%.<k>f\<close>.
    \<^item> Config (config.c): defaults, file, command line, access list, validation, usage text.
    \<^item> Api_Types (api_types.c): request parsers over an abstract cJSON, the response trees,
      request identifiers.
    \<^item> Inference, Generate (inference.c): parameter resolution, ChatML prompt, stop sequences, the
      generation loop and \<open>inference_complete\<close>; Generate holds the contract of a token callback
      (locales \<open>token_sink\<close>, \<open>total_sink\<close>) and what follows for every callback that keeps it.
    \<^item> Ring (worker.c, and the drain of server.c): the token ring, an interpretation of the locale
      \<open>bounded_fifo\<close>.
    \<^item> Worker (worker.c): jobs, the two callbacks (the interpretations \<open>acc\<close> and \<open>str\<close>), the body of
      the worker thread for one job, submission, cancellation.
    \<^item> Stats (stats.c): counters as 64-bit words, the report, the JSON document.
    \<^item> Server (server.c): one definition per handler, composed in \<open>ev_handler\<close>; a handler maps a
      server state to a list of outputs and a new state.
    \<^item> Worker_Sched: both threads on the shared jobs, one step per lock section or access, as an
      inductive step relation over every interleaving; Worker_Order: two further invariants of
      it, one running job at a time and the order of a stream.
    \<^item> Logger (logger.c, and the log callback of inference.c), Daemon (daemon.c), Recommend
      (recommend.c), Lifecycle (main.c).
    \<^item> this theory: a request followed from its body to its response.

  \<^bold>\<open>What is shown.\<close> Sequential behaviour: the file of the configuration is read back as written
  and the command line has the meaning of the file; parsed requests respect the limits of the
  API and are rejected exactly on the listed grounds; parameters stay in range; the prompt is
  built inside its buffer and decoded completely; generation respects context, token limit and
  stop sequences, the last by equivalence with a loop that keeps the whole text; both kinds of
  job deliver exactly the generated tokens in order; submission queues a fresh job or refuses
  without effect; authentication is exact; the event loop only runs with a validated
  configuration; every exit path of \<open>main\<close> cleans up in order. Concurrent behaviour: an
  invariant of all reachable states, by rule induction, gives that a generating job is held
  and busy, that at most one job is running, that a stream is delivered in order without gaps
  or duplicates up to the point where it is finished, and that a freed job can be touched in
  one window only; executed schedules show that this window is real, that the end of a stream
  can be lost, that an accepted job can be forgotten for ever and that a job can leak. Other
  deviations of the code from its intent are theorems too: the drifting connection counter,
  the PID file removed by a second daemon, out-of-range log levels, numbers and long lines.

  \<^bold>\<open>Conventions.\<close> Error returns are \<open>None\<close>, \<open>Inl\<close> or a constructor of a result type, as each
  theory says; undefined behaviour and calls that do not return are values, so theorems that
  something returns are proved as such. Loops whose end is not evident (\<open>drain_ring\<close>,
  \<open>decode_prompt\<close>) are partial functions, with termination proved where it holds; the waiting
  loop of \<open>ring_write\<close> consumes a list of observations, one per wake-up, so no fuel is guessed.
  A clock reading, an allocation, a flag set by another thread and the outcome of a system
  call are arguments. The bounds \<open>2 ^ 30\<close> (context) and \<open>2 ^ 40\<close> (memory in GB) in hypotheses
  exclude only configurations for which the C arithmetic overflows or that cannot occur.

  \<^bold>\<open>Not modelled.\<close> cJSON, mongoose and llama.cpp are parameters with the documented behaviour the
  code relies on as named hypotheses (\<open>cjson_strings_ok\<close>, \<open>tokenizer_ok\<close>). Log messages are
  modelled in \<open>main\<close> and in the statistics report, not at every call inside the components;
  performance counters of llama.cpp and the systemd notification are left out. Mutexes and condition variables appear as the atomicity of steps; weak memory is
  not modelled. The worker's own behaviour on the values of a job follows Worker, its sharing
  of jobs with the event loop Worker_Sched; the two use the same records and operations.
\<close>

section \<open>From a request body to its response\<close>

text \<open>The engine that \<open>inference_init\<close> builds from the configuration.\<close>

definition engine_of :: "config \<Rightarrow> engine \<Rightarrow> bool" where
  "engine_of cfg eng \<longleftrightarrow> en_n_ctx eng = cf_n_ctx cfg \<and> en_n_batch eng = cf_n_batch cfg"

lemma inference_init_engine:
  "inference_init cfg model_ok ctx_ok tmpl nproc = Inr (eng, th) \<Longrightarrow> engine_of cfg eng \<and> 1 \<le> th"
  by (auto simp: inference_init_def engine_of_def resolve_threads_def Let_def split: if_splits)

lemma fresh_limits:
  "fresh_job_ok cfg type c job \<Longrightarrow> engine_of cfg eng \<Longrightarrow> cf_n_ctx cfg \<le> 2 ^ 30 \<Longrightarrow>
   limits_ok eng (wj_params job)"
  by (simp add: fresh_job_ok_def params_in_range_def limits_ok_def engine_of_def)

text \<open>What is promised about a request that does not stream: it runs to an end, its counts fit
  the context, and the body of its response is made from exactly the generated text.\<close>

definition served :: "'j env \<Rightarrow> 's run_env \<Rightarrow> worker_job \<Rightarrow> worker_job \<Rightarrow> (out list \<times> server) option \<Rightarrow> bool" where
  "served ev e job job' result \<longleftrightarrow> (\<exists>status body outs sv'.
     result = Some (Reply status json_headers body # outs, sv') \<and>
     (status = 200 \<longrightarrow> wj_state job' = JobDone \<and>
        Some body = ev_print ev (if wj_type job = JobChat
          then chat_response_json (chat_response_of ev job')
          else completion_response_json (completion_response_of ev job')) \<and>
        sent (re_llama e) (\<lambda>t. t) 0 (wj_completion_tokens job') [] (job_text job') \<and>
        us_total_tokens (job_usage job') = wj_prompt_tokens job' + wj_completion_tokens job' \<and>
        us_total_tokens (job_usage job') \<le> en_n_ctx (re_engine e)) \<and>
     (status \<noteq> 200 \<longrightarrow> wj_state job' = JobError \<and> status \<in> {400, 500}))"

lemma total_tokens_exact:
  "job_result_ok eng p job \<Longrightarrow> wj_state job = JobDone \<Longrightarrow> en_n_ctx eng \<le> 2 ^ 30 \<Longrightarrow>
   us_total_tokens (job_usage job) = wj_prompt_tokens job + wj_completion_tokens job \<and>
   us_total_tokens (job_usage job) \<le> en_n_ctx eng"
  by (simp add: job_result_ok_def job_usage_def to_i32_id in_i32_def INT32_MIN_def INT32_MAX_def)

lemma response_of_finished:
  assumes "sv_conns sv c = Some cd" and "sv_heap sv (cd_job cd) = Some job'" and "\<not> wj_stream job'"
    and "wj_state job' \<in> {JobDone, JobError}" and "\<And>v. ev_print ev v \<noteq> None" and "ev_root_ok ev"
  shows "\<exists>body outs sv'. drain_stream_ring ev sv c = Some (Reply
      (if wj_state job' = JobDone then 200 else if wj_finish_reason job' = ''context_overflow'' then 400 else 500)
      json_headers body # outs, sv') \<and>
    (wj_state job' = JobDone \<longrightarrow> Some body = ev_print ev (if wj_type job' = JobChat
       then chat_response_json (chat_response_of ev job')
       else completion_response_json (completion_response_of ev job')))"
  using finished_response [OF assms] by blast


text \<open>A completion request on the sample backend.\<close>

definition once_ev :: "doc env" where
  "once_ev = sample_ev\<lparr>ev_json := doc_json (\<lambda>_. Some (DObj [(''prompt'', DStr ''Hi'')]))\<rparr>"

lemma once_parses:
  "completion_request_parse (ev_json once_ev) ''{}'' = ParseOk \<lparr>pr_model = [], pr_prompt = ''Hi'',
     pr_temperature = FNaN, pr_top_p = FNaN, pr_max_tokens = - 1, pr_repeat_penalty = FNaN,
     pr_stop = [], pr_stream = False\<rparr>"
  by (simp add: once_ev_def completion_request_parse_def doc_simps max_tokens_field_def model_field_def
      float_field_def stream_field_def snprintf_s_def cstr_def NUL_def)


end
